(* ===== verification/App_Error.thy ===== *)
theory App_Error
  imports Rust_Prelude
begin

text \<open>
  The application error type of \<^verbatim>\<open>src/error.rs\<close>: the machine-readable codes with their
  HTTP status, the conversions from the error types of the libraries, and the response the
  client sees.  The source of an error is kept for the log and is no part of the response.
\<close>

named_theorems err_defs \<open>constructors of application errors\<close>

datatype error_code =
    BadRequest | Unauthorized | Forbidden | NotFound | Conflict | PayloadTooLarge
  | UnprocessableEntity | TooManyRequests | Internal | NotImplemented | ServiceUnavailable

fun code_as_str :: "error_code \<Rightarrow> string" where
  "code_as_str BadRequest = ''bad_request''"
| "code_as_str Unauthorized = ''unauthorized''"
| "code_as_str Forbidden = ''forbidden''"
| "code_as_str NotFound = ''not_found''"
| "code_as_str Conflict = ''conflict''"
| "code_as_str PayloadTooLarge = ''payload_too_large''"
| "code_as_str UnprocessableEntity = ''unprocessable_entity''"
| "code_as_str TooManyRequests = ''too_many_requests''"
| "code_as_str Internal = ''internal_error''"
| "code_as_str NotImplemented = ''not_implemented''"
| "code_as_str ServiceUnavailable = ''service_unavailable''"

fun code_status :: "error_code \<Rightarrow> nat" where
  "code_status BadRequest = 400"
| "code_status Unauthorized = 401"
| "code_status Forbidden = 403"
| "code_status NotFound = 404"
| "code_status Conflict = 409"
| "code_status PayloadTooLarge = 413"
| "code_status UnprocessableEntity = 422"
| "code_status TooManyRequests = 429"
| "code_status Internal = 500"
| "code_status NotImplemented = 501"
| "code_status ServiceUnavailable = 503"

record app_error =
  err_code :: error_code
  err_message :: string
  err_source :: "string option"

definition new_error :: "error_code \<Rightarrow> string \<Rightarrow> app_error" where [err_defs]:
  "new_error c m = \<lparr>err_code = c, err_message = m, err_source = None\<rparr>"

definition with_source :: "string \<Rightarrow> app_error \<Rightarrow> app_error" where [err_defs]:
  "with_source s e = e\<lparr>err_source := Some s\<rparr>"

definition bad_request :: "string \<Rightarrow> app_error" where [err_defs]:
  "bad_request m = new_error BadRequest m"

definition unauthorized :: "string \<Rightarrow> app_error" where [err_defs]:
  "unauthorized m = new_error Unauthorized m"

definition forbidden :: "string \<Rightarrow> app_error" where [err_defs]:
  "forbidden m = new_error Forbidden m"

definition not_found :: "string \<Rightarrow> app_error" where [err_defs]:
  "not_found m = new_error NotFound m"

definition conflict :: "string \<Rightarrow> app_error" where [err_defs]:
  "conflict m = new_error Conflict m"

definition unprocessable :: "string \<Rightarrow> app_error" where [err_defs]:
  "unprocessable m = new_error UnprocessableEntity m"

definition internal :: "string \<Rightarrow> app_error" where [err_defs]:
  "internal m = new_error Internal m"

definition not_implemented :: "string \<Rightarrow> app_error" where [err_defs]:
  "not_implemented m = new_error NotImplemented m"

definition service_unavailable :: "string \<Rightarrow> app_error" where [err_defs]:
  "service_unavailable m = new_error ServiceUnavailable m"

text \<open>\<open>impl Display for AppError\<close>.\<close>

definition display_error :: "app_error \<Rightarrow> string" where
  "display_error e = code_as_str (err_code e) @ '': '' @ err_message e"

subsection \<open>Database errors\<close>

text \<open>
  The part of \<open>sqlx::Error\<close> the service distinguishes: a missing row, an error reported by
  Postgres (by the class of the violated constraint), and everything else (pool, I/O, decoding).
\<close>

datatype db_error =
    UniqueViolation | NotNullViolation | CheckViolation | ForeignKeyViolation
  | InvalidTextRepresentation | NumericOutOfRange

datatype sqlx_error = RowNotFound | Database db_error | Io

fun show_sqlx_error :: "sqlx_error \<Rightarrow> string" where
  "show_sqlx_error RowNotFound = ''no rows returned''"
| "show_sqlx_error (Database _) = ''error returned from database''"
| "show_sqlx_error Io = ''error communicating with database''"

fun from_sqlx :: "sqlx_error \<Rightarrow> app_error" where
  "from_sqlx RowNotFound = not_found ''resource not found''"
| "from_sqlx (Database UniqueViolation) = conflict ''resource already exists''"
| "from_sqlx e = with_source (show_sqlx_error e) (internal ''database error'')"

definition from_reqwest :: "string \<Rightarrow> app_error" where
  "from_reqwest src = with_source src (service_unavailable ''upstream request failed'')"

definition from_serde_json :: "string \<Rightarrow> app_error" where
  "from_serde_json src = with_source src (bad_request ''invalid JSON'')"

definition from_validation :: "string \<Rightarrow> app_error" where
  "from_validation err = unprocessable (''validation failed: '' @ err)"

subsection \<open>The HTTP response\<close>

record error_body =
  body_code :: string
  body_message :: string
  body_request_id :: string

definition is_success :: "nat \<Rightarrow> bool" where
  "is_success st \<longleftrightarrow> 200 \<le> st \<and> st \<le> 299"

definition is_server_error :: "nat \<Rightarrow> bool" where
  "is_server_error st \<longleftrightarrow> 500 \<le> st \<and> st \<le> 599"

text \<open>
  \<open>into_response\<close>: the status and the JSON body; the request id is the one of the task-local,
  empty when there is none.
\<close>

definition into_response :: "string option \<Rightarrow> app_error \<Rightarrow> nat \<times> error_body" where
  "into_response req_id e =
     (code_status (err_code e),
      \<lparr>body_code = code_as_str (err_code e), body_message = err_message e,
       body_request_id = (case req_id of None \<Rightarrow> [] | Some r \<Rightarrow> r)\<rparr>)"

lemma code_as_str_inj: "code_as_str a = code_as_str b \<Longrightarrow> a = b"
  by (cases a; cases b) simp_all

lemma code_status_inj: "code_status a = code_status b \<Longrightarrow> a = b"
  by (cases a; cases b) simp_all

lemma code_status_error: "400 \<le> code_status c \<and> code_status c \<le> 503"
  by (cases c) simp_all

text \<open>What a client of the API can tell two errors apart by.\<close>

lemma into_response_eq_iff:
  "into_response r e = into_response r e' \<longleftrightarrow>
     err_code e = err_code e' \<and> err_message e = err_message e'"
  by (auto simp: into_response_def dest: code_status_inj)

lemma into_response_hides_source:
  "into_response r (with_source s e) = into_response r e"
  by (simp add: into_response_def with_source_def)

lemma from_sqlx_code:
  "err_code (from_sqlx e) \<in> {NotFound, Conflict, Internal}"
  by (cases e rule: from_sqlx.cases) (auto simp: err_defs)

lemma from_sqlx_Io [simp]: "err_code (from_sqlx Io) = Internal"
  by (simp add: err_defs)

end
