(* ===== verification/Database.thy ===== *)
theory Database
  imports App_Error "HOL-Library.Product_Lexorder"
begin

text \<open>
  The Postgres database of the service, as the migrations under \<^verbatim>\<open>src/migrations\<close> define it: one
  record per row type, one list per table (in insertion order), and the constraints each
  \<open>INSERT\<close> or \<open>UPDATE\<close> checks.  A statement runs in a \<open>world\<close>, which is the committed
  database together with a schedule of faults: the next round trip to Postgres fails with an
  I/O error when the head of the schedule is \<open>True\<close>.  Theorems quantify over every schedule.
\<close>

named_theorems act_simps \<open>unfolding of the database actions\<close>
named_theorems keeps_intros \<open>preservation of a database predicate by an action\<close>

subsection \<open>Rows\<close>

record user =
  u_id :: uuid
  u_supabase_user_id :: uuid
  u_email :: string
  u_display_name :: "string option"
  u_avatar_url :: "string option"
  u_created_at :: instant
  u_updated_at :: instant
  u_deleted_at :: "instant option"

datatype subscription_status =
    Active | PastDue | Canceled | Trialing | Incomplete | IncompleteExpired | Unpaid

fun status_text :: "subscription_status \<Rightarrow> string" where
  "status_text Active = ''active''"
| "status_text PastDue = ''past_due''"
| "status_text Canceled = ''canceled''"
| "status_text Trialing = ''trialing''"
| "status_text Incomplete = ''incomplete''"
| "status_text IncompleteExpired = ''incomplete_expired''"
| "status_text Unpaid = ''unpaid''"

text \<open>The cast \<open>$5::subscription_status\<close>: an unknown label is an error.\<close>

definition status_of_text :: "string \<Rightarrow> subscription_status option" where
  "status_of_text s =
     find (\<lambda>x. status_text x = s)
       [Active, PastDue, Canceled, Trialing, Incomplete, IncompleteExpired, Unpaid]"

definition billable :: "subscription_status \<Rightarrow> bool" where
  "billable st \<longleftrightarrow> st \<in> {Active, Trialing, PastDue}"

record subscription =
  s_id :: uuid
  s_user_id :: uuid
  s_customer_id :: "string option"
  s_subscription_id :: "string option"
  s_tier :: string
  s_status :: subscription_status
  s_period_start :: "instant option"
  s_period_end :: "instant option"
  s_cancel_at_period_end :: bool
  s_credits_used :: int
  s_credits_period_start :: "instant option"
  s_updated_at :: instant
  s_team_id :: "uuid option"

datatype usage_metric = AiReply | BrokerPoll | CsvIntel | MarketRefresh

record usage_row =
  l_user_id :: uuid
  l_metric :: usage_metric
  l_units :: int
  l_cost_credits :: int
  l_model :: "string option"
  l_kind :: "string option"
  l_created_at :: instant

record stripe_event =
  e_id :: string
  e_type :: string
  e_processed_at :: instant

text \<open>\<open>time::Date\<close>, ordered by year, month and day.\<close>

datatype calendar_date = Date (d_year: int) (d_month: nat) (d_day: nat)

definition date_key :: "calendar_date \<Rightarrow> int \<times> nat \<times> nat" where
  "date_key d = (d_year d, d_month d, d_day d)"

lemma date_key_inj: "date_key a = date_key b \<longleftrightarrow> a = b"
  by (cases a; cases b) (simp add: date_key_def)

instantiation calendar_date :: linorder
begin

definition less_eq_calendar_date :: "calendar_date \<Rightarrow> calendar_date \<Rightarrow> bool" where
  "less_eq_calendar_date a b \<longleftrightarrow> date_key a \<le> date_key b"

definition less_calendar_date :: "calendar_date \<Rightarrow> calendar_date \<Rightarrow> bool" where
  "less_calendar_date a b \<longleftrightarrow> date_key a < date_key b"

instance
  by standard
     (auto simp: less_eq_calendar_date_def less_calendar_date_def date_key_inj [symmetric])

end

datatype report_status = Pending | Succeeded | Failed

record monthly_report =
  r_id :: uuid
  r_user_id :: uuid
  r_period_start :: calendar_date
  r_period_end :: calendar_date
  r_summary_md :: "string option"
  r_model :: "string option"
  r_credits_charged :: int
  r_status :: report_status
  r_error :: "string option"
  r_requested_at :: instant
  r_generated_at :: "instant option"

record team =
  t_id :: uuid
  t_name :: string
  t_owner_user_id :: uuid
  t_branding_logo_url :: "string option"
  t_branding_color :: "string option"
  t_created_at :: instant
  t_updated_at :: instant
  t_deleted_at :: "instant option"

record team_member =
  m_team_id :: uuid
  m_user_id :: uuid
  m_role :: string
  m_joined_at :: instant

record team_invite =
  i_token :: string
  i_team_id :: uuid
  i_invited_by :: uuid
  i_email :: string
  i_role :: string
  i_redeemed_at :: "instant option"
  i_redeemed_by :: "uuid option"
  i_created_at :: instant
  i_expires_at :: instant

record connection =
  c_id :: uuid
  c_user_id :: uuid
  c_snaptrade_user_id :: string
  c_secret_encrypted :: "byte list"
  c_authorization_id :: "string option"
  c_broker_slug :: "string option"
  c_institution_name :: "string option"
  c_is_active :: bool
  c_disabled :: bool
  c_created_at :: instant
  c_updated_at :: instant

record audit_row =
  a_user_id :: "uuid option"
  a_event_type :: string
  a_event_data :: "json option"
  a_ip_address :: "string option"
  a_user_agent :: "string option"
  a_created_at :: instant

text \<open>
  \<open>migrations\<close> is the number of migration files applied, in the order of their numbers;
  \<open>main\<close> applies all six before it serves a request.
\<close>

record database =
  users :: "user list"
  subscriptions :: "subscription list"
  usage_ledger :: "usage_row list"
  stripe_events :: "stripe_event list"
  monthly_reports :: "monthly_report list"
  teams :: "team list"
  team_members :: "team_member list"
  team_invites :: "team_invite list"
  broker_connections :: "connection list"
  audit_log :: "audit_row list"
  migrations :: nat

definition empty_database :: "nat \<Rightarrow> database" where
  "empty_database n =
     \<lparr>users = [], subscriptions = [], usage_ledger = [], stripe_events = [],
      monthly_reports = [], teams = [], team_members = [], team_invites = [],
      broker_connections = [], audit_log = [], migrations = n\<rparr>"

definition deployed :: "database \<Rightarrow> bool" where
  "deployed d \<longleftrightarrow> migrations d = 6"

text \<open>Migration 0005 adds \<open>subscriptions.team_id\<close> and makes it \<open>NOT NULL\<close>.\<close>

definition team_id_required :: "database \<Rightarrow> bool" where
  "team_id_required d \<longleftrightarrow> 5 \<le> migrations d"

subsection \<open>Actions\<close>

record world =
  db :: database
  faults :: "bool list"

type_synonym ('e, 'a) action = "world \<Rightarrow> ('e + 'a) \<times> world"

definition pure :: "'a \<Rightarrow> ('e, 'a) action" where [act_simps]:
  "pure a w = (Inr a, w)"

definition throw :: "'e \<Rightarrow> ('e, 'a) action" where [act_simps]:
  "throw e w = (Inl e, w)"

definition of_result :: "'e + 'a \<Rightarrow> ('e, 'a) action" where [act_simps]:
  "of_result r w = (r, w)"

text \<open>\<open>let x = m?; k(x)\<close>\<close>

definition bindM :: "('e, 'a) action \<Rightarrow> ('a \<Rightarrow> ('e, 'b) action) \<Rightarrow> ('e, 'b) action" where
  [act_simps]: "bindM m k w = (case m w of (Inl e, w') \<Rightarrow> (Inl e, w') | (Inr a, w') \<Rightarrow> k a w')"

text \<open>\<open>match m { Ok(x) => .., Err(e) => .. }\<close>\<close>

definition matchM :: "('e, 'a) action \<Rightarrow> ('e + 'a \<Rightarrow> ('f, 'b) action) \<Rightarrow> ('f, 'b) action" where
  [act_simps]: "matchM m k w = (case m w of (r, w') \<Rightarrow> k r w')"

text \<open>\<open>m.map_err(f)\<close>, and \<open>let _ = m;\<close>\<close>

definition map_errM :: "('e \<Rightarrow> 'f) \<Rightarrow> ('e, 'a) action \<Rightarrow> ('f, 'a) action" where [act_simps]:
  "map_errM f m w = (case m w of (r, w') \<Rightarrow> (map_err f r, w'))"

definition discard :: "('e, 'a) action \<Rightarrow> ('f, unit) action" where [act_simps]:
  "discard m w = (Inr (), snd (m w))"

text \<open>One round trip to Postgres.\<close>

definition query :: "(database \<Rightarrow> (sqlx_error + 'a) \<times> database) \<Rightarrow> (sqlx_error, 'a) action" where
  "query q w =
     (case faults w of
        True # fs \<Rightarrow> (Inl Io, w\<lparr>faults := fs\<rparr>)
      | fs \<Rightarrow> (case q (db w) of (r, d) \<Rightarrow> (r, w\<lparr>db := d, faults := tl fs\<rparr>)))"

definition select :: "(database \<Rightarrow> 'a) \<Rightarrow> (sqlx_error, 'a) action" where
  "select f = query (\<lambda>d. (Inr (f d), d))"

text \<open>
  \<open>BEGIN\<close>, the statements of the body, \<open>COMMIT\<close>.  The body is given the database as the
  pool sees it outside of the transaction.  A transaction that is dropped before \<open>COMMIT\<close>,
  or whose \<open>COMMIT\<close> fails, leaves the database as it was.
\<close>

definition transaction ::
  "(sqlx_error \<Rightarrow> 'e) \<Rightarrow> (database \<Rightarrow> ('e, 'a) action) \<Rightarrow> ('e, 'a) action" where
  "transaction conv body w =
     (case select (\<lambda>_. ()) w of
        (Inl e, w1) \<Rightarrow> (Inl (conv e), w1)
      | (Inr _, w1) \<Rightarrow>
          (case body (db w1) w1 of
             (Inl e, w2) \<Rightarrow> (Inl e, w2\<lparr>db := db w1\<rparr>)
           | (Inr a, w2) \<Rightarrow>
               (case select (\<lambda>_. ()) w2 of
                  (Inl e, w3) \<Rightarrow> (Inl (conv e), w3\<lparr>db := db w1\<rparr>)
                | (Inr _, w3) \<Rightarrow> (Inr a, w3))))"

subsection \<open>Reasoning about actions\<close>

text \<open>\<open>keeps P m\<close>: the action maintains \<open>P\<close>, whichever round trips fail.\<close>

definition keeps :: "(database \<Rightarrow> bool) \<Rightarrow> ('e, 'a) action \<Rightarrow> bool" where
  "keeps P m \<longleftrightarrow> (\<forall>w. P (db w) \<longrightarrow> P (db (snd (m w))))"

definition reads_only :: "('e, 'a) action \<Rightarrow> bool" where
  "reads_only m \<longleftrightarrow> (\<forall>w. db (snd (m w)) = db w)"

lemma keeps_run: "keeps P m \<Longrightarrow> P (db w) \<Longrightarrow> P (db (snd (m w)))"
  by (simp add: keeps_def)

lemma keepsD: "keeps P m \<Longrightarrow> P (db w) \<Longrightarrow> m w = (r, w') \<Longrightarrow> P (db w')"
  by (metis keeps_def snd_conv)

lemma reads_onlyD: "reads_only m \<Longrightarrow> m w = (r, w') \<Longrightarrow> db w' = db w"
  by (metis reads_only_def snd_conv)

lemma reads_only_keeps: "reads_only m \<Longrightarrow> keeps P m"
  by (simp add: reads_only_def keeps_def)

lemma map_errM_Inr: "map_errM f m w = (Inr a, w') \<longleftrightarrow> m w = (Inr a, w')"
  by (auto simp: map_errM_def map_err_def split: prod.splits sum.splits)

lemma map_errM_Inl: "map_errM f m w = (Inl e, w') \<longleftrightarrow> (\<exists>e'. m w = (Inl e', w') \<and> e = f e')"
  by (auto simp: map_errM_def map_err_def split: prod.splits sum.splits)

lemma bindM_Inr_iff: "bindM m k w = (Inr b, w') \<longleftrightarrow> (\<exists>a w1. m w = (Inr a, w1) \<and> k a w1 = (Inr b, w'))"
  by (auto simp: bindM_def split: prod.splits sum.splits)

lemma bindM_Inl_iff:
  "bindM m k w = (Inl e, w') \<longleftrightarrow>
     m w = (Inl e, w') \<or> (\<exists>a w1. m w = (Inr a, w1) \<and> k a w1 = (Inl e, w'))"
  by (auto simp: bindM_def split: prod.splits sum.splits)

lemma query_faulted: "faults w = True # fs \<Longrightarrow> query q w = (Inl Io, w\<lparr>faults := fs\<rparr>)"
  by (simp add: query_def)

lemma query_ok:
  "\<not> (\<exists>fs. faults w = True # fs) \<Longrightarrow>
     query q w = (fst (q (db w)), w\<lparr>db := snd (q (db w)), faults := tl (faults w)\<rparr>)"
  by (auto simp: query_def split: list.splits bool.splits prod.splits)

lemma query_no_faults [simp]:
  "faults w = [] \<Longrightarrow> query q w = (fst (q (db w)), w\<lparr>db := snd (q (db w))\<rparr>)"
  by (simp add: query_def split: prod.splits)

lemma select_no_faults [simp]: "faults w = [] \<Longrightarrow> select f w = (Inr (f (db w)), w)"
  by (simp add: select_def)

lemma query_cases:
  obtains (fault) w' where "query q w = (Inl Io, w')" "db w' = db w"
  | (ran) w' where "query q w = (fst (q (db w)), w')" "db w' = snd (q (db w))"
  by (cases "\<exists>fs. faults w = True # fs") (auto simp: query_faulted query_ok)

lemma reads_only_select [simp, intro]: "reads_only (select f)"
  unfolding reads_only_def select_def
  by (metis (no_types, lifting) query_cases snd_conv)

lemma select_Inr: "select f w = (Inr a, w') \<Longrightarrow> a = f (db w) \<and> db w' = db w"
  unfolding select_def by (cases rule: query_cases [of "\<lambda>d. (Inr (f d), d)" w]) auto

lemma select_Inl: "select f w = (Inl e, w') \<Longrightarrow> e = Io \<and> db w' = db w"
  unfolding select_def by (cases rule: query_cases [of "\<lambda>d. (Inr (f d), d)" w]) auto

lemma keeps_pure [keeps_intros]: "keeps P (pure a)"
  by (simp add: keeps_def pure_def)

lemma keeps_throw [keeps_intros]: "keeps P (throw e)"
  by (simp add: keeps_def throw_def)

lemma keeps_of_result [keeps_intros]: "keeps P (of_result r)"
  by (simp add: keeps_def of_result_def)

lemma keeps_bindM [keeps_intros]:
  "keeps P m \<Longrightarrow> (\<And>a. keeps P (k a)) \<Longrightarrow> keeps P (bindM m k)"
  by (auto simp: keeps_def bindM_def split: prod.splits sum.splits)

lemma keeps_matchM [keeps_intros]:
  "keeps P m \<Longrightarrow> (\<And>r. keeps P (k r)) \<Longrightarrow> keeps P (matchM m k)"
  by (auto simp: keeps_def matchM_def split: prod.splits)

lemma keeps_map_errM [keeps_intros]: "keeps P m \<Longrightarrow> keeps P (map_errM f m)"
  by (auto simp: keeps_def map_errM_def split: prod.splits)

lemma keeps_discard [keeps_intros]: "keeps P m \<Longrightarrow> keeps P (discard m)"
  by (simp add: keeps_def discard_def)

lemma keeps_query [keeps_intros]:
  assumes "\<And>d. P d \<Longrightarrow> P (snd (q d))"
  shows "keeps P (query q)"
  unfolding keeps_def
  by (metis assms query_cases snd_conv)

lemma keeps_select [keeps_intros]: "keeps P (select f)"
  by (simp add: reads_only_keeps)

lemma keeps_if [keeps_intros]: "keeps P a \<Longrightarrow> keeps P b \<Longrightarrow> keeps P (if c then a else b)"
  by simp

lemma keeps_case_option [keeps_intros]:
  "keeps P a \<Longrightarrow> (\<And>x. keeps P (b x)) \<Longrightarrow> keeps P (case_option a b x)"
  by (cases x) simp_all

lemma keeps_case_sum [keeps_intros]:
  "(\<And>x. keeps P (a x)) \<Longrightarrow> (\<And>x. keeps P (b x)) \<Longrightarrow> keeps P (case_sum a b x)"
  by (cases x) simp_all

lemma keeps_case_prod [keeps_intros]:
  "(\<And>x y. keeps P (f x y)) \<Longrightarrow> keeps P (case_prod f p)"
  by (cases p) simp

lemma keeps_let [keeps_intros]: "(\<And>x. keeps P (f x)) \<Longrightarrow> keeps P (let x = a in f x)"
  by simp

text \<open>A transaction either commits the effect of its body or changes nothing.\<close>

lemma transaction_cases:
  obtains (failed) e w' where "transaction conv body w = (Inl e, w')" "db w' = db w"
  | (committed) a w1 w2 w' where
      "transaction conv body w = (Inr a, w')" "db w1 = db w"
      "body (db w) w1 = (Inr a, w2)" "db w' = db w2"
proof (cases "select (\<lambda>_. ()) w")
  case (Pair r w1)
  have d1: "db w1 = db w" using Pair by (rule reads_onlyD [OF reads_only_select])
  show thesis
  proof (cases r)
    case (Inl e)
    with Pair d1 show thesis
      by (intro failed [of "conv e" w1]) (simp_all add: transaction_def)
  next
    case (Inr u)
    show thesis
    proof (cases "body (db w1) w1")
      case b: (Pair rb w2)
      show thesis
      proof (cases rb)
        case (Inl e)
        with Pair Inr b d1 show thesis
          by (intro failed [of e "w2\<lparr>db := db w1\<rparr>"]) (simp_all add: transaction_def)
      next
        case a: (Inr a)
        show thesis
        proof (cases "select (\<lambda>_. ()) w2")
          case c: (Pair rc w3)
          have d3: "db w3 = db w2" using c by (rule reads_onlyD [OF reads_only_select])
          show thesis
          proof (cases rc)
            case (Inl e)
            with Pair \<open>r = Inr u\<close> b a c d1 show thesis
              by (intro failed [of "conv e" "w3\<lparr>db := db w1\<rparr>"]) (simp_all add: transaction_def)
          next
            case (Inr v)
            with Pair \<open>r = Inr u\<close> b a c d1 d3 show thesis
              by (intro committed [of a w3 w1 w2]) (simp_all add: transaction_def)
          qed
        qed
      qed
    qed
  qed
qed

lemma transaction_committed:
  "transaction conv body w = (Inr a, w') \<Longrightarrow>
     \<exists>w1 w2. db w1 = db w \<and> body (db w) w1 = (Inr a, w2) \<and> db w' = db w2"
  by (cases rule: transaction_cases [of conv body w]) auto

text \<open>An error is that of \<open>BEGIN\<close> or \<open>COMMIT\<close>, or the one the body ended with.\<close>

lemma transaction_error:
  assumes "transaction conv body w = (Inl e, w')"
  obtains (driver) "e = conv Io"
  | (body) w1 w2 where "db w1 = db w" "body (db w) w1 = (Inl e, w2)"
proof (cases "select (\<lambda>_. ()) w")
  case (Pair r w1)
  have d1: "db w1 = db w" using Pair by (rule reads_onlyD [OF reads_only_select])
  show thesis
    using assms Pair d1 driver body [of w1]
    by (auto simp: transaction_def dest!: select_Inl split: sum.splits prod.splits)
qed

lemma transaction_atomic: "transaction conv body w = (Inl e, w') \<Longrightarrow> db w' = db w"
  by (cases rule: transaction_cases [of conv body w]) auto

lemma keeps_transaction [keeps_intros]:
  assumes "\<And>d. keeps P (body d)"
  shows "keeps P (transaction conv body)"
  unfolding keeps_def
proof (intro allI impI)
  fix w :: world assume p: "P (db w)"
  show "P (db (snd (transaction conv body w)))"
  proof (cases rule: transaction_cases [of conv body w])
    case (failed e w')
    with p show ?thesis by simp
  next
    case (committed a w1 w2 w')
    from p committed(2) have "P (db w1)" by simp
    with assms committed(3) have "P (db w2)" by (blast intro: keepsD)
    with committed show ?thesis by simp
  qed
qed

lemma transaction_no_faults:
  assumes "faults w = []"
  shows "transaction conv body w =
     (case body (db w) w of
        (Inl e, w2) \<Rightarrow> (Inl e, w2\<lparr>db := db w\<rparr>)
      | (Inr a, w2) \<Rightarrow>
          (case select (\<lambda>_. ()) w2 of
             (Inl e, w3) \<Rightarrow> (Inl (conv e), w3\<lparr>db := db w\<rparr>)
           | (Inr _, w3) \<Rightarrow> (Inr a, w3)))"
  using assms by (simp add: transaction_def)

subsection \<open>Admission by key\<close>

text \<open>
  A gate that admits every key once: an insert that does nothing when its key is already there.
  The Stripe event table and the report queue are gates of this kind.
\<close>

fun admit_all :: "('k \<Rightarrow> 'd \<Rightarrow> bool \<times> 'd) \<Rightarrow> 'k list \<Rightarrow> 'd \<Rightarrow> 'k list \<times> 'd" where
  "admit_all admit [] d = ([], d)"
| "admit_all admit (k # ks) d =
     (case admit k d of (b, d1) \<Rightarrow>
        (case admit_all admit ks d1 of (as, d2) \<Rightarrow> (if b then k # as else as, d2)))"

locale once_gate =
  fixes seen :: "'d \<Rightarrow> 'k \<Rightarrow> bool"
    and admit :: "'k \<Rightarrow> 'd \<Rightarrow> bool \<times> 'd"
  assumes admit_iff: "fst (admit k d) \<longleftrightarrow> \<not> seen d k"
    and seen_admit: "seen (snd (admit k d)) j \<longleftrightarrow> j = k \<or> seen d j"
    and admit_noop: "seen d k \<Longrightarrow> snd (admit k d) = d"
begin

lemma admit_twice: "admit k (snd (admit k d)) = (False, snd (admit k d))"
  using admit_iff [of k "snd (admit k d)"] admit_noop [of "snd (admit k d)" k]
  by (simp add: seen_admit prod_eq_iff)

lemma admit_all_Cons:
  "fst (admit_all admit (k # ks) d) =
     (if \<not> seen d k then [k] else []) @ fst (admit_all admit ks (snd (admit k d)))"
  "snd (admit_all admit (k # ks) d) = snd (admit_all admit ks (snd (admit k d)))"
  by (simp_all add: case_prod_beta admit_iff)

lemma seen_admit_all: "seen (snd (admit_all admit ks d)) j \<longleftrightarrow> j \<in> set ks \<or> seen d j"
proof (induction ks arbitrary: d)
  case Nil
  show ?case by simp
next
  case (Cons k ks)
  show ?case unfolding admit_all_Cons Cons.IH seen_admit by auto
qed

lemma admitted_set: "set (fst (admit_all admit ks d)) = {k \<in> set ks. \<not> seen d k}"
proof (induction ks arbitrary: d)
  case Nil
  show ?case by simp
next
  case (Cons k ks)
  show ?case unfolding admit_all_Cons set_append Cons.IH seen_admit by auto
qed

lemma admitted_once: "distinct (fst (admit_all admit ks d))"
proof (induction ks arbitrary: d)
  case Nil
  show ?case by simp
next
  case (Cons k ks)
  have "k \<notin> set (fst (admit_all admit ks (snd (admit k d))))"
    unfolding admitted_set seen_admit by blast
  with Cons.IH show ?case unfolding admit_all_Cons by auto
qed

end

subsection \<open>Tables keyed by a unique column\<close>

text \<open>
  \<open>INSERT .. ON CONFLICT (key) DO UPDATE\<close>: the row of the key afterwards is a function of the
  row before (if any), as long as the statement is accepted, and no other key is touched.
\<close>

fun upsert_all :: "('k \<Rightarrow> 'a \<Rightarrow> 'd \<Rightarrow> 'd) \<Rightarrow> ('k \<times> 'a) list \<Rightarrow> 'd \<Rightarrow> 'd" where
  "upsert_all upsert [] d = d"
| "upsert_all upsert ((k, a) # ops) d = upsert_all upsert ops (upsert k a d)"

locale keyed_table =
  fixes row_of :: "'d \<Rightarrow> 'k \<Rightarrow> 'v option"
    and upsert :: "'k \<Rightarrow> 'a \<Rightarrow> 'd \<Rightarrow> 'd"
    and accepts :: "'k \<Rightarrow> 'a \<Rightarrow> 'd \<Rightarrow> bool"
    and merge :: "'k \<Rightarrow> 'a \<Rightarrow> 'v option \<Rightarrow> 'v"
  assumes row_after: "accepts k a d \<Longrightarrow> row_of (upsert k a d) k = Some (merge k a (row_of d k))"
    and row_other: "j \<noteq> k \<Longrightarrow> row_of (upsert k a d) j = row_of d j"
    and rejected: "\<not> accepts k a d \<Longrightarrow> upsert k a d = d"
begin

lemma upserts_isolated: "j \<notin> fst ` set ops \<Longrightarrow> row_of (upsert_all upsert ops d) j = row_of d j"
proof (induction ops arbitrary: d)
  case Nil
  show ?case by simp
next
  case (Cons op ops)
  obtain k a where "op = (k, a)" by (cases op)
  with Cons show ?case by (simp add: row_other)
qed

text \<open>A row never disappears, and what every merge respects holds between any earlier and any
  later version of it.\<close>

lemma row_evolves:
  assumes "\<And>v. R v v" "\<And>u v w. R u v \<Longrightarrow> R v w \<Longrightarrow> R u w" "\<And>k a v. R v (merge k a (Some v))"
    and "row_of d j = Some v"
  shows "\<exists>v'. row_of (upsert_all upsert ops d) j = Some v' \<and> R v v'"
  using assms(4)
proof (induction ops arbitrary: d v)
  case Nil
  with assms(1) show ?case by simp
next
  case (Cons op ops)
  obtain k a where op: "op = (k, a)" by (cases op)
  have "\<exists>v1. row_of (upsert k a d) j = Some v1 \<and> R v v1"
  proof (cases "j = k \<and> accepts k a d")
    case True
    with Cons.prems row_after [of k a d] assms(3) show ?thesis by auto
  next
    case False
    then have "row_of (upsert k a d) j = row_of d j"
      using row_other [of j k a d] rejected [of k a d] by (cases "j = k") auto
    with Cons.prems assms(1) show ?thesis by simp
  qed
  then obtain v1 where v1: "row_of (upsert k a d) j = Some v1" "R v v1" by blast
  from Cons.IH [OF v1(1)] obtain v2 where
    "row_of (upsert_all upsert ops (upsert k a d)) j = Some v2" "R v1 v2" by blast
  with assms(2) [OF v1(2)] op show ?case by auto
qed

end

subsection \<open>Constraints\<close>

definition user_exists :: "database \<Rightarrow> uuid \<Rightarrow> bool" where
  "user_exists d uid \<longleftrightarrow> (\<exists>u\<in>set (users d). u_id u = uid)"

definition team_exists :: "database \<Rightarrow> uuid \<Rightarrow> bool" where
  "team_exists d tid \<longleftrightarrow> (\<exists>t\<in>set (teams d). t_id t = tid)"

text \<open>A unique index over the rows whose key is not \<open>NULL\<close> (or in the partial index).\<close>

definition unique_on :: "('a \<Rightarrow> 'k option) \<Rightarrow> 'a list \<Rightarrow> bool" where
  "unique_on key rows \<longleftrightarrow> distinct (List.map_filter key rows)"

lemma map_filter_append [simp]:
  "List.map_filter f (xs @ ys) = List.map_filter f xs @ List.map_filter f ys"
  by (simp add: List.map_filter_def)

lemma map_filter_Cons:
  "List.map_filter f (x # xs) =
     (case f x of None \<Rightarrow> List.map_filter f xs | Some y \<Rightarrow> y # List.map_filter f xs)"
  by (simp add: List.map_filter_def split: option.splits)

lemma map_filter_Nil [simp]: "List.map_filter f [] = []"
  by (simp add: List.map_filter_def)

lemma set_map_filter_iff: "k \<in> set (List.map_filter f xs) \<longleftrightarrow> (\<exists>x\<in>set xs. f x = Some k)"
  by (force simp: List.map_filter_def)

lemma unique_on_Nil [simp]: "unique_on key []"
  by (simp add: unique_on_def List.map_filter_def)

lemma unique_on_snoc:
  "unique_on key (rows @ [r]) \<longleftrightarrow>
     unique_on key rows \<and> (\<forall>k. key r = Some k \<longrightarrow> (\<forall>x\<in>set rows. key x \<noteq> Some k))"
  by (auto simp: unique_on_def map_filter_Cons set_map_filter_iff map_filter_Nil
           split: option.splits)

lemma unique_on_map_same:
  assumes "\<And>x. x \<in> set rows \<Longrightarrow> key (f x) = key x"
  shows "unique_on key (map f rows) = unique_on key rows"
proof -
  have "List.map_filter key (map f rows) = List.map_filter key rows"
    using assms by (induction rows) (auto simp: map_filter_Cons List.map_filter_def)
  then show ?thesis by (simp add: unique_on_def)
qed

lemma filter_key_le_1: "distinct (map f xs) \<Longrightarrow> length (filter (\<lambda>x. f x = k) xs) \<le> 1"
proof (induction xs)
  case Nil
  then show ?case by simp
next
  case (Cons x xs)
  then have "\<forall>y\<in>set xs. f y \<noteq> f x" by (simp add: image_iff eq_commute)
  then have "filter (\<lambda>y. f y = f x) xs = []" by (simp add: filter_empty_conv)
  with Cons show ?case by (cases "f x = k") simp_all
qed

lemma unique_onD:
  assumes "unique_on key rows" "x \<in> set rows" "y \<in> set rows" "key x = Some k" "key y = Some k"
  shows "x = y"
  using assms
proof (induction rows)
  case Nil
  then show ?case by simp
next
  case (Cons r rows)
  then have "unique_on key rows"
    by (auto simp: unique_on_def map_filter_Cons split: option.splits)
  moreover from Cons.prems have "key r = Some k \<Longrightarrow> \<not> (\<exists>z\<in>set rows. key z = Some k)"
    by (auto simp: unique_on_def map_filter_Cons set_map_filter_iff split: option.splits)
  ultimately show ?case using Cons by auto
qed

lemma find_unique_key:
  assumes "unique_on (\<lambda>x. Some (key x)) rows" "x \<in> set rows"
  shows "find (\<lambda>y. key y = key x) rows = Some x"
proof (cases "find (\<lambda>y. key y = key x) rows")
  case None
  with assms(2) have False by (auto simp: find_None_iff)
  then show ?thesis ..
next
  case (Some y)
  then have "key y = key x" "y \<in> set rows" by (auto dest: find_Some_iff_set)
  with assms have "y = x" by (intro unique_onD [OF assms(1), where k = "key x"]) simp_all
  with Some show ?thesis by simp
qed

end
