(* ===== verification/Config.thy ===== *)
theory Config
  imports Rust_Prelude
begin

text \<open>
  Configuration (\<^verbatim>\<open>src/config.rs\<close>): from the raw environment to the validated configuration or the
  error that stops the process.  Reading the environment (figment, dotenvy) and the base64
  decoder are outside; the raw record and \<open>base64\<close> are arguments.  The sampling rate of Sentry
  (a float, not used by the service itself) is left out.
\<close>

subsection \<open>Data\<close>

datatype app_env = Development | Staging | Production | Test

definition is_production :: "app_env \<Rightarrow> bool" where
  "is_production e \<longleftrightarrow> e = Production"

definition is_test :: "app_env \<Rightarrow> bool" where
  "is_test e \<longleftrightarrow> e = Test"

definition parse_app_env :: "string \<Rightarrow> string + app_env" where
  "parse_app_env s =
     (let t = to_ascii_lowercase (trim s) in
      if t = ''development'' \<or> t = ''dev'' then Inr Development
      else if t = ''staging'' \<or> t = ''stage'' then Inr Staging
      else if t = ''production'' \<or> t = ''prod'' then Inr Production
      else if t = ''test'' then Inr Test
      else Inl (''unknown APP_ENV value: '' @ t))"

datatype log_format = Pretty | Json

definition parse_log_format :: "string \<Rightarrow> string + log_format" where
  "parse_log_format s =
     (let t = to_ascii_lowercase (trim s) in
      if t = ''pretty'' then Inr Pretty
      else if t = ''json'' then Inr Json
      else Inl (''unknown LOG_FORMAT value: '' @ t))"

record sentry_config =
  dsn :: "string option"
  sentry_environment :: string

record snaptrade_config =
  client_id :: string
  consumer_key :: string
  api_base :: string
  redirect_uri :: string
  broker_secret_encryption_key :: "byte list"
  state_secret :: string

record billing_prices =
  bp_basic_monthly :: string
  bp_basic_yearly :: string
  bp_pro_monthly :: string
  bp_pro_yearly :: string
  bp_enterprise_monthly :: string
  bp_enterprise_yearly :: string

record billing_config =
  stripe_secret_key :: string
  stripe_webhook_secret :: string
  billing_prices_of :: billing_prices
  return_url :: string
  openai_api_key :: "string option"

record config =
  app_host :: string
  app_port :: nat
  cfg_app_env :: app_env
  log_level :: string
  cfg_log_format :: log_format
  database_url :: string
  database_max_connections :: nat
  supabase_url :: string
  supabase_jwt_audience :: string
  supabase_service_role_key :: "string option"
  cors_allowed_origins :: "string list"
  rate_limit_per_minute :: nat
  sentry :: sentry_config
  test_jwt_secret :: "string option"
  snaptrade :: snaptrade_config
  cfg_billing :: "billing_config option"

datatype config_error =
    Missing string
  | Invalid string string
  | CorsWildcardWithAuth
  | BadEncryptionKeyLength nat
  | StateSecretTooShort nat

record raw_config =
  raw_app_host :: "string option"
  raw_app_port :: "nat option"
  raw_app_env :: "string option"
  raw_log_level :: "string option"
  raw_log_format :: "string option"
  raw_database_url :: string
  raw_database_max_connections :: "nat option"
  raw_supabase_url :: string
  raw_supabase_jwt_audience :: "string option"
  raw_supabase_service_role_key :: "string option"
  raw_mizan_cors_allowed_origins :: "string option"
  raw_rate_limit_per_minute :: "nat option"
  raw_sentry_dsn :: "string option"
  raw_sentry_environment :: "string option"
  raw_mizan_test_jwt_secret :: "string option"
  raw_snaptrade_client_id :: "string option"
  raw_snaptrade_consumer_key :: "string option"
  raw_snaptrade_api_base :: "string option"
  raw_snaptrade_redirect_uri :: "string option"
  raw_mizan_broker_secret_encryption_key :: "string option"
  raw_mizan_snaptrade_state_secret :: "string option"
  raw_stripe_secret_key :: "string option"
  raw_stripe_webhook_secret :: "string option"
  raw_stripe_price_basic_monthly :: "string option"
  raw_stripe_price_basic_yearly :: "string option"
  raw_stripe_price_pro_monthly :: "string option"
  raw_stripe_price_pro_yearly :: "string option"
  raw_stripe_price_enterprise_monthly :: "string option"
  raw_stripe_price_enterprise_yearly :: "string option"
  raw_mizan_billing_return_url :: "string option"
  raw_openai_api_key :: "string option"

subsection \<open>Helpers\<close>

definition unwrap_or :: "'a \<Rightarrow> 'a option \<Rightarrow> 'a" where
  "unwrap_or d x = (case x of None \<Rightarrow> d | Some a \<Rightarrow> a)"

text \<open>\<open>opt.filter(|s| !s.trim().is_empty())\<close>, and \<open>opt.map(str::trim).filter(|s| !s.is_empty())\<close>.\<close>

definition non_blank :: "string option \<Rightarrow> string option" where
  "non_blank x = (case x of None \<Rightarrow> None | Some s \<Rightarrow> if trim s = [] then None else Some s)"

definition trimmed :: "string option \<Rightarrow> string option" where
  "trimmed x = (case x of None \<Rightarrow> None | Some s \<Rightarrow> if trim s = [] then None else Some (trim s))"

definition pick_required :: "string \<Rightarrow> string option \<Rightarrow> bool \<Rightarrow> config_error + string option" where
  "pick_required var raw required =
     (case trimmed raw of
        Some v \<Rightarrow> Inr (Some v)
      | None \<Rightarrow> if required then Inl (Missing var) else Inr None)"

definition trim_required :: "string \<Rightarrow> string \<Rightarrow> config_error + string" where
  "trim_required v var = (let t = trim v in if t = [] then Inl (Missing var) else Inr t)"

definition parse_required ::
  "(string \<Rightarrow> string + 'a) \<Rightarrow> string \<Rightarrow> string option \<Rightarrow> string option \<Rightarrow> config_error + 'a" where
  "parse_required from_str var raw dflt =
     (case non_blank raw of
        Some v \<Rightarrow> map_err (Invalid var) (from_str v)
      | None \<Rightarrow> (case dflt of None \<Rightarrow> Inl (Missing var) | Some v \<Rightarrow> map_err (Invalid var) (from_str v)))"

definition parse_optional ::
  "(string \<Rightarrow> string + 'a) \<Rightarrow> string \<Rightarrow> string option \<Rightarrow> 'a \<Rightarrow> config_error + 'a" where
  "parse_optional from_str var raw dflt =
     (case non_blank raw of
        Some v \<Rightarrow> map_err (Invalid var) (from_str v)
      | None \<Rightarrow> Inr dflt)"

definition parse_cors :: "string option \<Rightarrow> bool \<Rightarrow> config_error + string list" where
  "parse_cors raw reject_wildcard =
     (let origins = filter (\<lambda>s. s \<noteq> []) (map trim (split_char CHR '','' (unwrap_or [] raw))) in
      if reject_wildcard \<and> ''*'' \<in> set origins then Inl CorsWildcardWithAuth else Inr origins)"

subsection \<open>Sections\<close>

definition decode_encryption_key ::
  "(string \<Rightarrow> string + byte list) \<Rightarrow> string option \<Rightarrow> config_error + byte list" where
  "decode_encryption_key base64 b64 =
     (case b64 of
        None \<Rightarrow> Inr []
      | Some s \<Rightarrow>
          and_then (map_err (\<lambda>e. Invalid ''MIZAN_BROKER_SECRET_ENCRYPTION_KEY'' (''base64 decode: '' @ e))
                      (base64 (trim s))) (\<lambda>bytes.
            if length bytes \<noteq> 32 then Inl (BadEncryptionKeyLength (length bytes)) else Inr bytes))"

definition decode_state_secret ::
  "(string \<Rightarrow> string + byte list) \<Rightarrow> string option \<Rightarrow> config_error + string" where
  "decode_state_secret base64 b64 =
     (case b64 of
        None \<Rightarrow> Inr []
      | Some s \<Rightarrow>
          and_then (map_err (\<lambda>e. Invalid ''MIZAN_SNAPTRADE_STATE_SECRET'' (''base64 decode: '' @ e))
                      (base64 (trim s))) (\<lambda>bytes.
            if length bytes < 32 then Inl (StateSecretTooShort (length bytes)) else Inr s))"

definition build_snaptrade_config ::
  "(string \<Rightarrow> string + byte list) \<Rightarrow> raw_config \<Rightarrow> app_env \<Rightarrow> config_error + snaptrade_config" where
  "build_snaptrade_config base64 raw env =
     (let required = \<not> is_test env;
          base = unwrap_or ''https://api.snaptrade.com/api/v1'' (non_blank (raw_snaptrade_api_base raw)) in
      and_then (pick_required ''SNAPTRADE_CLIENT_ID'' (raw_snaptrade_client_id raw) required) (\<lambda>cid.
      and_then (pick_required ''SNAPTRADE_CONSUMER_KEY'' (raw_snaptrade_consumer_key raw) required) (\<lambda>key.
      and_then (pick_required ''SNAPTRADE_REDIRECT_URI'' (raw_snaptrade_redirect_uri raw) required) (\<lambda>uri.
      and_then (pick_required ''MIZAN_BROKER_SECRET_ENCRYPTION_KEY''
                  (raw_mizan_broker_secret_encryption_key raw) required) (\<lambda>enc_b64.
      and_then (decode_encryption_key base64 enc_b64) (\<lambda>enc.
      and_then (pick_required ''MIZAN_SNAPTRADE_STATE_SECRET''
                  (raw_mizan_snaptrade_state_secret raw) required) (\<lambda>state_b64.
      and_then (decode_state_secret base64 state_b64) (\<lambda>st.
        Inr \<lparr>client_id = unwrap_or [] cid, consumer_key = unwrap_or [] key, api_base = base,
             redirect_uri = unwrap_or [] uri, broker_secret_encryption_key = enc,
             state_secret = st\<rparr>))))))))"

definition build_billing_config :: "raw_config \<Rightarrow> billing_config option" where
  "build_billing_config raw =
     (case (trimmed (raw_stripe_secret_key raw), trimmed (raw_stripe_webhook_secret raw)) of
        (Some secret, Some webhook) \<Rightarrow>
          Some \<lparr>stripe_secret_key = secret, stripe_webhook_secret = webhook,
            billing_prices_of =
              \<lparr>bp_basic_monthly = unwrap_or [] (raw_stripe_price_basic_monthly raw),
               bp_basic_yearly = unwrap_or [] (raw_stripe_price_basic_yearly raw),
               bp_pro_monthly = unwrap_or [] (raw_stripe_price_pro_monthly raw),
               bp_pro_yearly = unwrap_or [] (raw_stripe_price_pro_yearly raw),
               bp_enterprise_monthly = unwrap_or [] (raw_stripe_price_enterprise_monthly raw),
               bp_enterprise_yearly = unwrap_or [] (raw_stripe_price_enterprise_yearly raw)\<rparr>,
            return_url = unwrap_or ''https://mizan.app/billing/return''
              (trimmed (raw_mizan_billing_return_url raw)),
            openai_api_key = trimmed (raw_openai_api_key raw)\<rparr>
      | _ \<Rightarrow> None)"

fun env_name :: "app_env \<Rightarrow> string" where
  "env_name Production = ''production''"
| "env_name Staging = ''staging''"
| "env_name Development = ''development''"
| "env_name Test = ''test''"

definition assemble_config ::
  "raw_config \<Rightarrow> app_env \<Rightarrow> log_format \<Rightarrow> string \<Rightarrow> string \<Rightarrow> string list \<Rightarrow> snaptrade_config \<Rightarrow> config" where
  "assemble_config raw env fmt db_url sb_url origins snap =
     \<lparr>app_host = unwrap_or ''0.0.0.0'' (raw_app_host raw),
      app_port = unwrap_or 8080 (raw_app_port raw),
      cfg_app_env = env,
      log_level = unwrap_or ''info'' (raw_log_level raw),
      cfg_log_format = fmt,
      database_url = db_url,
      database_max_connections = max (unwrap_or 10 (raw_database_max_connections raw)) 1,
      supabase_url = sb_url,
      supabase_jwt_audience = unwrap_or ''authenticated'' (raw_supabase_jwt_audience raw),
      supabase_service_role_key = non_blank (raw_supabase_service_role_key raw),
      cors_allowed_origins = origins,
      rate_limit_per_minute = max (unwrap_or 100 (raw_rate_limit_per_minute raw)) 1,
      sentry = \<lparr>dsn = non_blank (raw_sentry_dsn raw),
                sentry_environment = unwrap_or (env_name env) (raw_sentry_environment raw)\<rparr>,
      test_jwt_secret =
        (if is_production env then None else non_blank (raw_mizan_test_jwt_secret raw)),
      snaptrade = snap,
      cfg_billing = build_billing_config raw\<rparr>"

definition load_config :: "(string \<Rightarrow> string + byte list) \<Rightarrow> raw_config \<Rightarrow> config_error + config" where
  "load_config base64 raw =
     and_then (parse_required parse_app_env ''APP_ENV'' (raw_app_env raw) (Some ''development'')) (\<lambda>env.
     and_then (parse_optional parse_log_format ''LOG_FORMAT'' (raw_log_format raw)
        (if env = Production \<or> env = Staging then Json else Pretty)) (\<lambda>fmt.
     and_then (trim_required (raw_database_url raw) ''DATABASE_URL'') (\<lambda>db_url.
     and_then (trim_required (raw_supabase_url raw) ''SUPABASE_URL'') (\<lambda>sb_url.
     if \<not> starts_with ''https://'' sb_url \<and> \<not> is_test env
     then Inl (Invalid ''SUPABASE_URL'' ''must use https:// scheme outside of test env'')
     else
     and_then (parse_cors (raw_mizan_cors_allowed_origins raw) (\<not> is_test env)) (\<lambda>origins.
     and_then (build_snaptrade_config base64 raw env) (\<lambda>snap.
       Inr (assemble_config raw env fmt db_url sb_url origins snap)))))))"

definition jwks_url :: "config \<Rightarrow> string" where
  "jwks_url c = trim_end_matches CHR ''/'' (supabase_url c) @ ''/auth/v1/.well-known/jwks.json''"

definition supabase_jwt_issuer :: "config \<Rightarrow> string" where
  "supabase_jwt_issuer c = trim_end_matches CHR ''/'' (supabase_url c) @ ''/auth/v1''"

subsection \<open>Lemmas\<close>

lemma trimmed_Some: "trimmed x = Some v \<Longrightarrow> v \<noteq> []"
  by (auto simp: trimmed_def split: option.splits if_splits)

lemma pick_required_Inr: "pick_required var raw True = Inr x \<Longrightarrow> \<exists>v. x = Some v \<and> v \<noteq> []"
  by (cases "trimmed raw") (auto simp: pick_required_def dest: trimmed_Some)

lemma decode_encryption_key_Inr:
  "decode_encryption_key base64 (Some s) = Inr k \<Longrightarrow> length k = 32"
  by (auto simp: decode_encryption_key_def and_then_Inr_iff split: if_splits)

lemma decode_state_secret_Inr:
  "decode_state_secret base64 (Some s) = Inr k \<Longrightarrow> k = s \<and> (\<exists>b. base64 (trim s) = Inr b \<and> 32 \<le> length b)"
  by (auto simp: decode_state_secret_def and_then_Inr_iff split: if_splits)

lemma build_snaptrade_config_Inr:
  assumes "build_snaptrade_config base64 raw env = Inr s" "env \<noteq> Test"
  shows "client_id s \<noteq> [] \<and> consumer_key s \<noteq> [] \<and> redirect_uri s \<noteq> [] \<and>
     length (broker_secret_encryption_key s) = 32 \<and>
     (\<exists>b. base64 (trim (state_secret s)) = Inr b \<and> 32 \<le> length b)"
  using assms
  by (fastforce simp: build_snaptrade_config_def Let_def and_then_Inr_iff is_test_def unwrap_or_def
      dest: pick_required_Inr decode_encryption_key_Inr decode_state_secret_Inr)

lemma parse_cors_strict: "parse_cors raw True = Inr os \<Longrightarrow> ''*'' \<notin> set os \<and> [] \<notin> set os"
  by (auto simp: parse_cors_def Let_def split: if_splits)

lemma load_config_Inr:
  assumes "load_config base64 raw = Inr c"
  obtains env fmt db_url sb_url origins snap where
    "c = assemble_config raw env fmt db_url sb_url origins snap"
    "env = Test \<or> starts_with ''https://'' sb_url"
    "parse_cors (raw_mizan_cors_allowed_origins raw) (env \<noteq> Test) = Inr origins"
    "build_snaptrade_config base64 raw env = Inr snap"
  using assms
  by (auto simp: load_config_def and_then_Inr_iff is_test_def split: if_splits)

lemmas assemble_fields = assemble_config_def is_production_def

subsection \<open>Properties\<close>

text \<open>C22: a configuration that loads is safe to serve with.  Outside of the test environment,
  whatever the environment variables, the Supabase URL uses https, no CORS origin is the wildcard
  or empty, the SnapTrade credentials are present, the encryption key has exactly 32 bytes and
  the state secret decodes to at least 32; the pool and the rate limit are positive everywhere,
  and in production the test secret of the token verifier is absent.\<close>

theorem load_config_safe:
  assumes "load_config base64 raw = Inr c"
  shows "(cfg_app_env c \<noteq> Test \<longrightarrow>
       starts_with ''https://'' (supabase_url c) \<and>
       ''*'' \<notin> set (cors_allowed_origins c) \<and> [] \<notin> set (cors_allowed_origins c) \<and>
       client_id (snaptrade c) \<noteq> [] \<and> consumer_key (snaptrade c) \<noteq> [] \<and>
       length (broker_secret_encryption_key (snaptrade c)) = 32 \<and>
       (\<exists>b. base64 (trim (state_secret (snaptrade c))) = Inr b \<and> 32 \<le> length b)) \<and>
     1 \<le> database_max_connections c \<and> 1 \<le> rate_limit_per_minute c \<and>
     (cfg_app_env c = Production \<longrightarrow> test_jwt_secret c = None)"
proof -
  from assms obtain env fmt db_url sb_url origins snap where
    c: "c = assemble_config raw env fmt db_url sb_url origins snap"
    and p: "env = Test \<or> starts_with ''https://'' sb_url"
      "parse_cors (raw_mizan_cors_allowed_origins raw) (env \<noteq> Test) = Inr origins"
      "build_snaptrade_config base64 raw env = Inr snap"
    by (rule load_config_Inr)
  show ?thesis
  proof (cases "env = Test")
    case True
    with c show ?thesis by (simp add: assemble_fields)
  next
    case False
    with p(2) have "''*'' \<notin> set origins \<and> [] \<notin> set origins" by (simp add: parse_cors_strict)
    with False c p(1) build_snaptrade_config_Inr [OF p(3) False] show ?thesis
      by (simp add: assemble_fields)
  qed
qed

definition blank_raw :: raw_config where
  "blank_raw =
     \<lparr>raw_app_host = None, raw_app_port = None, raw_app_env = None, raw_log_level = None,
      raw_log_format = None, raw_database_url = ''postgres://x'', raw_database_max_connections = Some 0,
      raw_supabase_url = ''https://p.supabase.co/'', raw_supabase_jwt_audience = None,
      raw_supabase_service_role_key = None, raw_mizan_cors_allowed_origins = Some ''https://a, https://b'',
      raw_rate_limit_per_minute = None, raw_sentry_dsn = None, raw_sentry_environment = None,
      raw_mizan_test_jwt_secret = Some ''s3cret'', raw_snaptrade_client_id = Some ''cid'',
      raw_snaptrade_consumer_key = Some ''key'', raw_snaptrade_api_base = None,
      raw_snaptrade_redirect_uri = Some ''https://cb'',
      raw_mizan_broker_secret_encryption_key = Some ''k'', raw_mizan_snaptrade_state_secret = Some ''s'',
      raw_stripe_secret_key = None, raw_stripe_webhook_secret = None,
      raw_stripe_price_basic_monthly = None, raw_stripe_price_basic_yearly = None,
      raw_stripe_price_pro_monthly = None, raw_stripe_price_pro_yearly = None,
      raw_stripe_price_enterprise_monthly = None, raw_stripe_price_enterprise_yearly = None,
      raw_mizan_billing_return_url = None, raw_openai_api_key = None\<rparr>"

definition sample_base64 :: "string \<Rightarrow> string + byte list" where
  "sample_base64 s = Inr (replicate 32 7)"

lemma sample_config_loads:
  "\<exists>c. load_config sample_base64 (blank_raw\<lparr>raw_app_env := Some ''prod''\<rparr>) = Inr c \<and>
     cfg_app_env c = Production \<and> broker_secret_encryption_key (snaptrade c) = replicate 32 7"
  by (simp add: load_config_def assemble_fields blank_raw_def parse_required_def parse_optional_def non_blank_def
      parse_app_env_def trim_required_def parse_cors_def unwrap_or_def build_snaptrade_config_def
      pick_required_def trimmed_def decode_encryption_key_def decode_state_secret_def
      sample_base64_def is_test_def is_production_def result_simps str_simps)

theorem load_config_safe_witness:
  "\<exists>c. load_config sample_base64 (blank_raw\<lparr>raw_app_env := Some ''prod''\<rparr>) = Inr c \<and>
     test_jwt_secret c = None \<and> length (broker_secret_encryption_key (snaptrade c)) = 32"
proof -
  obtain c where c: "load_config sample_base64 (blank_raw\<lparr>raw_app_env := Some ''prod''\<rparr>) = Inr c"
    "cfg_app_env c = Production" using sample_config_loads by blast
  with load_config_safe [OF c(1)] show ?thesis by auto
qed

end
