(* ===== verification/Machines.thy ===== *)
theory Machines
  imports Main
begin

text \<open>
  Transition systems: the states a step relation reaches from the initial ones, invariants, and
  relations between an earlier and a later state.  The components state the steps they can take
  as a relation and interpret the locales below on it.
\<close>

inductive reachable :: "('s \<Rightarrow> bool) \<Rightarrow> ('s \<Rightarrow> 's \<Rightarrow> bool) \<Rightarrow> 's \<Rightarrow> bool" for init step where
  reach_init: "init s \<Longrightarrow> reachable init step s"
| reach_step: "reachable init step s \<Longrightarrow> step s t \<Longrightarrow> reachable init step t"

inductive steps :: "('s \<Rightarrow> 's \<Rightarrow> bool) \<Rightarrow> 's \<Rightarrow> 's \<Rightarrow> bool" for step where
  steps_refl: "steps step s s"
| steps_step: "steps step s t \<Longrightarrow> step t u \<Longrightarrow> steps step s u"

lemma reachable_steps: "reachable init step s \<Longrightarrow> steps step s t \<Longrightarrow> reachable init step t"
  by (rotate_tac, induction rule: steps.induct) (auto intro: reachable.intros)

lemma steps_trans: "steps step t u \<Longrightarrow> steps step s t \<Longrightarrow> steps step s u"
  by (induction rule: steps.induct) (auto intro: steps.intros)

text \<open>An inductive invariant.\<close>

locale invariant_system =
  fixes init :: "'s \<Rightarrow> bool" and step :: "'s \<Rightarrow> 's \<Rightarrow> bool" and inv :: "'s \<Rightarrow> bool"
  assumes inv_init: "init s \<Longrightarrow> inv s"
    and inv_step: "inv s \<Longrightarrow> step s t \<Longrightarrow> inv t"
begin

lemma reachable_inv: "reachable init step s \<Longrightarrow> inv s"
  by (induction rule: reachable.induct) (auto intro: inv_init inv_step)

lemma steps_inv: "steps step s t \<Longrightarrow> inv s \<Longrightarrow> inv t"
  by (induction rule: steps.induct) (auto intro: inv_step)

end

text \<open>A reflexive and transitive relation that every step of an invariant state respects: what
  only ever grows, or never changes again.\<close>

locale progress_system = invariant_system +
  fixes rel :: "'s \<Rightarrow> 's \<Rightarrow> bool"
  assumes rel_refl: "rel s s"
    and rel_trans: "rel s t \<Longrightarrow> rel t u \<Longrightarrow> rel s u"
    and rel_step: "inv s \<Longrightarrow> step s t \<Longrightarrow> rel s t"
begin

lemma steps_rel: "steps step s t \<Longrightarrow> inv s \<Longrightarrow> rel s t"
proof (induction rule: steps.induct)
  case (steps_refl s)
  show ?case by (rule rel_refl)
next
  case (steps_step s t u)
  then have "inv t" by (blast intro: steps_inv)
  with steps_step show ?case by (blast intro: rel_trans rel_step)
qed

lemma reachable_rel: "reachable init step s \<Longrightarrow> steps step s t \<Longrightarrow> rel s t"
  by (blast intro: steps_rel reachable_inv)

end

end
