(* ===== verification/Auth.thy ===== *)
theory Auth
  imports Database Config Machines
begin

text \<open>
  Authentication: the cache of signing keys (\<^verbatim>\<open>src/auth/jwks.rs\<close>), the verification of Supabase
  tokens (\<^verbatim>\<open>src/auth/supabase_jwt.rs\<close>), the bearer extractor (\<^verbatim>\<open>src/auth/extractor.rs\<close>) and the
  upsert of the local user (\<^verbatim>\<open>src/auth/upsert.rs\<close>).  The jsonwebtoken package (header and token
  decoding, key construction), base64, UUID parsing and the HTTP fetch are fields of
  \<open>auth_env\<close>; \<open>'k\<close> is its type of decoding keys.
\<close>

subsection \<open>Signing keys\<close>

datatype algorithm =
    HS256 | HS384 | HS512 | RS256 | RS384 | RS512 | ES256 | ES384 | PS256 | PS384 | PS512 | EdDSA

definition parse_algorithm :: "string \<Rightarrow> string + algorithm" where
  "parse_algorithm alg =
     (if alg = ''HS256'' then Inr HS256
      else if alg = ''HS384'' then Inr HS384
      else if alg = ''HS512'' then Inr HS512
      else if alg = ''RS256'' then Inr RS256
      else if alg = ''RS384'' then Inr RS384
      else if alg = ''RS512'' then Inr RS512
      else if alg = ''ES256'' then Inr ES256
      else if alg = ''ES384'' then Inr ES384
      else if alg = ''PS256'' then Inr PS256
      else if alg = ''PS384'' then Inr PS384
      else if alg = ''PS512'' then Inr PS512
      else if alg = ''EdDSA'' then Inr EdDSA
      else Inl (''unsupported alg: '' @ alg))"

definition default_alg_for_kty :: "string \<Rightarrow> string" where
  "default_alg_for_kty kty =
     (if kty = ''RSA'' then ''RS256'' else if kty = ''EC'' then ''ES256''
      else if kty = ''oct'' then ''HS256'' else ''RS256'')"

record raw_jwk =
  jwk_kty :: string
  jwk_alg :: "string option"
  jwk_kid :: "string option"
  jwk_n :: "string option"
  jwk_e :: "string option"
  jwk_crv :: "string option"
  jwk_x :: "string option"
  jwk_y :: "string option"
  jwk_k :: "string option"

record 'k jwk_entry =
  kid :: "string option"
  entry_algorithm :: algorithm
  decoding_key :: 'k

record claims =
  cl_sub :: string
  cl_email :: "string option"
  cl_iss :: string
  cl_aud :: string
  cl_exp :: nat
  cl_user_metadata :: json
  cl_app_metadata :: json
  cl_role :: "string option"

record validation =
  v_algorithm :: algorithm
  v_issuers :: "string list"
  v_audience :: "string list"
  v_leeway :: nat
  v_validate_exp :: bool
  v_validate_nbf :: bool

record 'k auth_env =
  from_rsa_components :: "string \<Rightarrow> string \<Rightarrow> string + 'k"
  from_ec_components :: "string \<Rightarrow> string \<Rightarrow> string + 'k"
  from_secret :: "byte list \<Rightarrow> 'k"
  base64_url_decode :: "string \<Rightarrow> string + byte list"
  string_bytes :: "string \<Rightarrow> byte list"
  decode_header :: "string \<Rightarrow> string + algorithm \<times> string option"
  decode_token :: "string \<Rightarrow> 'k \<Rightarrow> validation \<Rightarrow> string + claims"
  parse_uuid :: "string \<Rightarrow> uuid option"

definition jwk_key :: "'k auth_env \<Rightarrow> raw_jwk \<Rightarrow> string + 'k" where
  "jwk_key x jwk =
     (if jwk_kty jwk = ''RSA'' then
        and_then (ok_or ''RSA jwk missing n'' (jwk_n jwk)) (\<lambda>n.
        and_then (ok_or ''RSA jwk missing e'' (jwk_e jwk)) (\<lambda>e.
          map_err (\<lambda>m. ''invalid RSA jwk: '' @ m) (from_rsa_components x n e)))
      else if jwk_kty jwk = ''EC'' then
        and_then (ok_or ''EC jwk missing x'' (jwk_x jwk)) (\<lambda>xc.
        and_then (ok_or ''EC jwk missing y'' (jwk_y jwk)) (\<lambda>yc.
        and_then (ok_or ''EC jwk missing crv'' (jwk_crv jwk)) (\<lambda>_.
          map_err (\<lambda>m. ''invalid EC jwk: '' @ m) (from_ec_components x xc yc))))
      else if jwk_kty jwk = ''oct'' then
        and_then (ok_or ''oct jwk missing k'' (jwk_k jwk)) (\<lambda>k.
        and_then (map_err (\<lambda>m. ''base64 decode: '' @ m) (base64_url_decode x k)) (\<lambda>raw.
          Inr (from_secret x raw)))
      else Inl (''unsupported kty: '' @ jwk_kty jwk))"

definition jwk_to_entry :: "'k auth_env \<Rightarrow> raw_jwk \<Rightarrow> string + 'k jwk_entry" where
  "jwk_to_entry x jwk =
     and_then (parse_algorithm (unwrap_or (default_alg_for_kty (jwk_kty jwk)) (jwk_alg jwk))) (\<lambda>a.
     and_then (jwk_key x jwk) (\<lambda>k.
       Inr \<lparr>kid = jwk_kid jwk, entry_algorithm = a, decoding_key = k\<rparr>))"

subsection \<open>The key cache\<close>

record 'k cache_state =
  keys :: "'k jwk_entry list"
  fetched_at :: "instant option"
  last_error :: "string option"

definition empty_cache :: "'k cache_state" where
  "empty_cache = \<lparr>keys = [], fetched_at = None, last_error = None\<rparr>"

datatype jwks_error = Http string | Empty

text \<open>\<open>refresh\<close>: \<open>reply\<close> is what the key endpoint answered.\<close>

definition refresh ::
  "'k auth_env \<Rightarrow> instant \<Rightarrow> string + raw_jwk list \<Rightarrow> 'k cache_state \<Rightarrow> (jwks_error + unit) \<times> 'k cache_state"
where
  "refresh x now reply st =
     (case reply of
        Inl err \<Rightarrow> (Inl (Http err), st\<lparr>last_error := Some err\<rparr>)
      | Inr jwks \<Rightarrow>
          (let ks = List.map_filter (\<lambda>j. result_ok (jwk_to_entry x j)) jwks in
           if ks = [] then (Inl Empty, st\<lparr>last_error := Some ''empty JWKS document''\<rparr>)
           else (Inr (), \<lparr>keys = ks, fetched_at = Some now, last_error = None\<rparr>)))"

definition find_entry :: "string option \<Rightarrow> 'k cache_state \<Rightarrow> 'k jwk_entry option" where
  "find_entry wanted st =
     (case wanted of
        Some want \<Rightarrow> find (\<lambda>k. kid k = Some want) (keys st)
      | None \<Rightarrow> (case keys st of [] \<Rightarrow> None | k # _ \<Rightarrow> Some k))"

definition find_key ::
  "'k auth_env \<Rightarrow> instant \<Rightarrow> string + raw_jwk list \<Rightarrow> string option \<Rightarrow> 'k cache_state \<Rightarrow>
   (app_error + algorithm \<times> 'k) \<times> 'k cache_state" where
  "find_key x now reply wanted st =
     (let st' = (if keys st = [] then snd (refresh x now reply st) else st) in
      (case find_entry wanted st' of
         Some e \<Rightarrow> Inr (entry_algorithm e, decoding_key e)
       | None \<Rightarrow> Inl (unauthorized ''unknown signing key''), st'))"

definition STALE_AFTER :: int where
  "STALE_AFTER = 60 * 60 * 24 * 1000000000"

record jwks_snapshot =
  key_count :: nat
  snap_fetched_at :: "instant option"
  stale :: bool
  snap_last_error :: "string option"

definition snapshot :: "instant \<Rightarrow> 'k cache_state \<Rightarrow> jwks_snapshot" where
  "snapshot now st =
     \<lparr>key_count = length (keys st), snap_fetched_at = fetched_at st,
      stale = (case fetched_at st of Some t \<Rightarrow> STALE_AFTER < now - t | None \<Rightarrow> True),
      snap_last_error = last_error st\<rparr>"

subsection \<open>Claims\<close>

definition or_else :: "'a option \<Rightarrow> 'a option \<Rightarrow> 'a option" where
  "or_else a b = (case a of None \<Rightarrow> b | Some v \<Rightarrow> Some v)"

definition claims_display_name :: "claims \<Rightarrow> string option" where
  "claims_display_name c =
     Option.bind (or_else (json_get ''display_name'' (cl_user_metadata c))
        (or_else (json_get ''full_name'' (cl_user_metadata c)) (json_get ''name'' (cl_user_metadata c))))
       json_as_str"

definition claims_avatar_url :: "claims \<Rightarrow> string option" where
  "claims_avatar_url c =
     Option.bind (or_else (json_get ''avatar_url'' (cl_user_metadata c))
        (json_get ''picture'' (cl_user_metadata c))) json_as_str"

definition email_required :: "claims \<Rightarrow> app_error + string" where
  "email_required c = ok_or (unauthorized ''token missing email claim; cannot link account'') (cl_email c)"

subsection \<open>Verification\<close>

definition build_validation :: "config \<Rightarrow> algorithm \<Rightarrow> validation" where
  "build_validation c a =
     \<lparr>v_algorithm = a, v_issuers = [supabase_jwt_issuer c], v_audience = [supabase_jwt_audience c],
      v_leeway = 60, v_validate_exp = True, v_validate_nbf = True\<rparr>"

definition test_validation :: "config \<Rightarrow> validation" where
  "test_validation c =
     (build_validation c HS256)\<lparr>v_issuers := [supabase_jwt_issuer c, ''mizan-test'']\<rparr>"

definition verify_token ::
  "'k auth_env \<Rightarrow> config \<Rightarrow> instant \<Rightarrow> string + raw_jwk list \<Rightarrow> string \<Rightarrow> 'k cache_state \<Rightarrow>
   (app_error + claims) \<times> 'k cache_state" where
  "verify_token x c now reply tok0 st =
     (let tok = trim tok0 in
      if tok = [] then (Inl (unauthorized ''empty bearer token''), st)
      else
        (case decode_header x tok of
           Inl e \<Rightarrow> (Inl (with_source e (unauthorized ''invalid token header'')), st)
         | Inr (alg, tok_kid) \<Rightarrow>
             (case (if is_production (cfg_app_env c) \<or> alg \<noteq> HS256 then None else test_jwt_secret c) of
                Some secret \<Rightarrow>
                  (map_err (\<lambda>e. with_source e (unauthorized ''invalid test token''))
                     (decode_token x tok (from_secret x (string_bytes x secret)) (test_validation c)), st)
              | None \<Rightarrow>
                  (case find_key x now reply tok_kid st of
                     (Inl e, st') \<Rightarrow> (Inl e, st')
                   | (Inr (a, k), st') \<Rightarrow>
                       (map_err (\<lambda>e. with_source e (unauthorized ''invalid token''))
                          (decode_token x tok k (build_validation c a)), st')))))"

definition parse_bearer :: "string \<Rightarrow> app_error + string" where
  "parse_bearer v0 =
     (let v = trim v0 in
      and_then (ok_or (unauthorized ''expected Bearer token'')
         (or_else (strip_prefix ''Bearer '' v) (strip_prefix ''bearer '' v))) (\<lambda>bearer.
        let token = trim bearer in
        if token = [] then Inl (unauthorized ''empty bearer token'') else Inr token))"

subsection \<open>The local user\<close>

definition user_by_supabase :: "database \<Rightarrow> uuid \<Rightarrow> user option" where
  "user_by_supabase d sid = find (\<lambda>u. u_supabase_user_id u = sid) (users d)"

record user_claims =
  uc_row_id :: uuid
  uc_now :: instant
  uc_email :: string
  uc_display_name :: "string option"
  uc_avatar_url :: "string option"

text \<open>The row after the upsert; an update also runs the \<open>updated_at\<close> trigger.\<close>

definition merge_user :: "uuid \<Rightarrow> user_claims \<Rightarrow> user option \<Rightarrow> user" where
  "merge_user sid a old =
     (case old of
        None \<Rightarrow>
          \<lparr>u_id = uc_row_id a, u_supabase_user_id = sid, u_email = uc_email a,
           u_display_name = uc_display_name a, u_avatar_url = uc_avatar_url a,
           u_created_at = uc_now a, u_updated_at = uc_now a, u_deleted_at = None\<rparr>
      | Some u \<Rightarrow>
          u\<lparr>u_email := uc_email a,
            u_display_name := or_else (uc_display_name a) (u_display_name u),
            u_avatar_url := or_else (uc_avatar_url a) (u_avatar_url u),
            u_updated_at := uc_now a, u_deleted_at := None\<rparr>)"

definition upsert_user_sql ::
  "uuid \<Rightarrow> user_claims \<Rightarrow> database \<Rightarrow> (sqlx_error + user) \<times> database" where
  "upsert_user_sql sid a d =
     (case user_by_supabase d sid of
        Some u \<Rightarrow>
          (Inr (merge_user sid a (Some u)),
           d\<lparr>users := map (\<lambda>v. if u_supabase_user_id v = sid then merge_user sid a (Some v) else v) (users d)\<rparr>)
      | None \<Rightarrow>
          if user_exists d (uc_row_id a) then (Inl (Database UniqueViolation), d)
          else (Inr (merge_user sid a None), d\<lparr>users := users d @ [merge_user sid a None]\<rparr>))"

definition upsert_user_from_claims ::
  "'k auth_env \<Rightarrow> uuid \<Rightarrow> instant \<Rightarrow> claims \<Rightarrow> (app_error, user) action" where
  "upsert_user_from_claims x row_id now c =
     bindM (of_result (ok_or (unauthorized ''token sub is not a valid UUID'') (parse_uuid x (cl_sub c)))) (\<lambda>sid.
     bindM (of_result (email_required c)) (\<lambda>email.
       map_errM from_sqlx (query (upsert_user_sql sid
         \<lparr>uc_row_id = row_id, uc_now = now, uc_email = email,
          uc_display_name = claims_display_name c, uc_avatar_url = claims_avatar_url c\<rparr>))))"

text \<open>
  The extractor.  The header value is absent, not text, or text.  The result is the action on the
  database and the key cache as the request leaves it, which a lookup may have filled.
\<close>

definition authenticate ::
  "'k auth_env \<Rightarrow> config \<Rightarrow> instant \<Rightarrow> string + raw_jwk list \<Rightarrow> uuid \<Rightarrow> string option option \<Rightarrow>
   'k cache_state \<Rightarrow> (app_error, user) action \<times> 'k cache_state" where
  "authenticate x c now reply row_id header st =
     (case header of
        None \<Rightarrow> (throw (unauthorized ''missing Authorization header''), st)
      | Some None \<Rightarrow> (throw (unauthorized ''Authorization header is not valid UTF-8''), st)
      | Some (Some v) \<Rightarrow>
          (case parse_bearer v of
             Inl e \<Rightarrow> (throw e, st)
           | Inr tok \<Rightarrow>
               (case verify_token x c now reply tok st of
                  (Inl e, st') \<Rightarrow> (throw e, st')
                | (Inr cl, st') \<Rightarrow> (upsert_user_from_claims x row_id now cl, st'))))"

subsection \<open>Lemmas\<close>

lemma find_entry_in: "find_entry wanted st = Some e \<Longrightarrow>
    e \<in> set (keys st) \<and> (\<forall>k. wanted = Some k \<longrightarrow> kid e = Some k)"
  by (auto simp: find_entry_def dest: find_Some_iff_set split: option.splits list.splits)

lemma find_key_Inr:
  "find_key x now reply wanted st = (Inr (a, k), st') \<Longrightarrow>
     \<exists>e\<in>set (keys st'). a = entry_algorithm e \<and> k = decoding_key e \<and> (\<forall>i. wanted = Some i \<longrightarrow> kid e = Some i)"
  by (auto simp: find_key_def Let_def dest: find_entry_in split: option.splits)

lemma refresh_failed_keeps: "refresh x now reply st = (Inl e, st') \<Longrightarrow> keys st' = keys st"
  by (auto simp: refresh_def Let_def split: sum.splits if_splits)

lemma refresh_nonempty: "keys st \<noteq> [] \<Longrightarrow> keys (snd (refresh x now reply st)) \<noteq> []"
  by (auto simp: refresh_def Let_def split: sum.splits)

lemma find_key_warm: "keys st \<noteq> [] \<Longrightarrow> snd (find_key x now reply wanted st) = st"
  by (simp add: find_key_def Let_def)

text \<open>What the cache goes through: refreshes by the background task, lookups by requests.\<close>

inductive cache_step :: "'k auth_env \<Rightarrow> 'k cache_state \<Rightarrow> 'k cache_state \<Rightarrow> bool" for x where
  cache_refresh: "cache_step x st (snd (refresh x now reply st))"
| cache_lookup: "cache_step x st (snd (find_key x now reply wanted st))"

interpretation warm_cache: invariant_system "\<lambda>st. keys st \<noteq> []" "cache_step x" "\<lambda>st. keys st \<noteq> []" for x
proof
  show "keys t \<noteq> []" if "keys s \<noteq> []" "cache_step x s t" for s t :: "'a cache_state"
    using that(2,1) by (induction rule: cache_step.induct) (auto simp: refresh_nonempty find_key_warm)
qed

definition users_inv :: "database \<Rightarrow> bool" where
  "users_inv d \<longleftrightarrow>
     unique_on (\<lambda>u. Some (u_id u)) (users d) \<and> unique_on (\<lambda>u. Some (u_supabase_user_id u)) (users d)"

lemma merge_user_keys:
  "u_id (merge_user sid a (Some u)) = u_id u"
  "u_supabase_user_id (merge_user sid a (Some u)) = u_supabase_user_id u"
  "u_supabase_user_id (merge_user sid a None) = sid"
  by (simp_all add: merge_user_def)

lemma user_by_supabase_None:
  "user_by_supabase d sid = None \<longleftrightarrow> (\<forall>u\<in>set (users d). u_supabase_user_id u \<noteq> sid)"
  by (auto simp: user_by_supabase_def find_None_iff)

lemma upsert_user_sql_keeps:
  assumes "users_inv d"
  shows "users_inv (snd (upsert_user_sql sid a d))"
proof (cases "user_by_supabase d sid")
  case None
  have "u_id (merge_user sid a None) = uc_row_id a" by (simp add: merge_user_def)
  moreover from None have "\<forall>u\<in>set (users d). u_supabase_user_id u \<noteq> sid"
    by (simp add: user_by_supabase_None)
  ultimately show ?thesis using None assms
    by (simp add: upsert_user_sql_def users_inv_def unique_on_snoc user_exists_def merge_user_keys)
next
  case (Some u)
  with assms show ?thesis
    by (simp add: upsert_user_sql_def users_inv_def unique_on_map_same merge_user_keys)
qed

lemma keeps_upsert_user_from_claims [keeps_intros]:
  "keeps users_inv (upsert_user_from_claims x row_id now c)"
  unfolding upsert_user_from_claims_def by (intro keeps_intros upsert_user_sql_keeps)

definition accepts_user :: "uuid \<Rightarrow> user_claims \<Rightarrow> database \<Rightarrow> bool" where
  "accepts_user sid a d \<longleftrightarrow> user_by_supabase d sid \<noteq> None \<or> \<not> user_exists d (uc_row_id a)"

lemma upsert_user_other:
  "j \<noteq> sid \<Longrightarrow> user_by_supabase (snd (upsert_user_sql sid a d)) j = user_by_supabase d j"
proof (cases "user_by_supabase d sid")
  case None
  then show ?thesis if "j \<noteq> sid"
    using that by (simp add: upsert_user_sql_def user_by_supabase_def merge_user_keys find_append split: option.splits)
next
  case (Some u)
  assume j: "j \<noteq> sid"
  let ?f = "\<lambda>v. if u_supabase_user_id v = sid then merge_user sid a (Some v) else v"
  have "find (\<lambda>u. u_supabase_user_id u = j) (map ?f us) = find (\<lambda>u. u_supabase_user_id u = j) us" for us
    using j by (induction us) (auto simp: merge_user_keys)
  with Some show ?thesis by (simp add: upsert_user_sql_def user_by_supabase_def)
qed

lemma upsert_user_same:
  assumes "accepts_user sid a d"
  shows "user_by_supabase (snd (upsert_user_sql sid a d)) sid = Some (merge_user sid a (user_by_supabase d sid))"
proof (cases "user_by_supabase d sid")
  case None
  with assms show ?thesis
    by (simp add: accepts_user_def upsert_user_sql_def user_by_supabase_def find_append merge_user_keys)
next
  case (Some u)
  let ?f = "\<lambda>v. if u_supabase_user_id v = sid then merge_user sid a (Some v) else v"
  have "find (\<lambda>u. u_supabase_user_id u = sid) (map ?f us) =
      map_option ?f (find (\<lambda>u. u_supabase_user_id u = sid) us)" for us
    by (rule find_map_other) (simp add: merge_user_keys)
  moreover have "u_supabase_user_id u = sid" using Some
    by (auto simp: user_by_supabase_def dest: find_Some_iff_set)
  ultimately show ?thesis using Some by (simp add: upsert_user_sql_def user_by_supabase_def)
qed

lemma upsert_user_rejected: "\<not> accepts_user sid a d \<Longrightarrow> snd (upsert_user_sql sid a d) = d"
  by (simp add: accepts_user_def upsert_user_sql_def)

interpretation user_table: keyed_table user_by_supabase "\<lambda>sid a d. snd (upsert_user_sql sid a d)"
  accepts_user merge_user
  by unfold_locales (simp_all add: upsert_user_same upsert_user_other upsert_user_rejected)

subsection \<open>Properties\<close>

text \<open>What the token decoder promises: claims are returned only with an accepted issuer and
  audience.\<close>

definition decoder_checks :: "'k auth_env \<Rightarrow> bool" where
  "decoder_checks x \<longleftrightarrow>
     (\<forall>tok k v cl. decode_token x tok k v = Inr cl \<longrightarrow>
        cl_iss cl \<in> set (v_issuers v) \<and> cl_aud cl \<in> set (v_audience v))"

text \<open>C23: in production only the project's own keys count.  A token is accepted only if a key
  published by the project - the one its header names, if it names one - decodes it under that
  key's own algorithm with expiry checked, and it is issued by the configured project for the
  configured audience.  The test secret and the test issuer have no effect, whatever the
  configuration says.\<close>

theorem production_token_genuine:
  assumes "decoder_checks x" "cfg_app_env c = Production"
    and "verify_token x c now reply tok st = (Inr cl, st')"
  shows "\<exists>alg tok_kid. decode_header x (trim tok) = Inr (alg, tok_kid) \<and>
     (\<exists>e\<in>set (keys st').
        (\<forall>i. tok_kid = Some i \<longrightarrow> kid e = Some i) \<and>
        decode_token x (trim tok) (decoding_key e)
          \<lparr>v_algorithm = entry_algorithm e, v_issuers = [supabase_jwt_issuer c],
           v_audience = [supabase_jwt_audience c], v_leeway = 60,
           v_validate_exp = True, v_validate_nbf = True\<rparr> = Inr cl) \<and>
     cl_iss cl = supabase_jwt_issuer c \<and> cl_aud cl = supabase_jwt_audience c"
proof -
  from assms(2,3) obtain alg tok_kid a k where
    h: "decode_header x (trim tok) = Inr (alg, tok_kid)"
      "find_key x now reply tok_kid st = (Inr (a, k), st')"
      "decode_token x (trim tok) k (build_validation c a) = Inr cl"
    by (auto simp: verify_token_def is_production_def Let_def
        split: if_splits sum.splits prod.splits)
  from h(3) assms(1) have "cl_iss cl = supabase_jwt_issuer c" "cl_aud cl = supabase_jwt_audience c"
    unfolding decoder_checks_def by (fastforce simp: build_validation_def)+
  with h find_key_Inr [OF h(2)] show ?thesis by (auto simp: build_validation_def)
qed

definition sample_auth :: "string auth_env" where
  "sample_auth =
     \<lparr>from_rsa_components = \<lambda>n e. Inr (n @ e), from_ec_components = \<lambda>a b. Inr (a @ b),
      from_secret = \<lambda>_. ''secret'', base64_url_decode = \<lambda>_. Inl ''bad'', string_bytes = \<lambda>_. [],
      decode_header = \<lambda>_. Inr (RS256, Some ''k1''),
      decode_token = \<lambda>tok k v. case (v_issuers v, v_audience v) of
          (i # _, a # _) \<Rightarrow> Inr \<lparr>cl_sub = ''sub'', cl_email = Some ''a@b.c'', cl_iss = i, cl_aud = a,
             cl_exp = 0, cl_user_metadata = JObj [(''name'', JStr ''Ann'')], cl_app_metadata = JNull,
             cl_role = None\<rparr>
        | _ \<Rightarrow> Inl ''none'',
      parse_uuid = \<lambda>_. Some 101\<rparr>"

lemma sample_auth_checks: "decoder_checks sample_auth"
  by (auto simp: decoder_checks_def sample_auth_def split: list.splits)

theorem production_token_genuine_witness:
  "\<exists>c cl st'. cfg_app_env c = Production \<and>
     verify_token sample_auth c 0 (Inr [\<lparr>jwk_kty = ''RSA'', jwk_alg = None, jwk_kid = Some ''k1'',
       jwk_n = Some ''n'', jwk_e = Some ''e'', jwk_crv = None, jwk_x = None, jwk_y = None, jwk_k = None\<rparr>])
       ''tok'' empty_cache = (Inr cl, st') \<and> cl_iss cl = supabase_jwt_issuer c"
proof -
  let ?jwk = "\<lparr>jwk_kty = ''RSA'', jwk_alg = None, jwk_kid = Some ''k1'',
       jwk_n = Some ''n'', jwk_e = Some ''e'', jwk_crv = None, jwk_x = None, jwk_y = None, jwk_k = None\<rparr>"
  obtain c where c: "load_config sample_base64 (blank_raw\<lparr>raw_app_env := Some ''prod''\<rparr>) = Inr c"
    "cfg_app_env c = Production" using sample_config_loads by blast
  have "\<exists>cl st'. verify_token sample_auth c 0 (Inr [?jwk]) ''tok'' empty_cache = (Inr cl, st')"
    using c(2)
    by (simp add: verify_token_def find_key_def refresh_def jwk_to_entry_def jwk_key_def find_entry_def
        default_alg_for_kty_def parse_algorithm_def unwrap_or_def build_validation_def sample_auth_def
        empty_cache_def is_production_def map_filter_Cons result_simps str_simps)
  then obtain cl st' where v: "verify_token sample_auth c 0 (Inr [?jwk]) ''tok'' empty_cache = (Inr cl, st')"
    by blast
  with production_token_genuine [OF sample_auth_checks c(2) v] c(2) show ?thesis by blast
qed

text \<open>The key cache never goes cold.  Once it holds a key it holds one after every later
  refresh and lookup, however the key endpoint answers; while it is warm a lookup neither fetches
  nor changes it, and a failed refresh keeps the keys it has.\<close>

theorem key_cache_stays_warm:
  assumes "keys st \<noteq> []" "steps (cache_step x) st st'"
  shows "keys st' \<noteq> [] \<and> snd (find_key x now reply wanted st') = st' \<and>
     (\<forall>e st''. refresh x now reply st' = (Inl e, st'') \<longrightarrow> keys st'' = keys st')"
  using warm_cache.steps_inv [OF assms(2,1)] by (auto simp: find_key_warm dest: refresh_failed_keeps)

theorem key_cache_stays_warm_witness:
  "keys (snd (refresh sample_auth 5 (Inl ''timeout'')
     \<lparr>keys = [\<lparr>kid = None, entry_algorithm = RS256, decoding_key = ''k''\<rparr>], fetched_at = None, last_error = None\<rparr>)) \<noteq> []"
proof -
  let ?st = "\<lparr>keys = [\<lparr>kid = None, entry_algorithm = RS256, decoding_key = ''k''\<rparr>],
    fetched_at = None, last_error = None\<rparr>"
  have "steps (cache_step sample_auth) ?st (snd (refresh sample_auth 5 (Inl ''timeout'') ?st))"
    by (rule steps_step, rule steps_refl, rule cache_refresh)
  from key_cache_stays_warm [OF _ this] show ?thesis by simp
qed

text \<open>A Supabase identity keeps its local account.  Over any sequence of authenticated
  requests of any users, the local id and the creation time behind a Supabase id never change and
  the account never disappears; requests of other identities do not touch the row at all.\<close>

theorem local_account_stable:
  assumes "user_by_supabase d sid = Some u"
  shows "(\<exists>u'. user_by_supabase (upsert_all (\<lambda>k a d. snd (upsert_user_sql k a d)) ops d) sid = Some u' \<and>
            u_id u' = u_id u \<and> u_created_at u' = u_created_at u) \<and>
         (sid \<notin> fst ` set ops \<longrightarrow>
            user_by_supabase (upsert_all (\<lambda>k a d. snd (upsert_user_sql k a d)) ops d) sid = Some u)"
  using user_table.row_evolves [of "\<lambda>u v. u_id v = u_id u \<and> u_created_at v = u_created_at u" d sid u ops]
    user_table.upserts_isolated [of sid ops d] assms
  by (simp add: merge_user_def)

theorem local_account_stable_witness:
  "\<exists>u'. user_by_supabase (upsert_all (\<lambda>k a d. snd (upsert_user_sql k a d))
      [(102, \<lparr>uc_row_id = 2, uc_now = 3, uc_email = ''b'', uc_display_name = None, uc_avatar_url = None\<rparr>),
       (101, \<lparr>uc_row_id = 3, uc_now = 4, uc_email = ''c'', uc_display_name = None, uc_avatar_url = None\<rparr>)]
      ((empty_database 6)\<lparr>users := [\<lparr>u_id = 1, u_supabase_user_id = 101, u_email = ''a'',
         u_display_name = None, u_avatar_url = None, u_created_at = 0, u_updated_at = 0,
         u_deleted_at = None\<rparr>]\<rparr>)) 101 = Some u' \<and> u_id u' = 1"
proof -
  let ?d = "(empty_database 6)\<lparr>users := [\<lparr>u_id = 1, u_supabase_user_id = 101, u_email = ''a'',
         u_display_name = None, u_avatar_url = None, u_created_at = 0, u_updated_at = 0,
         u_deleted_at = None\<rparr>]\<rparr>"
  have "user_by_supabase ?d 101 = Some \<lparr>u_id = 1, u_supabase_user_id = 101, u_email = ''a'',
         u_display_name = None, u_avatar_url = None, u_created_at = 0, u_updated_at = 0,
         u_deleted_at = None\<rparr>" by (simp add: user_by_supabase_def)
  from local_account_stable [OF this] show ?thesis by (auto simp only: user.simps)
qed

end
