(* ===== verification/Http_Layers.thy ===== *)
theory Http_Layers
  imports Auth
begin

text \<open>
  The cross-cutting layers of the HTTP stack: the request id
  (\<^verbatim>\<open>src/middleware/request_id.rs\<close>), the security headers
  (\<^verbatim>\<open>src/middleware/security_headers.rs\<close>), the timeout (\<^verbatim>\<open>src/middleware/timeout.rs\<close>), CORS, the
  rate limiter and the bind address (\<^verbatim>\<open>src/server.rs\<close>), and the health endpoints
  (\<^verbatim>\<open>src/health.rs\<close>).

  A service maps the task-local request id, the request and the world to a response and the next
  world; a layer maps services to services.  The layers of tower-http, tower-governor and
  sentry-tower, which the server only configures, are fields of an environment, and what the
  server relies on are named laws over it.
\<close>

subsection \<open>Requests, responses, services\<close>

datatype verb = Get | Head | Post | Put | Patch | Delete | Options | OtherVerb string

text \<open>The values of each header, by lower-case name; a character is a byte.\<close>

type_synonym header_map = "string \<Rightarrow> string list"

record wire_request =
  rq_verb :: verb
  rq_path :: string
  rq_query :: string
  rq_headers :: header_map
  rq_body :: "byte list"

datatype wire_body = ErrorBody error_body | OtherBody string

record wire_response =
  rs_status :: nat
  rs_headers :: header_map
  rs_body :: wire_body

type_synonym service = "string option \<Rightarrow> wire_request \<Rightarrow> world \<Rightarrow> wire_response \<times> world"
type_synonym layer = "service \<Rightarrow> service"

text \<open>\<open>HeaderMap::get\<close>, and \<open>HeaderMap::insert\<close>, which replaces every value of the name.\<close>

definition header_get :: "header_map \<Rightarrow> string \<Rightarrow> string option" where
  "header_get h n = (case h n of [] \<Rightarrow> None | v # _ \<Rightarrow> Some v)"

definition header_insert :: "string \<Rightarrow> string \<Rightarrow> header_map \<Rightarrow> header_map" where
  "header_insert n v h = h(n := [v])"

text \<open>\<open>HeaderValue::to_str\<close> accepts visible ASCII and tab, \<open>HeaderValue::from_str\<close> every byte
  but the control characters.\<close>

definition header_to_str :: "string \<Rightarrow> string option" where
  "header_to_str v =
     (if list_all (\<lambda>c. let n = (of_char c :: nat) in 32 \<le> n \<and> n < 127 \<or> n = 9) v then Some v else None)"

definition valid_header_value :: "string \<Rightarrow> bool" where
  "valid_header_value v \<longleftrightarrow>
     list_all (\<lambda>c. let n = (of_char c :: nat) in 32 \<le> n \<and> n \<noteq> 127 \<or> n = 9) v"

subsection \<open>The request id\<close>

definition REQUEST_ID_HEADER :: string where
  "REQUEST_ID_HEADER = ''x-request-id''"

definition MAX_LEN :: nat where
  "MAX_LEN = 64"

definition is_safe_id_char :: "char \<Rightarrow> bool" where
  "is_safe_id_char c \<longleftrightarrow>
     (let n = (of_char c :: nat) in
      97 \<le> n \<and> n \<le> 122 \<or> 65 \<le> n \<and> n \<le> 90 \<or> 48 \<le> n \<and> n \<le> 57 \<or> c \<in> {CHR ''-'', CHR ''_'', CHR ''.''})"

text \<open>The filter on the id of the client.\<close>

definition acceptable_id :: "string \<Rightarrow> bool" where
  "acceptable_id s \<longleftrightarrow> s \<noteq> [] \<and> length s \<le> MAX_LEN \<and> list_all is_safe_id_char s"

text \<open>\<open>fresh\<close> is the text of the UUID that would be drawn.\<close>

definition extract_or_generate :: "string \<Rightarrow> header_map \<Rightarrow> string" where
  "extract_or_generate fresh h =
     (case map_option trim (Option.bind (header_get h REQUEST_ID_HEADER) header_to_str) of
        Some s \<Rightarrow> if acceptable_id s then s else fresh
      | None \<Rightarrow> fresh)"

text \<open>\<open>RequestIdService::call\<close>; \<open>fresh2\<close> is the UUID of the fallback.\<close>

definition request_id_layer :: "string \<Rightarrow> string \<Rightarrow> layer" where
  "request_id_layer fresh fresh2 inner task req w =
     (let rid = extract_or_generate fresh (rq_headers req);
          hv = (if valid_header_value rid then rid
                else if valid_header_value fresh2 then fresh2 else ''invalid'');
          (resp, w') = inner (Some rid)
            (req\<lparr>rq_headers := header_insert REQUEST_ID_HEADER hv (rq_headers req)\<rparr>) w
      in (resp\<lparr>rs_headers := header_insert REQUEST_ID_HEADER hv (rs_headers resp)\<rparr>, w'))"

subsection \<open>Security headers\<close>

type_synonym static_header = "string \<times> string"

record security_header_layers =
  nosniff :: static_header
  frame :: static_header
  referrer :: static_header
  permissions :: static_header
  cross_domain :: static_header
  hsts :: "static_header option"

definition security_layers :: "app_env \<Rightarrow> security_header_layers" where
  "security_layers e =
     \<lparr>nosniff = (''x-content-type-options'', ''nosniff''),
      frame = (''x-frame-options'', ''DENY''),
      referrer = (''referrer-policy'', ''strict-origin-when-cross-origin''),
      permissions = (''permissions-policy'', ''camera=(), geolocation=(), microphone=(), payment=()''),
      cross_domain = (''x-permitted-cross-domain-policies'', ''none''),
      hsts = (if is_production e
              then Some (''strict-transport-security'', ''max-age=63072000; includeSubDomains; preload'')
              else None)\<rparr>"

subsection \<open>The library layers\<close>

text \<open>
  \<open>'c\<close> is \<open>CorsLayer\<close>, \<open>'g\<close> a finished governor configuration.  \<open>set_overriding\<close> is
  \<open>SetResponseHeaderLayer::overriding\<close>; \<open>governor_finish\<close> is \<open>GovernorConfigBuilder\<close> with
  \<open>per_second\<close>, \<open>burst_size\<close> and \<open>finish\<close>; \<open>admitted\<close> is how many requests of one peer a
  configuration lets through in the given number of seconds at most; \<open>empty_reply\<close> is what axum
  answers by itself for a status.
\<close>

record ('c, 'g) http_env =
  set_overriding :: "string \<Rightarrow> string \<Rightarrow> layer"
  cors_new :: 'c
  cors_methods :: "verb list \<Rightarrow> 'c \<Rightarrow> 'c"
  cors_headers :: "string list \<Rightarrow> 'c \<Rightarrow> 'c"
  cors_max_age :: "nat \<Rightarrow> 'c \<Rightarrow> 'c"
  cors_origin :: "string \<Rightarrow> 'c \<Rightarrow> 'c"
  cors_layer :: "'c \<Rightarrow> layer"
  governor_finish :: "nat \<Rightarrow> nat \<Rightarrow> 'g option"
  governor_layer :: "'g \<Rightarrow> layer"
  admitted :: "'g \<Rightarrow> nat \<Rightarrow> nat"
  body_limit_layer :: "nat \<Rightarrow> layer"
  timeout_status_layer :: "nat \<Rightarrow> nat \<Rightarrow> layer"
  trace_layer :: layer
  new_sentry_layer :: layer
  sentry_http_layer :: layer
  empty_reply :: "nat \<Rightarrow> wire_response"
  parse_ip :: "string \<Rightarrow> string option"

definition security_stack :: "('c, 'g) http_env \<Rightarrow> security_header_layers \<Rightarrow> layer" where
  "security_stack x l inner =
     (let put = (\<lambda>h. set_overriding x (fst h) (snd h));
          base = put (cross_domain l) (put (permissions l) (put (referrer l) (put (frame l) (put (nosniff l) inner))))
      in case hsts l of None \<Rightarrow> base | Some h \<Rightarrow> put h base)"

subsection \<open>CORS, rate limiter, timeout, bind address\<close>

definition build_cors :: "('c, 'g) http_env \<Rightarrow> config \<Rightarrow> 'c" where
  "build_cors x c =
     foldl (\<lambda>l origin. if valid_header_value origin then cors_origin x origin l else l)
       (cors_max_age x (60 * 10)
          (cors_headers x [''authorization'', ''content-type'', ''x-request-id'']
             (cors_methods x [Get, Post, Patch, Delete, Options] (cors_new x))))
       (cors_allowed_origins c)"

text \<open>\<open>None\<close> is the panic of \<open>expect\<close>.\<close>

definition per_second :: "config \<Rightarrow> nat" where
  "per_second c = max (max (rate_limit_per_minute c) 1 div 60) 1"

definition burst :: "config \<Rightarrow> nat" where
  "burst c = max (max (rate_limit_per_minute c) 1 div 4) 1"

definition build_rate_limiter_config :: "('c, 'g) http_env \<Rightarrow> config \<Rightarrow> 'g option" where
  "build_rate_limiter_config x c = governor_finish x (per_second c) (burst c)"

definition DEFAULT_TIMEOUT :: nat where
  "DEFAULT_TIMEOUT = 30"

definition timeout_layer :: "('c, 'g) http_env \<Rightarrow> layer" where
  "timeout_layer x = timeout_status_layer x 504 DEFAULT_TIMEOUT"

text \<open>The handler of middleware errors that no layer uses.\<close>

definition handle_error :: "bool \<Rightarrow> nat \<times> string" where
  "handle_error is_elapsed =
     (if is_elapsed then (504, ''request timed out'') else (500, ''internal error''))"

definition bind_addr :: "('c, 'g) http_env \<Rightarrow> config \<Rightarrow> string \<times> nat" where
  "bind_addr x c = (case parse_ip x (app_host c) of Some ip \<Rightarrow> ip | None \<Rightarrow> ''0.0.0.0'', app_port c)"

subsection \<open>Health\<close>

record component_status =
  healthy :: bool
  detail :: "string option"

record ready_response =
  ready_status :: string
  ready_db :: component_status
  ready_jwks :: component_status

text \<open>The outcome of the ping: an answer, a database error with its text, or the timeout.\<close>

datatype ping = Pong | PingError string | PingTimeout

definition db_status :: "ping \<Rightarrow> component_status" where
  "db_status p =
     (case p of
        Pong \<Rightarrow> \<lparr>healthy = True, detail = None\<rparr>
      | PingError e \<Rightarrow> \<lparr>healthy = False, detail = Some (''query: '' @ e)\<rparr>
      | PingTimeout \<Rightarrow> \<lparr>healthy = False, detail = Some ''timed out after 2s''\<rparr>)"

definition jwks_status :: "jwks_snapshot \<Rightarrow> component_status" where
  "jwks_status s =
     (if 0 < key_count s \<and> \<not> stale s then \<lparr>healthy = True, detail = None\<rparr>
      else \<lparr>healthy = False,
            detail = or_else (snap_last_error s)
              (Some (if key_count s = 0 then ''no keys cached'' else ''cache stale''))\<rparr>)"

definition ready :: "instant \<Rightarrow> ping \<Rightarrow> 'k cache_state \<Rightarrow> nat \<times> ready_response" where
  "ready now p st =
     (let d = db_status p; j = jwks_status (snapshot now st); ok = healthy d \<and> healthy j
      in (if ok then 200 else 503,
          \<lparr>ready_status = (if ok then ''ready'' else ''not_ready''), ready_db = d, ready_jwks = j\<rparr>))"

record health_response =
  health_status :: string
  version :: string
  build_time :: string
  commit_sha :: string

text \<open>The three strings are baked in by the build script.\<close>

definition health :: "string \<Rightarrow> string \<Rightarrow> string \<Rightarrow> health_response" where
  "health VERSION BUILD_TIME GIT_COMMIT =
     \<lparr>health_status = ''ok'', version = VERSION, build_time = BUILD_TIME, commit_sha = GIT_COMMIT\<rparr>"

subsection \<open>Laws of the library layers\<close>

text \<open>Tracing and error reporting watch the exchange and leave it alone; an overriding header
  layer replaces what the response has under its name.\<close>

definition transparent :: "layer \<Rightarrow> bool" where
  "transparent l \<longleftrightarrow> (\<forall>svc task req w. l svc task req w = svc task req w)"

definition overriding_law :: "('c, 'g) http_env \<Rightarrow> bool" where
  "overriding_law x \<longleftrightarrow>
     (\<forall>n v svc task req w. set_overriding x n v svc task req w =
        (case svc task req w of (r, w') \<Rightarrow> (r\<lparr>rs_headers := header_insert n v (rs_headers r)\<rparr>, w')))"

text \<open>\<open>CorsLayer::allow_origin\<close> sets the one allowed origin of the layer: a later call replaces an
  earlier one.\<close>

definition cors_law :: "('c, 'g) http_env \<Rightarrow> bool" where
  "cors_law x \<longleftrightarrow> (\<forall>a b l. cors_origin x b (cors_origin x a l) = cors_origin x b l)"

text \<open>A configuration with a positive period and burst is finished, and it gives back one request
  per period: \<open>per_second(n)\<close> sets the period to \<open>n\<close> seconds.\<close>

definition governor_law :: "('c, 'g) http_env \<Rightarrow> bool" where
  "governor_law x \<longleftrightarrow>
     (\<forall>p b. 0 < p \<longrightarrow> 0 < b \<longrightarrow>
        (\<exists>g. governor_finish x p b = Some g \<and> (\<forall>t. admitted x g t \<le> b + t div p)))"

text \<open>The text of a version 4 UUID.\<close>

definition uuid_text :: "string \<Rightarrow> bool" where
  "uuid_text s \<longleftrightarrow> length s = 36 \<and>
     list_all (\<lambda>c. let n = (of_char c :: nat) in 48 \<le> n \<and> n \<le> 57 \<or> 97 \<le> n \<and> n \<le> 102 \<or> c = CHR ''-'') s"

subsection \<open>Lemmas\<close>

lemma header_insert_get [simp]: "header_get (header_insert n v h) n = Some v"
  by (simp add: header_get_def header_insert_def)

lemma header_insert_other [simp]: "m \<noteq> n \<Longrightarrow> header_insert n v h m = h m"
  by (simp add: header_insert_def)

lemma header_insert_same [simp]: "header_insert n v h n = [v]"
  by (simp add: header_insert_def)

lemma safe_char_valid:
  "is_safe_id_char c \<Longrightarrow> 32 \<le> (of_char c :: nat) \<and> (of_char c :: nat) < 127"
  by (auto simp: is_safe_id_char_def Let_def)

lemma acceptable_id_valid: "acceptable_id s \<Longrightarrow> valid_header_value s"
  by (auto simp: acceptable_id_def valid_header_value_def list_all_iff Let_def dest!: safe_char_valid)

lemma uuid_text_acceptable: "uuid_text s \<Longrightarrow> acceptable_id s"
  by (fastforce simp: uuid_text_def acceptable_id_def MAX_LEN_def list_all_iff is_safe_id_char_def Let_def)

lemma extract_or_generate_acceptable:
  "uuid_text fresh \<Longrightarrow> acceptable_id (extract_or_generate fresh h)"
  by (auto simp: extract_or_generate_def uuid_text_acceptable split: option.splits)

lemma safe_char_not_ws: "is_safe_id_char c \<Longrightarrow> \<not> is_whitespace c"
  by (auto simp: is_safe_id_char_def is_whitespace_def Let_def)

lemma extract_keeps_client_id:
  assumes "header_get h REQUEST_ID_HEADER = Some v" "acceptable_id v"
  shows "extract_or_generate fresh h = v"
proof -
  have "header_to_str v = Some v"
    using assms(2) by (auto simp: header_to_str_def acceptable_id_def list_all_iff Let_def dest!: safe_char_valid)
  moreover have "trim v = v"
    using assms(2) by (intro trim_no_ws) (auto simp: acceptable_id_def list_all_iff safe_char_not_ws)
  ultimately show ?thesis using assms by (simp add: extract_or_generate_def)
qed

lemma request_id_layer_eq:
  assumes "uuid_text fresh"
  shows "request_id_layer fresh fresh2 inner task req w =
     (let rid = extract_or_generate fresh (rq_headers req);
          (resp, w') = inner (Some rid)
            (req\<lparr>rq_headers := header_insert REQUEST_ID_HEADER rid (rq_headers req)\<rparr>) w
      in (resp\<lparr>rs_headers := header_insert REQUEST_ID_HEADER rid (rs_headers resp)\<rparr>, w'))"
  using acceptable_id_valid [OF extract_or_generate_acceptable [OF assms]]
  by (simp add: request_id_layer_def Let_def)

lemma build_cors_fold:
  assumes "cors_law x"
  shows "foldl (\<lambda>l origin. if valid_header_value origin then cors_origin x origin l else l) l0 os =
     (case filter valid_header_value os of [] \<Rightarrow> l0 | vs \<Rightarrow> cors_origin x (last vs) l0)"
proof (induction os arbitrary: l0)
  case (Cons a os)
  have "cors_origin x b (cors_origin x a l) = cors_origin x b l" for b l
    using assms by (simp add: cors_law_def)
  with Cons show ?case by (cases "filter valid_header_value os") simp_all
qed simp

text \<open>Readiness: the database answers and a key was fetched within the last day.\<close>

lemma ready_exact:
  "fst (ready now p st) = 200 \<longleftrightarrow>
     p = Pong \<and> keys st \<noteq> [] \<and> (\<exists>t. fetched_at st = Some t \<and> now - t \<le> STALE_AFTER)"
  by (auto simp: ready_def Let_def db_status_def jwks_status_def snapshot_def split: ping.splits option.splits)

lemma ready_after_refresh:
  "refresh x t reply st = (Inr (), st') \<Longrightarrow>
     fst (ready now Pong st') = 200 \<longleftrightarrow> now - t \<le> STALE_AFTER"
  by (auto simp: refresh_def Let_def ready_exact split: sum.splits if_splits)

lemma rate_limiter_positive: "0 < per_second c" "0 < burst c"
  by (simp_all add: per_second_def burst_def)

lemma rate_limiter_built:
  assumes "governor_law x"
  obtains g where "build_rate_limiter_config x c = Some g"
    "\<And>t. admitted x g t \<le> burst c + t div per_second c"
  using assms rate_limiter_positive [of c] unfolding governor_law_def build_rate_limiter_config_def by meson

subsection \<open>Properties\<close>

text \<open>C40: only the last origin is allowed.  Each \<open>allow_origin\<close> replaces the one before it, so of
  a list of origins the browser is granted the last well-formed one only, as if the others had
  not been configured.\<close>

theorem only_last_origin_allowed:
  assumes "cors_law x" "filter valid_header_value (cors_allowed_origins c) = vs @ [v]"
  shows "build_cors x c = build_cors x (c\<lparr>cors_allowed_origins := [v]\<rparr>)"
proof -
  have "v \<in> set (filter valid_header_value (cors_allowed_origins c))" by (simp add: assms(2))
  then have "valid_header_value v" by simp
  then show ?thesis
    by (cases vs) (simp_all add: build_cors_def build_cors_fold [OF assms(1)] assms(2))
qed

definition sample_config :: config where
  "sample_config =
     \<lparr>app_host = ''0.0.0.0'', app_port = 8080, cfg_app_env = Production, log_level = ''info'',
      cfg_log_format = Json, database_url = [], database_max_connections = 20,
      supabase_url = ''https://p.supabase.co'', supabase_jwt_audience = ''authenticated'',
      supabase_service_role_key = None, cors_allowed_origins = [], rate_limit_per_minute = 100,
      sentry = \<lparr>dsn = None, sentry_environment = ''production''\<rparr>, test_jwt_secret = None,
      snaptrade = \<lparr>client_id = [], consumer_key = [], api_base = [], redirect_uri = [],
        broker_secret_encryption_key = [], state_secret = []\<rparr>,
      cfg_billing = None\<rparr>"

definition sample_http :: "(string option, nat \<times> nat) http_env" where
  "sample_http =
     \<lparr>set_overriding = (\<lambda>n v svc task req w. case svc task req w of
        (r, w') \<Rightarrow> (r\<lparr>rs_headers := header_insert n v (rs_headers r)\<rparr>, w')),
      cors_new = None, cors_methods = (\<lambda>_ l. l), cors_headers = (\<lambda>_ l. l), cors_max_age = (\<lambda>_ l. l),
      cors_origin = (\<lambda>origin _. Some origin), cors_layer = (\<lambda>_ svc. svc),
      governor_finish = (\<lambda>p b. if 0 < p \<and> 0 < b then Some (p, b) else None),
      governor_layer = (\<lambda>_ svc. svc), admitted = (\<lambda>(p, b) t. b + t div p),
      body_limit_layer = (\<lambda>_ svc. svc), timeout_status_layer = (\<lambda>_ _ svc. svc),
      trace_layer = (\<lambda>svc. svc), new_sentry_layer = (\<lambda>svc. svc), sentry_http_layer = (\<lambda>svc. svc),
      empty_reply = (\<lambda>st. \<lparr>rs_status = st, rs_headers = (\<lambda>_. []), rs_body = OtherBody []\<rparr>),
      parse_ip = (\<lambda>_. None)\<rparr>"

lemma sample_http_laws:
  "overriding_law sample_http" "cors_law sample_http" "governor_law sample_http"
  "transparent (trace_layer sample_http)" "transparent (new_sentry_layer sample_http)"
  "transparent (sentry_http_layer sample_http)"
  by (simp_all add: overriding_law_def cors_law_def governor_law_def transparent_def sample_http_def)

theorem only_last_origin_allowed_witness:
  "build_cors sample_http (sample_config\<lparr>cors_allowed_origins := [''https://a.test'', ''https://b.test'']\<rparr>) =
     Some ''https://b.test''"
proof -
  have "filter valid_header_value [''https://a.test'', ''https://b.test''] = [''https://a.test''] @ [''https://b.test'']"
    by code_simp
  from only_last_origin_allowed [OF sample_http_laws(2), of "sample_config\<lparr>cors_allowed_origins := [''https://a.test'', ''https://b.test'']\<rparr>"]
    this have "build_cors sample_http (sample_config\<lparr>cors_allowed_origins := [''https://a.test'', ''https://b.test'']\<rparr>)
      = build_cors sample_http (sample_config\<lparr>cors_allowed_origins := [''https://b.test'']\<rparr>)"
    by simp
  moreover have "valid_header_value ''https://b.test''" by code_simp
  ultimately show ?thesis by (simp add: build_cors_def sample_http_def)
qed

text \<open>C39: the request limit is not the configured one.  \<open>per_second(n)\<close> is the number of seconds
  in which one request is given back, so the limit falls as the setting grows: with a setting
  of \<open>n \<ge> 120\<close> requests per minute, a peer gets at most \<open>n / 4\<close> at once and then one every
  \<open>n / 60\<close> seconds, at most 30 a minute, and never what is configured.\<close>

theorem rate_limit_inverted:
  assumes "governor_law x" "120 \<le> rate_limit_per_minute c"
  shows "\<exists>g. build_rate_limiter_config x c = Some g \<and>
     (\<forall>t. admitted x g t \<le> rate_limit_per_minute c div 4 + t div (rate_limit_per_minute c div 60)) \<and>
     (\<forall>m. admitted x g (60 * m) \<le> rate_limit_per_minute c div 4 + 30 * m) \<and>
     (\<forall>m. 0 < m \<longrightarrow> admitted x g (60 * m) < rate_limit_per_minute c * m)"
proof -
  let ?n = "rate_limit_per_minute c"
  obtain g where g: "build_rate_limiter_config x c = Some g"
    "admitted x g t \<le> burst c + t div per_second c" for t
    using rate_limiter_built [OF assms(1), of c] by blast
  have *: "burst c = ?n div 4" "per_second c = ?n div 60" "2 \<le> ?n div 60"
    using assms(2) by (auto simp: burst_def per_second_def)
  have minute: "admitted x g (60 * m) \<le> ?n div 4 + 30 * m" for m
  proof -
    have "60 * m div (?n div 60) \<le> 60 * m div 2" using *(3) by (intro div_le_mono2) simp_all
    then show ?thesis using g(2) [of "60 * m"] *(1,2) by simp
  qed
  have "?n div 4 + 30 * m < ?n * m" if "0 < m" for m
  proof -
    have "?n div 4 + 30 < ?n" using assms(2) by linarith
    then have "(?n div 4 + 30) * m < ?n * m" using that by (rule mult_strict_right_mono)
    moreover have "?n div 4 * 1 \<le> ?n div 4 * m" using that by (intro mult_le_mono2) simp
    ultimately show ?thesis by (simp only: add_mult_distrib mult_1_right)
  qed
  then show ?thesis using g minute * by (auto intro: le_less_trans)
qed

theorem rate_limit_inverted_witness:
  "\<exists>g. build_rate_limiter_config sample_http (sample_config\<lparr>rate_limit_per_minute := 600\<rparr>) = Some g \<and>
     admitted sample_http g 3600 \<le> 510"
proof -
  obtain g where "build_rate_limiter_config sample_http (sample_config\<lparr>rate_limit_per_minute := 600\<rparr>) = Some g"
    "\<forall>t. admitted sample_http g t \<le> 600 div 4 + t div (600 div 60)"
    using rate_limit_inverted [OF sample_http_laws(3), of "sample_config\<lparr>rate_limit_per_minute := 600\<rparr>"]
    by auto
  then show ?thesis by (auto dest: spec [of _ 3600])
qed

end
