(* ===== verification/Server.thy ===== *)
theory Server
  imports Http_Layers
begin

text \<open>
  The router and its composition (\<^verbatim>\<open>src/server.rs\<close> and the \<open>router\<close> functions of the modules): the
  table of routes, how a request finds its handler, which handlers sit behind the
  \<open>AuthenticatedUser\<close> extractor, and the stack of layers around the router.
\<close>

subsection \<open>Routes\<close>

text \<open>The handlers, one constructor each.\<close>

datatype endpoint =
    Health | Ready
  | GetMe | PatchMe
  | ListForMe | ListMembers | CreateInvite | GetInvite | AcceptInvite
  | CreateCheckoutSession | CreatePortalSession | RecordUsage | Chat
  | ListMonthlyReports | RequestMonthlyReport | ReceiveWebhook | ListPlans
  | SnaptradeCallback | LoginPortal | ListConnections | RefreshConnection | DeleteConnection
  | ListAccounts | AccountHoldings | AccountActivities

text \<open>A route: its path with \<open>:name\<close> parameters, the method and the handler.\<close>

type_synonym route = "string \<times> verb \<times> endpoint"

definition health_router :: "route list" where
  "health_router = [(''/health'', Get, Health), (''/ready'', Get, Ready)]"

definition users_router :: "route list" where
  "users_router = [(''/me'', Get, GetMe), (''/me'', Patch, PatchMe)]"

definition teams_router :: "route list" where
  "teams_router =
     [(''/me/teams'', Get, ListForMe),
      (''/teams/:id/members'', Get, ListMembers),
      (''/teams/:id/invites'', Post, CreateInvite),
      (''/invites/:token'', Get, GetInvite),
      (''/invites/:token/accept'', Post, AcceptInvite)]"

definition billing_router :: "route list" where
  "billing_router =
     [(''/billing/checkout-session'', Post, CreateCheckoutSession),
      (''/billing/portal'', Post, CreatePortalSession),
      (''/usage'', Post, RecordUsage),
      (''/ai/chat'', Post, Chat),
      (''/chat/completions'', Post, Chat),
      (''/reports/monthly'', Get, ListMonthlyReports),
      (''/reports/monthly'', Post, RequestMonthlyReport),
      (''/stripe/webhook'', Post, ReceiveWebhook)]"

definition plans_router :: "route list" where
  "plans_router = [(''/subscription/plans'', Get, ListPlans)]"

text \<open>The module \<open>connect\<close> is what is left of an earlier API: an empty router that nothing merges, and the
  stub that \<open>ListPlans\<close> replaced.\<close>

definition connect_router :: "route list" where
  "connect_router = []"

definition subscription_plans :: "app_error + unit" where
  "subscription_plans = Inl (not_implemented ''Mizan Connect plans & billing is coming in a future release.'')"

definition snaptrade_router :: "route list" where
  "snaptrade_router =
     [(''/sync/snaptrade/callback'', Get, SnaptradeCallback),
      (''/sync/brokerage/login-portal'', Post, LoginPortal),
      (''/sync/brokerage/connections'', Get, ListConnections),
      (''/sync/brokerage/connections/:id/refresh'', Post, RefreshConnection),
      (''/sync/brokerage/connections/:id'', Delete, DeleteConnection),
      (''/sync/brokerage/accounts'', Get, ListAccounts),
      (''/sync/brokerage/accounts/:account_id/holdings'', Get, AccountHoldings),
      (''/sync/brokerage/accounts/:account_id/activities'', Get, AccountActivities)]"

text \<open>
  \<open>Router::route\<close>, \<open>merge\<close> and \<open>nest\<close>.  A second handler for the same path and method makes
  the router panic when it is built (\<open>None\<close>).
\<close>

definition add_route :: "route \<Rightarrow> route list \<Rightarrow> route list option" where
  "add_route r rs =
     (if list_ex (\<lambda>q. fst q = fst r \<and> fst (snd q) = fst (snd r)) rs then None else Some (rs @ [r]))"

fun merge :: "route list \<Rightarrow> route list \<Rightarrow> route list option" where
  "merge rs [] = Some rs"
| "merge rs (q # qs) = Option.bind (add_route q rs) (\<lambda>rs'. merge rs' qs)"

definition nest :: "string \<Rightarrow> route list \<Rightarrow> route list" where
  "nest prefix rs = map (\<lambda>(p, v, e). (prefix @ p, v, e)) rs"

definition v1_routes :: "route list option" where
  "v1_routes =
     Option.bind (merge [] users_router) (\<lambda>r1. Option.bind (merge r1 teams_router) (\<lambda>r2.
       merge r2 billing_router))"

definition api_v1_routes :: "route list option" where
  "api_v1_routes =
     Option.bind (merge [] users_router) (\<lambda>r1.
     Option.bind (add_route (''/user/me'', Get, GetMe) r1) (\<lambda>r2.
     Option.bind (merge r2 teams_router) (\<lambda>r3.
     Option.bind (merge r3 plans_router) (\<lambda>r4.
     Option.bind (merge r4 billing_router) (\<lambda>r5.
       merge r5 snaptrade_router)))))"

definition app_routes :: "route list option" where
  "app_routes =
     Option.bind v1_routes (\<lambda>v1. Option.bind api_v1_routes (\<lambda>api_v1.
     Option.bind (merge [] health_router) (\<lambda>r1.
     Option.bind (merge r1 (nest ''/v1'' v1)) (\<lambda>r2.
       merge r2 (nest ''/api/v1'' api_v1)))))"

text \<open>Merging the router of \<open>connect\<close> would change nothing.\<close>

lemma merge_connect: "merge rs connect_router = Some rs"
  by (simp add: connect_router_def)

subsection \<open>Dispatch\<close>

text \<open>A path is split at its slashes; a parameter stands for one non-empty segment.\<close>

definition segment_matches :: "string \<Rightarrow> string \<Rightarrow> bool" where
  "segment_matches p s \<longleftrightarrow> (case p of [] \<Rightarrow> s = [] | c # _ \<Rightarrow> if c = CHR '':'' then s \<noteq> [] else s = p)"

definition path_matches :: "string \<Rightarrow> string \<Rightarrow> bool" where
  "path_matches pattern path \<longleftrightarrow>
     list_all2 segment_matches (split_char (CHR ''/'') pattern) (split_char (CHR ''/'') path)"

text \<open>A handler for \<open>GET\<close> also answers \<open>HEAD\<close>.\<close>

definition verb_accepts :: "verb \<Rightarrow> verb \<Rightarrow> bool" where
  "verb_accepts v r \<longleftrightarrow> r = v \<or> v = Get \<and> r = Head"

definition route_request :: "route list \<Rightarrow> verb \<Rightarrow> string \<Rightarrow> nat + endpoint" where
  "route_request rs v path =
     (case filter (\<lambda>r. path_matches (fst r) path) rs of
        [] \<Rightarrow> Inl 404
      | qs \<Rightarrow>
          (case find (\<lambda>r. verb_accepts (fst (snd r)) v) qs of
             None \<Rightarrow> Inl 405
           | Some r \<Rightarrow> Inr (snd (snd r))))"

text \<open>Whether the handler takes an \<open>AuthenticatedUser\<close>.\<close>

fun takes_user :: "endpoint \<Rightarrow> bool" where
  "takes_user Health = False"
| "takes_user Ready = False"
| "takes_user GetInvite = False"
| "takes_user ReceiveWebhook = False"
| "takes_user ListPlans = False"
| "takes_user SnaptradeCallback = False"
| "takes_user _ = True"

definition error_response :: "string option \<Rightarrow> app_error \<Rightarrow> wire_response" where
  "error_response task e =
     (case into_response task e of (st, body) \<Rightarrow>
        \<lparr>rs_status = st, rs_headers = header_insert ''content-type'' ''application/json'' (\<lambda>_. []),
         rs_body = ErrorBody body\<rparr>)"

type_synonym handlers =
  "endpoint \<Rightarrow> user option \<Rightarrow> string option \<Rightarrow> wire_request \<Rightarrow> world \<Rightarrow> wire_response \<times> world"

text \<open>
  The router with its state: the extractor runs before anything else of the handler.  \<open>auth\<close> is
  the extractor on the value of the \<open>Authorization\<close> header.
\<close>

definition serve ::
  "('c, 'g) http_env \<Rightarrow> route list \<Rightarrow> (string option option \<Rightarrow> (app_error, user) action) \<Rightarrow> handlers \<Rightarrow> service"
where
  "serve x rs auth handle task req w =
     (case route_request rs (rq_verb req) (rq_path req) of
        Inl st \<Rightarrow> (empty_reply x st, w)
      | Inr ep \<Rightarrow>
          if takes_user ep then
            (case auth (map_option header_to_str (header_get (rq_headers req) ''authorization'')) w of
               (Inl e, w') \<Rightarrow> (error_response task e, w')
             | (Inr u, w') \<Rightarrow> handle ep (Some u) task req w')
          else handle ep None task req w)"

subsection \<open>The stack\<close>

definition MAX_BODY_BYTES :: nat where
  "MAX_BODY_BYTES = 1024 * 1024"

text \<open>What is inside of the request id layer.\<close>

definition inner_app ::
  "('c, 'g) http_env \<Rightarrow> config \<Rightarrow> 'g \<Rightarrow> service \<Rightarrow> service" where
  "inner_app x c g router =
     timeout_layer x (body_limit_layer x MAX_BODY_BYTES (governor_layer x g (cors_layer x (build_cors x c)
       (security_stack x (security_layers (cfg_app_env c)) router))))"

definition build_app ::
  "('c, 'g) http_env \<Rightarrow> config \<Rightarrow> string \<Rightarrow> string \<Rightarrow> (string option option \<Rightarrow> (app_error, user) action) \<Rightarrow>
   handlers \<Rightarrow> service option" where
  "build_app x c fresh fresh2 auth handle =
     Option.bind (build_rate_limiter_config x c) (\<lambda>g. Option.bind app_routes (\<lambda>rs.
       Some (sentry_http_layer x (new_sentry_layer x (trace_layer x
         (request_id_layer fresh fresh2 (inner_app x c g (serve x rs auth handle))))))))"

subsection \<open>The table\<close>

text \<open>What building the router comes to: no route collides with another.\<close>

definition route_table :: "route list" where
  "route_table =
     health_router @
     nest ''/v1'' (users_router @ teams_router @ billing_router) @
     nest ''/api/v1'' (users_router @ [(''/user/me'', Get, GetMe)] @ teams_router @ plans_router @
       billing_router @ snaptrade_router)"

lemma app_routes_table: "app_routes = Some route_table"
  by code_simp

definition public_routes :: "(string \<times> verb) list" where
  "public_routes =
     [(''/health'', Get), (''/ready'', Get),
      (''/v1/invites/:token'', Get), (''/v1/stripe/webhook'', Post),
      (''/api/v1/invites/:token'', Get), (''/api/v1/subscription/plans'', Get),
      (''/api/v1/stripe/webhook'', Post), (''/api/v1/sync/snaptrade/callback'', Get)]"

lemma public_routes_exact:
  "map (\<lambda>(p, v, e). (p, v)) (filter (\<lambda>(p, v, e). \<not> takes_user e) route_table) = public_routes"
  by code_simp

text \<open>Two patterns overlap if they agree segment by segment.\<close>

definition segments_overlap :: "string \<Rightarrow> string \<Rightarrow> bool" where
  "segments_overlap p q \<longleftrightarrow>
     (case (p, q) of
        ([], []) \<Rightarrow> True
      | ([], _ # _) \<Rightarrow> False
      | (_ # _, []) \<Rightarrow> False
      | (a # _, b # _) \<Rightarrow> a = CHR '':'' \<or> b = CHR '':'' \<or> p = q)"

definition paths_overlap :: "string \<Rightarrow> string \<Rightarrow> bool" where
  "paths_overlap p q \<longleftrightarrow>
     list_all2 segments_overlap (split_char (CHR ''/'') p) (split_char (CHR ''/'') q)"

fun no_overlaps :: "route list \<Rightarrow> bool" where
  "no_overlaps [] \<longleftrightarrow> True"
| "no_overlaps (r # rs) \<longleftrightarrow>
     list_all (\<lambda>q. fst (snd q) \<noteq> fst (snd r) \<or> \<not> paths_overlap (fst r) (fst q)) rs \<and> no_overlaps rs"

lemma route_table_no_overlaps: "no_overlaps route_table"
  by code_simp

lemma route_table_verbs: "(p, v, e) \<in> set route_table \<Longrightarrow> v \<noteq> Head"
proof -
  have "list_all (\<lambda>(p, v, e). v \<noteq> Head) route_table" by code_simp
  then show "(p, v, e) \<in> set route_table \<Longrightarrow> v \<noteq> Head" by (auto simp: list_all_iff)
qed

lemma matching_segments_overlap:
  "segment_matches p s \<Longrightarrow> segment_matches q s \<Longrightarrow> segments_overlap p q"
  by (auto simp: segment_matches_def segments_overlap_def split: list.splits if_splits)

lemma list_all2_common:
  "list_all2 P ps ss \<Longrightarrow> list_all2 P qs ss \<Longrightarrow> (\<And>p q s. P p s \<Longrightarrow> P q s \<Longrightarrow> R p q) \<Longrightarrow> list_all2 R ps qs"
  by (auto simp: list_all2_conv_all_nth)

lemma matching_paths_overlap: "path_matches p s \<Longrightarrow> path_matches q s \<Longrightarrow> paths_overlap p q"
  unfolding path_matches_def paths_overlap_def
  by (erule (1) list_all2_common) (rule matching_segments_overlap)

definition route_hit :: "verb \<Rightarrow> string \<Rightarrow> route \<Rightarrow> bool" where
  "route_hit v path r \<longleftrightarrow> path_matches (fst r) path \<and> verb_accepts (fst (snd r)) v"

lemma no_overlaps_hit:
  assumes "no_overlaps rs" "\<forall>r\<in>set rs. fst (snd r) \<noteq> Head"
  shows "length (filter (route_hit v path) rs) \<le> 1"
  using assms
proof (induction rs)
  case (Cons r rs)
  show ?case
  proof (cases "route_hit v path r")
    case True
    have "\<not> route_hit v path q" if "q \<in> set rs" for q
    proof
      assume q: "route_hit v path q"
      then have "paths_overlap (fst r) (fst q)"
        using True by (auto simp: route_hit_def intro: matching_paths_overlap)
      moreover have "fst (snd q) = fst (snd r)"
        using q True Cons.prems(2) that by (auto simp: route_hit_def verb_accepts_def)
      ultimately show False using Cons.prems(1) that by (auto simp: list_all_iff)
    qed
    then show ?thesis using True by (simp add: filter_empty_conv)
  qed (use Cons in simp)
qed simp

lemma route_request_Inr:
  assumes "route_request rs v path = Inr ep"
  shows "\<exists>p u. (p, u, ep) \<in> set rs \<and> path_matches p path \<and> verb_accepts u v"
proof -
  from assms obtain r where
    "find (\<lambda>r. verb_accepts (fst (snd r)) v) (filter (\<lambda>r. path_matches (fst r) path) rs) = Some r"
    "ep = snd (snd r)"
    by (cases "filter (\<lambda>r. path_matches (fst r) path) rs")
      (auto simp: route_request_def split: option.splits)
  then have "r \<in> set rs \<and> path_matches (fst r) path \<and> verb_accepts (fst (snd r)) v \<and> snd (snd r) = ep"
    by (auto dest: find_Some_iff_set)
  then show ?thesis by (metis prod.collapse)
qed

lemma upsert_failed_keeps:
  assumes "upsert_user_from_claims x row_id now cl w = (Inl e, w')"
  shows "db w' = db w"
proof -
  have sql: "snd (upsert_user_sql sid a d) = d" if "fst (upsert_user_sql sid a d) = Inl e'" for sid a d e'
    using that by (auto simp: upsert_user_sql_def split: option.splits if_splits)
  have "db w2 = db w1" if "query (upsert_user_sql sid a) w1 = (Inl e', w2)" for sid a w1 e' w2
    using that sql [of sid a "db w1" e']
    by (auto simp: query_def split: list.splits bool.splits prod.splits)
  with assms show ?thesis
    by (auto simp: upsert_user_from_claims_def act_simps map_err_def split: sum.splits prod.splits)
qed

lemma authenticate_failed_keeps:
  assumes "fst (authenticate x c now reply row_id header st) w = (Inl e, w')"
  shows "db w' = db w"
  using assms by (auto simp: authenticate_def throw_def split: option.splits sum.splits prod.splits
      dest: upsert_failed_keeps)

lemma filter_at_most_one:
  assumes "length (filter P xs) \<le> 1" "a \<in> set xs" "P a" "b \<in> set xs" "P b"
  shows "a = b"
proof -
  from assms(2-5) have "a \<in> set (filter P xs)" "b \<in> set (filter P xs)" by auto
  with assms(1) show ?thesis by (cases "filter P xs") auto
qed

lemma route_table_hit_unique:
  assumes "q \<in> set route_table" "route_hit v path q" "r \<in> set route_table" "route_hit v path r"
  shows "q = r"
proof (rule filter_at_most_one [OF _ assms])
  show "length (filter (route_hit v path) route_table) \<le> 1"
    using route_table_verbs by (intro no_overlaps_hit [OF route_table_no_overlaps]) force
qed

text \<open>Every request that fits a route of the table reaches the handler of that route and no
  other.\<close>

theorem routing_exact:
  "route_request route_table v path = Inr e \<longleftrightarrow>
     (\<exists>p u. (p, u, e) \<in> set route_table \<and> path_matches p path \<and> verb_accepts u v)"
proof
  assume "\<exists>p u. (p, u, e) \<in> set route_table \<and> path_matches p path \<and> verb_accepts u v"
  then obtain p u where r: "(p, u, e) \<in> set route_table" "path_matches p path" "verb_accepts u v"
    by blast
  let ?fits = "filter (\<lambda>r. path_matches (fst r) path) route_table"
  have fit: "(p, u, e) \<in> set ?fits" using r by simp
  moreover obtain q where q: "find (\<lambda>r. verb_accepts (fst (snd r)) v) ?fits = Some q"
    using r fit by (cases "find (\<lambda>r. verb_accepts (fst (snd r)) v) ?fits") (force simp: find_None_iff)+
  ultimately have "route_request route_table v path = Inr (snd (snd q))"
    by (cases ?fits) (simp_all add: route_request_def)
  moreover have "q = (p, u, e)"
    using r find_Some_iff_set [OF q] by (intro route_table_hit_unique [of _ v path]) (auto simp: route_hit_def)
  ultimately show "route_request route_table v path = Inr e" by simp
qed (rule route_request_Inr)

text \<open>What the router answers carries the security headers, in production with HSTS.\<close>

theorem router_responses_hardened:
  assumes "overriding_law x" "security_stack x (security_layers e) svc task req w = (r, w')"
  shows "rs_headers r ''x-content-type-options'' = [''nosniff''] \<and>
     rs_headers r ''x-frame-options'' = [''DENY''] \<and>
     rs_headers r ''referrer-policy'' = [''strict-origin-when-cross-origin''] \<and>
     rs_headers r ''x-permitted-cross-domain-policies'' = [''none''] \<and>
     (e = Production \<longrightarrow>
        rs_headers r ''strict-transport-security'' = [''max-age=63072000; includeSubDomains; preload''])"
proof -
  have "set_overriding x n v s t q u =
      (case s t q u of (r, w') \<Rightarrow> (r\<lparr>rs_headers := header_insert n v (rs_headers r)\<rparr>, w'))" for n v s t q u
    using assms(1) by (simp add: overriding_law_def)
  with assms(2) show ?thesis
    by (auto simp: security_stack_def security_layers_def Let_def is_production_def split: prod.splits if_splits)
qed

subsection \<open>Properties\<close>

text \<open>C38: every response is identified.  The application is built without a panic; whatever a
  layer or a handler answers, the response carries one request id of 1 to 64 safe characters,
  the same id that the handlers (and the error bodies they produce) see, and it is the id of the
  client if that is acceptable.\<close>

theorem every_response_identified:
  assumes "governor_law x" "uuid_text fresh" "transparent (trace_layer x)"
    "transparent (new_sentry_layer x)" "transparent (sentry_http_layer x)"
  shows "\<exists>g app rid. build_rate_limiter_config x c = Some g \<and>
     build_app x c fresh fresh2 auth handle = Some app \<and>
     1 \<le> length rid \<and> length rid \<le> 64 \<and> (\<forall>ch\<in>set rid. is_safe_id_char ch) \<and>
     (\<forall>v. header_get (rq_headers req) ''x-request-id'' = Some v \<and> acceptable_id v \<longrightarrow> rid = v) \<and>
     app task req w =
       (case inner_app x c g (serve x route_table auth handle) (Some rid)
          (req\<lparr>rq_headers := header_insert ''x-request-id'' rid (rq_headers req)\<rparr>) w of
          (r, w') \<Rightarrow> (r\<lparr>rs_headers := header_insert ''x-request-id'' rid (rs_headers r)\<rparr>, w'))"
proof -
  obtain g where g: "build_rate_limiter_config x c = Some g"
    using rate_limiter_built [OF assms(1), of c] by blast
  define rid where "rid = extract_or_generate fresh (rq_headers req)"
  have ok: "1 \<le> length rid" "length rid \<le> 64" "\<forall>ch\<in>set rid. is_safe_id_char ch"
    using extract_or_generate_acceptable [OF assms(2), of "rq_headers req"]
    by (auto simp: rid_def acceptable_id_def MAX_LEN_def list_all_iff Suc_le_eq)
  have own: "\<forall>v. header_get (rq_headers req) ''x-request-id'' = Some v \<and> acceptable_id v \<longrightarrow> rid = v"
    using extract_keeps_client_id by (simp add: rid_def REQUEST_ID_HEADER_def)
  let ?in = "inner_app x c g (serve x route_table auth handle)"
  have built: "build_app x c fresh fresh2 auth handle =
      Some (sentry_http_layer x (new_sentry_layer x (trace_layer x (request_id_layer fresh fresh2 ?in))))"
    by (simp add: build_app_def g app_routes_table)
  show ?thesis
    using g built ok own assms(3-5)
    by (intro exI [of _ g] exI [of _ "sentry_http_layer x (new_sentry_layer x (trace_layer x
        (request_id_layer fresh fresh2 ?in)))"] exI [of _ rid])
      (simp add: transparent_def request_id_layer_eq [OF assms(2)] rid_def REQUEST_ID_HEADER_def Let_def)
qed

text \<open>C14: nothing but the public routes is served without a valid token.  If the extractor fails,
  a request outside of the eight public routes - liveness and readiness, the plan list, an
  invite's public view, and the Stripe webhook and SnapTrade callback, which carry their own
  proof - gets 404, 405 or the extractor's error; no handler runs, and the database is as
  before.\<close>

theorem unauthenticated_request_rejected:
  assumes "fst (authenticate ax c now reply row_id
      (map_option header_to_str (header_get (rq_headers req) ''authorization'')) st) w = (Inl e, w')"
    and "\<forall>(p, v)\<in>set public_routes. \<not> (path_matches p (rq_path req) \<and> verb_accepts v (rq_verb req))"
  shows "\<exists>rs. app_routes = Some rs \<and>
     serve x rs (\<lambda>h. fst (authenticate ax c now reply row_id h st)) handle task req w \<in>
       {(empty_reply x 404, w), (empty_reply x 405, w), (error_response task e, w')} \<and> db w' = db w"
proof -
  have "takes_user ep" if r: "route_request route_table (rq_verb req) (rq_path req) = Inr ep" for ep
  proof (rule ccontr)
    assume "\<not> takes_user ep"
    moreover obtain p u where "(p, u, ep) \<in> set route_table" "path_matches p (rq_path req)"
      "verb_accepts u (rq_verb req)"
      using route_request_Inr [OF r] by blast
    ultimately show False
      using assms(2) by (fastforce simp: public_routes_exact [symmetric])
  qed
  moreover have "s \<in> {404, 405}" if "route_request route_table v path = Inl s" for v path s
    using that by (auto simp: route_request_def split: list.splits option.splits)
  ultimately show ?thesis
    using assms(1) authenticate_failed_keeps [OF assms(1)]
    by (fastforce simp: app_routes_table serve_def split: sum.splits)
qed

definition sample_get :: "string \<Rightarrow> header_map \<Rightarrow> wire_request" where
  "sample_get path h = \<lparr>rq_verb = Get, rq_path = path, rq_query = [], rq_headers = h, rq_body = []\<rparr>"

definition no_handlers :: handlers where
  "no_handlers ep u task req w = (empty_reply sample_http 501, w)"

definition sample_uuid_text :: string where
  "sample_uuid_text = ''67e55044-10b1-426f-9247-bb680e5fe0c8''"

theorem every_response_identified_witness:
  "\<exists>app. build_app sample_http sample_config sample_uuid_text sample_uuid_text
       (\<lambda>_. throw (unauthorized [])) no_handlers = Some app \<and>
     rs_headers (fst (app None (sample_get ''/nowhere'' ((\<lambda>_. [])(''x-request-id'' := [''req-1'']))) 
       \<lparr>db = empty_database 6, faults = []\<rparr>)) ''x-request-id'' = [''req-1'']"
proof -
  let ?req = "sample_get ''/nowhere'' ((\<lambda>_. [])(''x-request-id'' := [''req-1'']))"
  let ?auth = "\<lambda>_ :: string option option. throw (unauthorized []) :: (app_error, user) action"
  let ?w = "\<lparr>db = empty_database 6, faults = []\<rparr> :: world"
  have u: "uuid_text sample_uuid_text" and a: "acceptable_id ''req-1''"
    by code_simp+
  have h: "header_get (rq_headers ?req) ''x-request-id'' = Some ''req-1''"
    by (simp add: sample_get_def header_get_def)
  from every_response_identified [OF sample_http_laws(3) u sample_http_laws(4-6),
      where req = ?req and auth = ?auth and handle = no_handlers and c = sample_config
        and task = None and w = ?w and ?fresh2.0 = sample_uuid_text]
  obtain g app rid where app:
    "build_app sample_http sample_config sample_uuid_text sample_uuid_text ?auth no_handlers = Some app"
    "\<forall>v. header_get (rq_headers ?req) ''x-request-id'' = Some v \<and> acceptable_id v \<longrightarrow> rid = v"
    "app None ?req ?w =
       (case inner_app sample_http sample_config g (serve sample_http route_table ?auth no_handlers) (Some rid)
          (?req\<lparr>rq_headers := header_insert ''x-request-id'' rid (rq_headers ?req)\<rparr>) ?w of
          (r, w') \<Rightarrow> (r\<lparr>rs_headers := header_insert ''x-request-id'' rid (rs_headers r)\<rparr>, w'))"
    by blast
  from app(2) h a have "rid = ''req-1''" by blast
  with app(1,3) show ?thesis by (auto split: prod.splits)
qed

text \<open>A profile request without a token gets the error of the extractor, its id included.\<close>

theorem unauthenticated_request_rejected_witness:
  "serve sample_http route_table
     (\<lambda>h. fst (authenticate sample_auth sample_config 0 (Inl []) 1 h empty_cache)) no_handlers
     (Some ''req-1'') (sample_get ''/v1/me'' (\<lambda>_. [])) \<lparr>db = empty_database 6, faults = []\<rparr> =
   (error_response (Some ''req-1'') (unauthorized ''missing Authorization header''),
    \<lparr>db = empty_database 6, faults = []\<rparr>)"
proof -
  let ?w = "\<lparr>db = empty_database 6, faults = []\<rparr> :: world"
  let ?req = "sample_get ''/v1/me'' (\<lambda>_. [])"
  have "fst (authenticate sample_auth sample_config 0 (Inl []) 1
      (map_option header_to_str (header_get (rq_headers ?req) ''authorization'')) empty_cache) ?w =
      (Inl (unauthorized ''missing Authorization header''), ?w)"
    by (simp add: sample_get_def header_get_def authenticate_def throw_def)
  moreover have "list_all (\<lambda>(p, v). \<not> (path_matches p ''/v1/me'' \<and> verb_accepts v Get)) public_routes"
    by code_simp
  then have "\<forall>(p, v)\<in>set public_routes. \<not> (path_matches p (rq_path ?req) \<and> verb_accepts v (rq_verb ?req))"
    by (simp add: sample_get_def list_all_iff)
  ultimately have "serve sample_http route_table
     (\<lambda>h. fst (authenticate sample_auth sample_config 0 (Inl []) 1 h empty_cache)) no_handlers
     (Some ''req-1'') ?req ?w \<in> {(empty_reply sample_http 404, ?w), (empty_reply sample_http 405, ?w),
       (error_response (Some ''req-1'') (unauthorized ''missing Authorization header''), ?w)}"
    using unauthenticated_request_rejected [where x = sample_http and ax = sample_auth
        and c = sample_config and now = 0 and reply = "Inl []" and row_id = 1 and req = ?req
        and st = empty_cache and w = ?w and handle = no_handlers and task = "Some ''req-1''"]
    by (fastforce simp: app_routes_table)
  moreover have "route_request route_table Get ''/v1/me'' = Inr GetMe" by code_simp
  ultimately show ?thesis
    by (simp add: serve_def sample_get_def header_get_def authenticate_def throw_def)
qed

end
