(* ===== verification/Billing_Catalog.thy ===== *)
theory Billing_Catalog
  imports Rust_Prelude
begin

text \<open>
  The pure tables of the billing module: Stripe prices (\<^verbatim>\<open>src/billing/prices.rs\<close>), the
  tier-to-entitlements matrix (\<^verbatim>\<open>src/billing/entitlements.rs\<close>) and the AI credit costs
  (\<^verbatim>\<open>src/billing/credits.rs\<close>).
\<close>

subsection \<open>Plans, intervals and prices\<close>

datatype checkout_plan = Basic | Pro | Enterprise

datatype billing_interval = Monthly | Yearly

definition parse_plan :: "string \<Rightarrow> string + checkout_plan" where
  "parse_plan s =
     (let t = to_ascii_lowercase (trim s) in
      if t = ''basic'' then Inr Basic
      else if t = ''pro'' then Inr Pro
      else if t = ''enterprise'' then Inr Enterprise
      else Inl (''unknown plan: '' @ t))"

definition parse_interval :: "string \<Rightarrow> string + billing_interval" where
  "parse_interval s =
     (let t = to_ascii_lowercase (trim s) in
      if t = ''monthly'' \<or> t = ''month'' then Inr Monthly
      else if t = ''yearly'' \<or> t = ''year'' \<or> t = ''annual'' then Inr Yearly
      else Inl (''unknown interval: '' @ t))"

record stripe_prices =
  basic_monthly :: string
  basic_yearly :: string
  pro_monthly :: string
  pro_yearly :: string
  enterprise_monthly :: string
  enterprise_yearly :: string

fun price_slot :: "stripe_prices \<Rightarrow> checkout_plan \<Rightarrow> billing_interval \<Rightarrow> string" where
  "price_slot ps Basic Monthly = basic_monthly ps"
| "price_slot ps Basic Yearly = basic_yearly ps"
| "price_slot ps Pro Monthly = pro_monthly ps"
| "price_slot ps Pro Yearly = pro_yearly ps"
| "price_slot ps Enterprise Monthly = enterprise_monthly ps"
| "price_slot ps Enterprise Yearly = enterprise_yearly ps"

definition lookup_price :: "stripe_prices \<Rightarrow> checkout_plan \<Rightarrow> billing_interval \<Rightarrow> string option" where
  "lookup_price ps plan interval =
     (let raw = price_slot ps plan interval in if raw = [] then None else Some raw)"

definition plan_for :: "stripe_prices \<Rightarrow> string \<Rightarrow> checkout_plan option" where
  "plan_for ps price_id =
     (if price_id = basic_monthly ps \<or> price_id = basic_yearly ps then Some Basic
      else if price_id = pro_monthly ps \<or> price_id = pro_yearly ps then Some Pro
      else if price_id = enterprise_monthly ps \<or> price_id = enterprise_yearly ps
      then Some Enterprise
      else None)"

fun plan_slug :: "checkout_plan \<Rightarrow> string" where
  "plan_slug Basic = ''basic''"
| "plan_slug Pro = ''pro''"
| "plan_slug Enterprise = ''enterprise''"

text \<open>No Price ID is configured for two plans, the empty (not for sale) slot apart.\<close>

definition prices_distinct :: "stripe_prices \<Rightarrow> bool" where
  "prices_distinct ps \<longleftrightarrow>
     (\<forall>p q i j. price_slot ps p i = price_slot ps q j \<longrightarrow> price_slot ps p i \<noteq> [] \<longrightarrow> p = q)"

lemma plan_for_Some:
  "plan_for ps x = Some p \<Longrightarrow> \<exists>i. price_slot ps p i = x"
  by (auto simp: plan_for_def split: if_splits intro: exI [of _ Monthly] exI [of _ Yearly])

lemma plan_for_slot: "\<exists>q. plan_for ps (price_slot ps p i) = Some q"
  by (cases p; cases i) (auto simp: plan_for_def)

lemma lookup_then_plan_for:
  assumes "prices_distinct ps" "lookup_price ps p i = Some x"
  shows "plan_for ps x = Some p"
proof -
  from assms(2) have x: "x = price_slot ps p i" "x \<noteq> []"
    by (auto simp: lookup_price_def Let_def split: if_splits)
  with plan_for_slot obtain q where q: "plan_for ps x = Some q" by blast
  with plan_for_Some obtain j where "price_slot ps q j = x" by blast
  with x assms(1) have "q = p" by (metis prices_distinct_def)
  with q show ?thesis by simp
qed

lemma parse_plan_slug [simp]: "parse_plan (plan_slug p) = Inr p"
  by (cases p) (simp_all add: parse_plan_def str_simps)

subsection \<open>Entitlements\<close>

definition UNLIMITED :: int where
  "UNLIMITED = - 1"

record entitlements =
  ent_plan :: string
  max_portfolios :: int
  max_holdings :: int
  max_asset_classes :: int
  broker_sync :: bool
  max_broker_connections :: int
  device_sync :: bool
  cloud_backup :: bool
  managed_ai :: bool
  ai_credits_monthly :: int
  news_daily_limit :: int
  market_refresh_daily_limit :: int
  csv_imports_monthly :: int
  advanced_reports :: bool
  advisor_mode :: bool

definition free_entitlements :: entitlements where
  "free_entitlements =
     \<lparr>ent_plan = ''free'', max_portfolios = 1, max_holdings = 20, max_asset_classes = 2,
      broker_sync = False, max_broker_connections = 0, device_sync = False,
      cloud_backup = False, managed_ai = False, ai_credits_monthly = 0,
      news_daily_limit = 3, market_refresh_daily_limit = 5, csv_imports_monthly = 1,
      advanced_reports = False, advisor_mode = False\<rparr>"

definition basic_entitlements :: entitlements where
  "basic_entitlements =
     \<lparr>ent_plan = ''basic'', max_portfolios = 5, max_holdings = 250,
      max_asset_classes = UNLIMITED, broker_sync = False, max_broker_connections = 0,
      device_sync = True, cloud_backup = True, managed_ai = True, ai_credits_monthly = 300,
      news_daily_limit = UNLIMITED, market_refresh_daily_limit = 50, csv_imports_monthly = 20,
      advanced_reports = False, advisor_mode = False\<rparr>"

definition pro_entitlements :: "string \<Rightarrow> entitlements" where
  "pro_entitlements slug =
     \<lparr>ent_plan = slug, max_portfolios = 25, max_holdings = UNLIMITED,
      max_asset_classes = UNLIMITED, broker_sync = True, max_broker_connections = 5,
      device_sync = True, cloud_backup = True, managed_ai = True, ai_credits_monthly = 1500,
      news_daily_limit = UNLIMITED, market_refresh_daily_limit = UNLIMITED,
      csv_imports_monthly = UNLIMITED, advanced_reports = True, advisor_mode = False\<rparr>"

definition enterprise_entitlements :: "string \<Rightarrow> entitlements" where
  "enterprise_entitlements slug =
     \<lparr>ent_plan = slug, max_portfolios = UNLIMITED, max_holdings = UNLIMITED,
      max_asset_classes = UNLIMITED, broker_sync = True, max_broker_connections = UNLIMITED,
      device_sync = True, cloud_backup = True, managed_ai = True,
      ai_credits_monthly = UNLIMITED, news_daily_limit = UNLIMITED,
      market_refresh_daily_limit = UNLIMITED, csv_imports_monthly = UNLIMITED,
      advanced_reports = True, advisor_mode = True\<rparr>"

definition entitlements_for :: "string option \<Rightarrow> string option \<Rightarrow> entitlements" where
  "entitlements_for tier status =
     (if \<not> (status = Some ''active'' \<or> status = Some ''trialing'') then free_entitlements
      else
        (case map_option to_ascii_lowercase tier of
           None \<Rightarrow> free_entitlements
         | Some slug \<Rightarrow>
             if slug = ''free'' then free_entitlements
             else if slug = ''basic'' then basic_entitlements
             else if slug = ''enterprise'' \<or> slug = ''advisor''
             then enterprise_entitlements slug
             else pro_entitlements slug))"

text \<open>The value of a numeric quota, with the sentinel above every limit.\<close>

definition quota_le :: "int \<Rightarrow> int \<Rightarrow> bool" where
  "quota_le a b \<longleftrightarrow> b = UNLIMITED \<or> a \<noteq> UNLIMITED \<and> a \<le> b"

text \<open>\<open>b\<close> grants everything \<open>a\<close> does.\<close>

definition ent_le :: "entitlements \<Rightarrow> entitlements \<Rightarrow> bool" where
  "ent_le a b \<longleftrightarrow>
     quota_le (max_portfolios a) (max_portfolios b) \<and>
     quota_le (max_holdings a) (max_holdings b) \<and>
     quota_le (max_asset_classes a) (max_asset_classes b) \<and>
     quota_le (max_broker_connections a) (max_broker_connections b) \<and>
     quota_le (ai_credits_monthly a) (ai_credits_monthly b) \<and>
     quota_le (news_daily_limit a) (news_daily_limit b) \<and>
     quota_le (market_refresh_daily_limit a) (market_refresh_daily_limit b) \<and>
     quota_le (csv_imports_monthly a) (csv_imports_monthly b) \<and>
     (broker_sync a \<longrightarrow> broker_sync b) \<and> (device_sync a \<longrightarrow> device_sync b) \<and>
     (cloud_backup a \<longrightarrow> cloud_backup b) \<and> (managed_ai a \<longrightarrow> managed_ai b) \<and>
     (advanced_reports a \<longrightarrow> advanced_reports b) \<and> (advisor_mode a \<longrightarrow> advisor_mode b)"

lemmas ent_defs =
  free_entitlements_def basic_entitlements_def pro_entitlements_def
  enterprise_entitlements_def UNLIMITED_def

lemma entitlements_for_cases:
  obtains (free) "entitlements_for tier status = free_entitlements"
  | (basic) "entitlements_for tier status = basic_entitlements"
  | (pro) slug where "entitlements_for tier status = pro_entitlements slug"
  | (enterprise) slug where "entitlements_for tier status = enterprise_entitlements slug"
proof (cases "status = Some ''active'' \<or> status = Some ''trialing''")
  case False
  then show thesis by (intro free) (simp add: entitlements_for_def)
next
  case active: True
  show thesis
  proof (cases tier)
    case None
    with active show thesis by (intro free) (simp add: entitlements_for_def)
  next
    case (Some t)
    consider "to_ascii_lowercase t = ''free''" | "to_ascii_lowercase t = ''basic''"
      | "to_ascii_lowercase t \<in> {''enterprise'', ''advisor''}"
      | "to_ascii_lowercase t \<notin> {''free'', ''basic'', ''enterprise'', ''advisor''}"
      by blast
    then show thesis
      by cases (use active Some free basic pro enterprise in \<open>auto simp: entitlements_for_def\<close>)
  qed
qed

lemma entitlements_for_managed_ai:
  "managed_ai (entitlements_for tier status) \<longleftrightarrow>
     (status = Some ''active'' \<or> status = Some ''trialing'') \<and>
     (\<exists>t. tier = Some t \<and> to_ascii_lowercase t \<noteq> ''free'')"
  by (auto simp: entitlements_for_def ent_defs split: option.splits)

lemma ai_credits_monthly_values:
  "ai_credits_monthly (entitlements_for tier status) \<in> {0, 300, 1500, UNLIMITED}"
  by (cases rule: entitlements_for_cases [of tier status]) (simp_all add: ent_defs)

subsection \<open>AI credits\<close>

datatype request_kind = Simple | Analysis | CsvMapping | MonthlyReport | DeepReport

fun estimated_cost :: "request_kind \<Rightarrow> int" where
  "estimated_cost Simple = 1"
| "estimated_cost Analysis = 5"
| "estimated_cost CsvMapping = 10"
| "estimated_cost MonthlyReport = 25"
| "estimated_cost DeepReport = 50"

text \<open>
  The quotient of two positive integers in \<open>f64\<close>, for quotients below \<open>2 ^ 53\<close>: the scale
  \<open>k\<close> brings it to a 53-bit significand \<open>m\<close>, rounded to nearest with ties to even, and the
  value is \<open>m / 2 ^ k\<close>.
\<close>

function f64_scale :: "nat \<Rightarrow> nat \<Rightarrow> nat \<Rightarrow> nat" where
  "f64_scale n d k =
     (if 0 < n \<and> n * 2 ^ k < 2 ^ 52 * d then f64_scale n d (Suc k) else k)"
  by pat_completeness auto
termination
proof (relation "measure (\<lambda>(n, d, k). 2 ^ 52 * d - n * 2 ^ k)", goal_cases)
  case (2 n d k)
  then have "n * 2 ^ k < n * 2 ^ Suc k" by simp
  with 2 show ?case by (simp add: diff_less_mono2)
qed simp

declare f64_scale.simps [simp del]

definition round_half_even :: "nat \<Rightarrow> nat \<Rightarrow> nat" where
  "round_half_even n d =
     (let q = n div d; r = n mod d in
      if 2 * r < d then q else if d < 2 * r then Suc q else if even q then q else Suc q)"

definition f64_div_ceil :: "nat \<Rightarrow> nat \<Rightarrow> nat" where
  "f64_div_ceil n d =
     (if n = 0 then 0
      else let k = f64_scale n d 0; m = round_half_even (n * 2 ^ k) d
           in (m + 2 ^ k - 1) div 2 ^ k)"

definition credits_for_tokens :: "32 word \<Rightarrow> 32 word \<Rightarrow> int" where
  "credits_for_tokens prompt_tokens completion_tokens =
     (let weighted = unat prompt_tokens + 3 * unat completion_tokens;
          credits = min (2 ^ 31 - 1) (int (f64_div_ceil weighted 1000))
      in max credits 1)"

lemma f64_scale_large: "0 < n \<Longrightarrow> 2 ^ 52 * d \<le> n * 2 ^ f64_scale n d k"
proof (induction n d k rule: f64_scale.induct)
  case (1 n d k)
  then show ?case
    by (cases "n * 2 ^ k < 2 ^ 52 * d") (simp_all add: f64_scale.simps [of n d k])
qed

lemma round_half_even_error:
  assumes "0 < d"
  shows "2 * (d * round_half_even n d) \<le> 2 * n + d" "2 * n \<le> 2 * (d * round_half_even n d) + d"
proof -
  define q r where "q = n div d" and "r = n mod d"
  have n: "n = d * q + r" and r: "r < d" using assms by (simp_all add: q_def r_def)
  have m: "round_half_even n d =
      (if 2 * r < d then q else if d < 2 * r then Suc q else if even q then q else Suc q)"
    by (simp add: round_half_even_def Let_def q_def r_def)
  show "2 * (d * round_half_even n d) \<le> 2 * n + d" "2 * n \<le> 2 * (d * round_half_even n d) + d"
    unfolding m using r by (simp_all add: n)
qed

lemma ceil_div_eqI:
  fixes m K :: nat
  assumes "q * K < m" "m \<le> Suc q * K"
  shows "(m + K - 1) div K = Suc q"
proof (rule div_nat_eqI)
  show "K * Suc q \<le> m + K - 1" using assms(1) by (simp add: algebra_simps)
  show "m + K - 1 < K * Suc (Suc q)" using assms by (cases m) (auto simp: algebra_simps)
qed

text \<open>
  Below \<open>2 ^ 35\<close> the rounding of the quotient never crosses an integer: \<open>ceil\<close> of the
  rounded quotient is the ceiling of the exact one.
\<close>

lemma f64_div_ceil_1000:
  assumes "w < 2 ^ 35"
  shows "f64_div_ceil w 1000 = (w + 999) div 1000"
proof (cases "w = 0")
  case True
  then show ?thesis by (simp add: f64_div_ceil_def)
next
  case False
  define K :: nat where "K = 2 ^ f64_scale w 1000 0"
  define m where "m = round_half_even (w * K) 1000"
  define q r where "q = w div 1000" and "r = w mod 1000"
  have w: "w = 1000 * q + r" "r < 1000" by (simp_all add: q_def r_def)
  have "2 ^ 52 * 1000 \<le> w * K"
    using f64_scale_large [of w 1000 0] False by (simp add: K_def)
  moreover have "w * K \<le> 2 ^ 35 * K" using assms by simp
  ultimately have "2 ^ 52 * 1000 \<le> 2 ^ 35 * K" by linarith
  then have K: "1000 < K" by simp
  have e1: "2 * (1000 * m) \<le> 2 * (w * K) + 1000" and e2: "2 * (w * K) \<le> 2 * (1000 * m) + 1000"
    using round_half_even_error [of 1000 "w * K"] by (simp_all add: m_def)
  have wK: "w * K = 1000 * (q * K) + r * K" by (simp add: w(1) algebra_simps)
  have val: "f64_div_ceil w 1000 = (m + K - 1) div K"
    using False by (simp add: f64_div_ceil_def m_def K_def Let_def)
  show ?thesis
  proof (cases "r = 0")
    case True
    with wK have "w * K = 1000 * (q * K)" by (simp only: mult_0 add_0_right)
    moreover have "round_half_even (1000 * x) 1000 = x" for x
      by (simp add: round_half_even_def)
    ultimately have "m = q * K" by (simp only: m_def)
    then have "(m + K - 1) div K = q" using K
      by (intro div_nat_eqI) (auto simp: algebra_simps)
    with True w val show ?thesis by simp
  next
    case False
    then have "K \<le> r * K" by simp
    with e2 wK K have "q * K < m" by linarith
    moreover have "r * K \<le> 999 * K" using w(2) by simp
    with e1 wK K have "m \<le> q * K + K" by linarith
    then have "m \<le> Suc q * K" by simp
    ultimately have "(m + K - 1) div K = Suc q" by (rule ceil_div_eqI)
    moreover have "(w + 999) div 1000 = Suc q" using w False by simp
    ultimately show ?thesis using val by simp
  qed
qed

lemma weighted_bound:
  "unat (p :: 32 word) + 3 * unat (c :: 32 word) \<le> 17179869180"
  using unsigned_less [of p, where 'a = nat] unsigned_less [of c, where 'a = nat] by simp

lemma credits_for_tokens_bounds:
  "1 \<le> credits_for_tokens p c \<and> credits_for_tokens p c \<le> 17179870"
proof -
  have "f64_div_ceil (unat p + 3 * unat c) 1000 = (unat p + 3 * unat c + 999) div 1000"
    using weighted_bound [of p c] by (intro f64_div_ceil_1000) simp
  also have "\<dots> \<le> 17179870" using weighted_bound [of p c] by simp
  finally show ?thesis by (simp add: credits_for_tokens_def Let_def)
qed

subsection \<open>Properties\<close>

text \<open>The credits charged for a reply are \<open>ceil ((prompt + 3 * completion) / 1000)\<close>, at least
  one: neither the rounding of the \<open>f64\<close> division nor the saturation of the cast is ever
  visible, for any two \<open>u32\<close> token counts.\<close>

theorem credits_for_tokens_exact:
  "credits_for_tokens p c = max 1 (int ((unat p + 3 * unat c + 999) div 1000))"
proof -
  have f: "f64_div_ceil (unat p + 3 * unat c) 1000 = (unat p + 3 * unat c + 999) div 1000"
    using weighted_bound [of p c] by (intro f64_div_ceil_1000) simp
  have "(unat p + 3 * unat c + 999) div 1000 \<le> 17179870"
    using weighted_bound [of p c] by simp
  with f show ?thesis by (simp add: credits_for_tokens_def Let_def)
qed

text \<open>A higher plan grants everything a lower one does, whatever combination of tier and
  status the database holds: the free entitlements are below those of every subscription, and on
  an active or trialing status basic, pro and enterprise form a chain with every other slug at
  the level of pro (an unknown slug) or enterprise (the advisor alias).\<close>

theorem entitlements_monotone:
  "ent_le free_entitlements (entitlements_for tier status) \<and>
   (st \<in> {''active'', ''trialing''} \<longrightarrow>
     ent_le (entitlements_for (Some ''basic'') (Some st)) (entitlements_for (Some ''pro'') (Some st)) \<and>
     ent_le (entitlements_for (Some ''pro'') (Some st)) (entitlements_for (Some ''enterprise'') (Some st)) \<and>
     ent_le (entitlements_for (Some slug) (Some st)) (entitlements_for (Some ''enterprise'') (Some st)))"
proof (intro conjI impI)
  show "ent_le free_entitlements (entitlements_for tier status)"
    by (cases rule: entitlements_for_cases [of tier status])
       (simp_all add: ent_le_def quota_le_def ent_defs)
  have le_top: "ent_le (entitlements_for t s) (enterprise_entitlements e)" for t s e
    by (cases rule: entitlements_for_cases [of t s])
       (simp_all add: ent_le_def quota_le_def ent_defs)
  assume st: "st \<in> {''active'', ''trialing''}"
  then have e: "entitlements_for (Some ''enterprise'') (Some st) = enterprise_entitlements ''enterprise''"
    "entitlements_for (Some ''basic'') (Some st) = basic_entitlements"
    "entitlements_for (Some ''pro'') (Some st) = pro_entitlements ''pro''"
    by (auto simp: entitlements_for_def str_simps)
  show "ent_le (entitlements_for (Some ''basic'') (Some st)) (entitlements_for (Some ''pro'') (Some st))"
    unfolding e by (simp add: ent_le_def quota_le_def ent_defs)
  show "ent_le (entitlements_for (Some ''pro'') (Some st)) (entitlements_for (Some ''enterprise'') (Some st))"
    "ent_le (entitlements_for (Some slug) (Some st)) (entitlements_for (Some ''enterprise'') (Some st))"
    using le_top by (simp_all add: e(1))
qed

theorem entitlements_monotone_witness:
  "ent_le (entitlements_for (Some ''basic'') (Some ''active'')) (entitlements_for (Some ''pro'') (Some ''active'')) \<and>
   ent_le (entitlements_for (Some ''Advisor'') (Some ''active'')) (entitlements_for (Some ''enterprise'') (Some ''active''))"
  using entitlements_monotone [of None None "''active''" "''Advisor''"] by simp

end
