(* ===== verification/Billing_Repository.thy ===== *)
theory Billing_Repository
  imports Database Billing_Catalog
begin

text \<open>
  The SQL of \<^verbatim>\<open>src/billing/repository.rs\<close> over the tables of migrations 0001, 0003 and 0005.
  An insert checks, in the order Postgres does, the \<open>NOT NULL\<close> and \<open>CHECK\<close> constraints of
  the proposed row (also when an \<open>ON CONFLICT\<close> clause follows), the conflict target, the other
  unique indexes and the foreign keys.
\<close>

subsection \<open>Reads\<close>

definition active_subscription :: "database \<Rightarrow> uuid \<Rightarrow> subscription option" where
  "active_subscription d uid =
     first_max s_updated_at
       (filter (\<lambda>s. s_user_id s = uid \<and> billable (s_status s)) (subscriptions d))"

definition fetch_active :: "uuid \<Rightarrow> (sqlx_error, subscription option) action" where
  "fetch_active uid = select (\<lambda>d. active_subscription d uid)"

definition customer_id_of :: "database \<Rightarrow> uuid \<Rightarrow> string option" where
  "customer_id_of d uid =
     Option.bind (first_max s_updated_at
       (filter (\<lambda>s. s_user_id s = uid \<and> s_customer_id s \<noteq> None) (subscriptions d)))
       s_customer_id"

definition fetch_customer_id :: "uuid \<Rightarrow> (sqlx_error, string option) action" where
  "fetch_customer_id uid = select (\<lambda>d. customer_id_of d uid)"

subsection \<open>Constraints of the subscriptions table\<close>

definition tier_slugs :: "string list" where
  "tier_slugs = [''basic'', ''essentials'', ''duo'', ''plus'', ''pro'', ''enterprise'']"

definition active_user_key :: "subscription \<Rightarrow> uuid option" where
  "active_user_key s = (if billable (s_status s) then Some (s_user_id s) else None)"

definition active_team_key :: "subscription \<Rightarrow> uuid option" where
  "active_team_key s = (if billable (s_status s) then s_team_id s else None)"

definition subscription_indexes :: "subscription list \<Rightarrow> bool" where
  "subscription_indexes ss \<longleftrightarrow>
     unique_on (\<lambda>s. Some (s_id s)) ss \<and> unique_on s_customer_id ss \<and> unique_on s_subscription_id ss \<and>
     unique_on active_user_key ss \<and> unique_on active_team_key ss"

definition lacks_team :: "database \<Rightarrow> subscription \<Rightarrow> bool" where [simp]:
  "lacks_team d s \<longleftrightarrow> team_id_required d \<and> s_team_id s = None"

definition unknown_tier :: "subscription \<Rightarrow> bool" where [simp]:
  "unknown_tier s \<longleftrightarrow> s_tier s \<notin> set tier_slugs"

definition proposed_row_error :: "database \<Rightarrow> subscription \<Rightarrow> db_error option" where
  "proposed_row_error d s =
     (if lacks_team d s then Some NotNullViolation
      else if unknown_tier s then Some CheckViolation
      else None)"

text \<open>The foreign key of the nullable column of 0005.\<close>

definition team_known :: "database \<Rightarrow> uuid option \<Rightarrow> bool" where
  "team_known d t \<longleftrightarrow> (case t of None \<Rightarrow> True | Some tid \<Rightarrow> team_exists d tid)"

lemma team_known_iff: "team_known d t \<longleftrightarrow> (\<forall>tid. t = Some tid \<longrightarrow> team_exists d tid)"
  by (simp add: team_known_def split: option.splits)

definition insert_subscription :: "subscription \<Rightarrow> database \<Rightarrow> (sqlx_error + unit) \<times> database" where
  "insert_subscription s d =
     (if \<not> subscription_indexes (subscriptions d @ [s]) then (Inl (Database UniqueViolation), d)
      else if \<not> user_exists d (s_user_id s) \<or> \<not> team_known d (s_team_id s)
      then (Inl (Database ForeignKeyViolation), d)
      else (Inr (), d\<lparr>subscriptions := subscriptions d @ [s]\<rparr>))"

text \<open>\<open>UPDATE\<close> of the rows that match: the unique indexes are checked on the result.\<close>

definition update_subscriptions ::
  "(subscription \<Rightarrow> bool) \<Rightarrow> (subscription \<Rightarrow> subscription) \<Rightarrow> database \<Rightarrow>
   (sqlx_error + unit) \<times> database" where
  "update_subscriptions sel upd d =
     (let ss = map (\<lambda>s. if sel s then upd s else s) (subscriptions d) in
      if subscription_indexes ss then (Inr (), d\<lparr>subscriptions := ss\<rparr>)
      else (Inl (Database UniqueViolation), d))"

subsection \<open>Writes\<close>

definition customer_stub :: "uuid \<Rightarrow> uuid \<Rightarrow> string \<Rightarrow> instant \<Rightarrow> subscription" where
  "customer_stub row_id uid customer_id now =
     \<lparr>s_id = row_id, s_user_id = uid, s_customer_id = Some customer_id,
      s_subscription_id = None, s_tier = ''basic'', s_status = Incomplete,
      s_period_start = None, s_period_end = None, s_cancel_at_period_end = False,
      s_credits_used = 0, s_credits_period_start = None, s_updated_at = now,
      s_team_id = None\<rparr>"

definition customer_stub_sql ::
  "uuid \<Rightarrow> uuid \<Rightarrow> string \<Rightarrow> instant \<Rightarrow> database \<Rightarrow> (sqlx_error + unit) \<times> database" where
  "customer_stub_sql row_id uid customer_id now d =
     (let s = customer_stub row_id uid customer_id now in
      case proposed_row_error d s of
        Some e \<Rightarrow> (Inl (Database e), d)
      | None \<Rightarrow>
          if \<exists>x\<in>set (subscriptions d). s_customer_id x = Some customer_id
          then update_subscriptions (\<lambda>x. s_customer_id x = Some customer_id)
                 (\<lambda>x. x\<lparr>s_updated_at := now\<rparr>) d
          else insert_subscription s d)"

definition upsert_customer_stub ::
  "uuid \<Rightarrow> instant \<Rightarrow> uuid \<Rightarrow> string \<Rightarrow> (sqlx_error, unit) action" where
  "upsert_customer_stub row_id now uid customer_id =
     query (customer_stub_sql row_id uid customer_id now)"

record webhook_upsert =
  w_user_id :: uuid
  w_customer_id :: string
  w_subscription_id :: string
  w_tier :: string
  w_status :: string
  w_period_start :: "instant option"
  w_period_end :: "instant option"
  w_cancel_at_period_end :: bool

definition webhook_row :: "uuid \<Rightarrow> instant \<Rightarrow> webhook_upsert \<Rightarrow> subscription_status \<Rightarrow> subscription" where
  "webhook_row row_id now p st =
     \<lparr>s_id = row_id, s_user_id = w_user_id p, s_customer_id = Some (w_customer_id p),
      s_subscription_id = Some (w_subscription_id p), s_tier = w_tier p, s_status = st,
      s_period_start = w_period_start p, s_period_end = w_period_end p,
      s_cancel_at_period_end = w_cancel_at_period_end p,
      s_credits_used = 0, s_credits_period_start = None, s_updated_at = now,
      s_team_id = None\<rparr>"

definition webhook_sql ::
  "uuid \<Rightarrow> instant \<Rightarrow> webhook_upsert \<Rightarrow> database \<Rightarrow> (sqlx_error + unit) \<times> database" where
  "webhook_sql row_id now p d =
     (case status_of_text (w_status p) of
        None \<Rightarrow> (Inl (Database InvalidTextRepresentation), d)
      | Some st \<Rightarrow>
          (let s = webhook_row row_id now p st in
           case proposed_row_error d s of
             Some e \<Rightarrow> (Inl (Database e), d)
           | None \<Rightarrow>
               if \<exists>x\<in>set (subscriptions d). s_subscription_id x = Some (w_subscription_id p)
               then update_subscriptions (\<lambda>x. s_subscription_id x = Some (w_subscription_id p))
                      (\<lambda>x. x\<lparr>s_status := st, s_tier := w_tier p,
                             s_period_start := w_period_start p,
                             s_period_end := w_period_end p,
                             s_cancel_at_period_end := w_cancel_at_period_end p,
                             s_updated_at := now\<rparr>) d
               else insert_subscription s d))"

definition upsert_from_webhook ::
  "uuid \<Rightarrow> instant \<Rightarrow> webhook_upsert \<Rightarrow> (sqlx_error, unit) action" where
  "upsert_from_webhook row_id now p = query (webhook_sql row_id now p)"

definition reset_ai_credits :: "instant \<Rightarrow> string \<Rightarrow> instant \<Rightarrow> (sqlx_error, unit) action" where
  "reset_ai_credits now sub_id period_start =
     query (update_subscriptions (\<lambda>s. s_subscription_id s = Some sub_id)
       (\<lambda>s. s\<lparr>s_credits_used := 0, s_credits_period_start := Some period_start,
              s_updated_at := now\<rparr>))"

definition metric_of_text :: "string \<Rightarrow> usage_metric option" where
  "metric_of_text s =
     (if s = ''ai_reply'' then Some AiReply
      else if s = ''broker_poll'' then Some BrokerPoll
      else if s = ''csv_intel'' then Some CsvIntel
      else if s = ''market_refresh'' then Some MarketRefresh
      else None)"

definition usage_sql ::
  "instant \<Rightarrow> uuid \<Rightarrow> string \<Rightarrow> int \<Rightarrow> int \<Rightarrow> string option \<Rightarrow> string option \<Rightarrow> database \<Rightarrow>
   (sqlx_error + unit) \<times> database" where
  "usage_sql now uid metric units cost_credits model kind d =
     (case metric_of_text metric of
        None \<Rightarrow> (Inl (Database InvalidTextRepresentation), d)
      | Some m \<Rightarrow>
          if units < 0 \<or> cost_credits < 0 then (Inl (Database CheckViolation), d)
          else if \<not> user_exists d uid then (Inl (Database ForeignKeyViolation), d)
          else (Inr (), d\<lparr>usage_ledger := usage_ledger d @
                 [\<lparr>l_user_id = uid, l_metric = m, l_units = units,
                   l_cost_credits = cost_credits, l_model = model, l_kind = kind,
                   l_created_at = now\<rparr>]\<rparr>))"

definition record_usage ::
  "instant \<Rightarrow> uuid \<Rightarrow> string \<Rightarrow> int \<Rightarrow> int \<Rightarrow> string option \<Rightarrow> string option \<Rightarrow>
   (sqlx_error, unit) action" where
  "record_usage now uid metric units cost_credits model kind =
     query (usage_sql now uid metric units cost_credits model kind)"

definition billable_for :: "uuid \<Rightarrow> subscription \<Rightarrow> bool" where
  "billable_for uid s \<longleftrightarrow> s_user_id s = uid \<and> billable (s_status s)"

definition add_credits_sql :: "instant \<Rightarrow> uuid \<Rightarrow> int \<Rightarrow> database \<Rightarrow> (sqlx_error + int) \<times> database" where
  "add_credits_sql now uid credits d =
     (case filter (billable_for uid) (subscriptions d) of
        [] \<Rightarrow> (Inl RowNotFound, d)
      | s # ss \<Rightarrow>
          if \<exists>x\<in>set (s # ss). \<not> i32_range (s_credits_used x + credits)
          then (Inl (Database NumericOutOfRange), d)
          else (Inr (s_credits_used s + credits),
                d\<lparr>subscriptions := map (\<lambda>x. if billable_for uid x
                    then x\<lparr>s_credits_used := s_credits_used x + credits, s_updated_at := now\<rparr>
                    else x) (subscriptions d)\<rparr>))"

definition add_ai_credits_used :: "instant \<Rightarrow> uuid \<Rightarrow> int \<Rightarrow> (sqlx_error, int) action" where
  "add_ai_credits_used now uid credits = query (add_credits_sql now uid credits)"

definition event_seen :: "database \<Rightarrow> string \<Rightarrow> bool" where
  "event_seen d eid \<longleftrightarrow> (\<exists>e\<in>set (stripe_events d). e_id e = eid)"

definition record_event_sql :: "instant \<Rightarrow> string \<Rightarrow> string \<Rightarrow> database \<Rightarrow> bool \<times> database" where
  "record_event_sql now event_type event_id d =
     (if event_seen d event_id then (False, d)
      else (True, d\<lparr>stripe_events := stripe_events d @
              [\<lparr>e_id = event_id, e_type = event_type, e_processed_at = now\<rparr>]\<rparr>))"

definition try_record_stripe_event :: "instant \<Rightarrow> string \<Rightarrow> string \<Rightarrow> (sqlx_error, bool) action" where
  "try_record_stripe_event now event_id event_type =
     query (\<lambda>d. case record_event_sql now event_type event_id d of (b, d') \<Rightarrow> (Inr b, d'))"

definition credits_for_reply :: "32 word \<Rightarrow> 32 word \<Rightarrow> int" where
  "credits_for_reply prompt_tokens completion_tokens =
     credits_for_tokens prompt_tokens completion_tokens"

interpretation events: once_gate event_seen "record_event_sql now event_type" for now event_type
  by unfold_locales (auto simp: record_event_sql_def event_seen_def)

subsection \<open>The invariant of the billing tables\<close>

definition billing_inv :: "database \<Rightarrow> bool" where
  "billing_inv d \<longleftrightarrow>
     subscription_indexes (subscriptions d) \<and>
     (\<forall>s\<in>set (subscriptions d). s_tier s \<in> set tier_slugs \<and> i32_range (s_credits_used s)) \<and>
     unique_on (\<lambda>e. Some (e_id e)) (stripe_events d) \<and>
     (\<forall>l\<in>set (usage_ledger d). 0 \<le> l_units l \<and> 0 \<le> l_cost_credits l)"

lemma subscription_indexes_map:
  assumes "\<And>s. s_id (f s) = s_id s \<and> s_customer_id (f s) = s_customer_id s \<and> s_subscription_id (f s) = s_subscription_id s
             \<and> s_user_id (f s) = s_user_id s \<and> s_status (f s) = s_status s
             \<and> s_team_id (f s) = s_team_id s"
  shows "subscription_indexes (map f ss) = subscription_indexes ss"
  unfolding subscription_indexes_def
  by (simp add: unique_on_map_same assms active_user_key_def active_team_key_def)

lemma update_subscriptions_keeps:
  assumes "billing_inv d"
    and "\<And>s. s_tier s \<in> set tier_slugs \<Longrightarrow> s_tier (upd s) \<in> set tier_slugs"
    and "\<And>s. i32_range (s_credits_used s) \<Longrightarrow> i32_range (s_credits_used (upd s))"
  shows "billing_inv (snd (update_subscriptions sel upd d))"
  using assms by (auto simp: update_subscriptions_def billing_inv_def Let_def)

lemma insert_subscription_keeps:
  assumes "billing_inv d" "s_tier s \<in> set tier_slugs" "i32_range (s_credits_used s)"
  shows "billing_inv (snd (insert_subscription s d))"
  using assms by (auto simp: insert_subscription_def billing_inv_def)

lemma proposed_row_tier: "proposed_row_error d s = None \<Longrightarrow> s_tier s \<in> set tier_slugs"
  by (auto simp: proposed_row_error_def split: if_splits)

lemma keeps_upsert_customer_stub [keeps_intros]:
  "keeps billing_inv (upsert_customer_stub row_id now uid cid)"
  unfolding upsert_customer_stub_def
proof (rule keeps_query)
  fix d assume "billing_inv d"
  then show "billing_inv (snd (customer_stub_sql row_id uid cid now d))"
    by (auto simp: customer_stub_sql_def Let_def customer_stub_def i32_range_def
             dest: proposed_row_tier split: option.splits
             intro!: update_subscriptions_keeps insert_subscription_keeps)
qed

lemma keeps_upsert_from_webhook [keeps_intros]:
  "keeps billing_inv (upsert_from_webhook row_id now p)"
  unfolding upsert_from_webhook_def
proof (rule keeps_query)
  fix d assume "billing_inv d"
  then show "billing_inv (snd (webhook_sql row_id now p d))"
    by (auto simp: webhook_sql_def Let_def webhook_row_def i32_range_def
             dest!: proposed_row_tier split: option.splits
             intro!: update_subscriptions_keeps insert_subscription_keeps)
qed

lemma keeps_reset_ai_credits [keeps_intros]:
  "keeps billing_inv (reset_ai_credits now sid ps)"
  unfolding reset_ai_credits_def
  by (rule keeps_query, rule update_subscriptions_keeps) (auto simp: i32_range_def)

lemma keeps_record_usage [keeps_intros]:
  "keeps billing_inv (record_usage now uid metric units cost model kind)"
  unfolding record_usage_def
  by (rule keeps_query) (auto simp: usage_sql_def billing_inv_def split: option.splits)

lemma add_credits_indexes:
  "subscription_indexes (map (\<lambda>x. if billable_for uid x
       then x\<lparr>s_credits_used := f x, s_updated_at := now\<rparr> else x) ss) = subscription_indexes ss"
  by (rule subscription_indexes_map) simp

lemma keeps_add_ai_credits_used [keeps_intros]:
  "keeps billing_inv (add_ai_credits_used now uid credits)"
  unfolding add_ai_credits_used_def
proof (rule keeps_query)
  fix d assume inv: "billing_inv d"
  show "billing_inv (snd (add_credits_sql now uid credits d))"
  proof (cases "filter (billable_for uid) (subscriptions d)")
    case Nil
    with inv show ?thesis by (simp add: add_credits_sql_def)
  next
    case (Cons s ss)
    then have "set (s # ss) = {x \<in> set (subscriptions d). billable_for uid x}"
      by (metis set_filter)
    with inv Cons show ?thesis
      by (auto simp: add_credits_sql_def billing_inv_def add_credits_indexes)
  qed
qed

lemma keeps_try_record_stripe_event [keeps_intros]:
  "keeps billing_inv (try_record_stripe_event now eid ty)"
  unfolding try_record_stripe_event_def
  by (rule keeps_query)
     (auto simp: record_event_sql_def event_seen_def billing_inv_def unique_on_snoc)

text \<open>At most one billable subscription per user, so the order of the rows is immaterial.\<close>

lemma billable_unique:
  assumes "billing_inv d" "s \<in> set (subscriptions d)" "t \<in> set (subscriptions d)"
    "billable_for uid s" "billable_for uid t"
  shows "s = t"
  using assms unique_onD [of active_user_key "subscriptions d" s t uid]
  by (auto simp: billing_inv_def subscription_indexes_def active_user_key_def billable_for_def)

lemma active_subscription_iff:
  assumes "billing_inv d"
  shows "active_subscription d uid = Some s \<longleftrightarrow> s \<in> set (subscriptions d) \<and> billable_for uid s"
proof
  assume "active_subscription d uid = Some s"
  then show "s \<in> set (subscriptions d) \<and> billable_for uid s"
    by (auto simp: active_subscription_def billable_for_def dest: first_max_in)
next
  assume s: "s \<in> set (subscriptions d) \<and> billable_for uid s"
  then have "active_subscription d uid \<noteq> None"
    by (auto simp: active_subscription_def billable_for_def filter_empty_conv)
  then obtain t where t: "active_subscription d uid = Some t" by blast
  then have "t \<in> set (subscriptions d) \<and> billable_for uid t"
    by (auto simp: active_subscription_def billable_for_def dest: first_max_in)
  with s assms have "t = s" by (blast intro: billable_unique)
  with t show "active_subscription d uid = Some s" by simp
qed

end
