(* ===== verification/Stripe_Client.thy ===== *)
theory Stripe_Client
  imports App_Error
begin

text \<open>
  The Stripe client of \<^verbatim>\<open>src/billing/stripe_client.rs\<close>: the form posts and the verification of a
  webhook signature.  The HTTP exchange, the JSON decoder, HMAC-SHA256 and the hexadecimal
  decoder belong to other packages and are arguments of the definitions that use them.
\<close>

unbundle bit_operations_syntax

subsection \<open>Byte strings\<close>

text \<open>\<open>str::as_bytes\<close>: the UTF-8 encoding; code points from U+0080 take two bytes.\<close>

definition utf8_char :: "char \<Rightarrow> byte list" where
  "utf8_char c =
     (let n = (of_char c :: nat) in
      if n < 128 then [of_nat n] else [of_nat (192 + n div 64), of_nat (128 + n mod 64)])"

definition as_bytes :: "string \<Rightarrow> byte list" where
  "as_bytes s = concat (map utf8_char s)"

subsection \<open>Constant-time comparison\<close>

definition subtle_diff :: "byte list \<Rightarrow> byte list \<Rightarrow> byte" where
  "subtle_diff a b = foldl (\<lambda>diff (x, y). diff OR (x XOR y)) 0 (zip a b)"

definition subtle_choice :: "byte \<Rightarrow> byte" where
  "subtle_choice diff = ucast (drop_bit 8 ((ucast diff :: 16 word) - 1)) AND 1"

definition subtle_eq :: "byte list \<Rightarrow> byte list \<Rightarrow> byte" where
  "subtle_eq a b = (if length a \<noteq> length b then 0 else subtle_choice (subtle_diff a b))"

text \<open>\<open>bool::from(Choice)\<close>.\<close>

definition choice_to_bool :: "byte \<Rightarrow> bool" where
  "choice_to_bool c \<longleftrightarrow> c = 1"

lemma word_or_eq_0: "(a :: 'a :: len word) OR b = 0 \<longleftrightarrow> a = 0 \<and> b = 0"
  by (auto simp: bit_eq_iff bit_or_iff)

lemma word_xor_eq_0: "(a :: 'a :: len word) XOR b = 0 \<longleftrightarrow> a = b"
  by (auto simp: bit_eq_iff bit_xor_iff)

lemma foldl_diff_eq_0:
  "foldl (\<lambda>diff (x, y). diff OR (x XOR y)) d ps = (0 :: byte) \<longleftrightarrow>
     d = 0 \<and> (\<forall>(x, y)\<in>set ps. x = y)"
  by (induction ps arbitrary: d) (auto simp: word_or_eq_0 word_xor_eq_0)

lemma subtle_diff_eq_0: "length a = length b \<Longrightarrow> subtle_diff a b = 0 \<longleftrightarrow> a = b"
  unfolding subtle_diff_def foldl_diff_eq_0
  by (induction a b rule: list_induct2) auto

lemma subtle_choice_zero: "subtle_choice d = (if d = 0 then 1 else 0)"
proof (cases "d = 0")
  case True
  have "subtle_choice 0 = 1" by (simp add: subtle_choice_def mask_eq_exp_minus_1)
  with True show ?thesis by simp
next
  case False
  define x where "x = (ucast d :: 16 word) - 1"
  have d: "unat d < 256" using unsigned_less [of d, where 'a = nat] by simp
  then have u: "unat (ucast d :: 16 word) = unat d"
    by (simp add: unsigned_ucast_eq take_bit_nat_eq_self)
  with False have "(ucast d :: 16 word) \<noteq> 0" by (metis unat_0_iff)
  then have "unat x = unat d - 1" unfolding x_def u [symmetric] by (rule unat_minus_one)
  with d have "unat x < 256" by simp
  then have "drop_bit 8 (unat x) = 0" by (simp add: drop_bit_eq_div)
  then have "unat (drop_bit 8 x) = 0" by (simp only: unat_drop_bit_eq)
  then have "drop_bit 8 x = 0" by (simp only: unat_0_iff)
  with False show ?thesis by (simp add: subtle_choice_def x_def)
qed

lemma subtle_eq_iff [simp]: "choice_to_bool (subtle_eq a b) \<longleftrightarrow> a = b"
  by (auto simp: subtle_eq_def choice_to_bool_def subtle_choice_zero subtle_diff_eq_0)

subsection \<open>Errors and requests\<close>

datatype stripe_error =
    Transport string
  | Api nat string
  | Signature string

definition STRIPE_API_BASE :: string where
  "STRIPE_API_BASE = ''https://api.stripe.com''"

definition STRIPE_API_VERSION :: string where
  "STRIPE_API_VERSION = ''2024-12-18.acacia''"

record form_request =
  rq_url :: string
  rq_basic_user :: string
  rq_headers :: "(string \<times> string) list"
  rq_form :: "(string \<times> string) list"

text \<open>What \<open>send\<close> and \<open>text\<close> give back: a transport error, or a status with the body.\<close>

type_synonym http_reply = "string + nat \<times> (string + string)"

definition post_form_impl ::
  "(form_request \<Rightarrow> http_reply) \<Rightarrow> (string \<Rightarrow> string + 'a) \<Rightarrow> string \<Rightarrow> string \<Rightarrow>
   (string \<times> string) list \<Rightarrow> stripe_error + 'a" where
  "post_form_impl send decode url secret form =
     (case send \<lparr>rq_url = url, rq_basic_user = secret,
                 rq_headers = [(''Stripe-Version'', STRIPE_API_VERSION)], rq_form = form\<rparr> of
        Inl e \<Rightarrow> Inl (Transport e)
      | Inr (status, Inl e) \<Rightarrow> Inl (Transport e)
      | Inr (status, Inr body) \<Rightarrow>
          if \<not> is_success status then Inl (Api status body)
          else (case decode body of
                  Inl e \<Rightarrow> Inl (Api status (''decode error: '' @ e @ '' (body: '' @ body @ '')''))
                | Inr v \<Rightarrow> Inr v))"

record customer =
  cus_id :: string
  cus_email :: "string option"

record session =
  ses_id :: string
  ses_url :: string

text \<open>The client: its key, and the external functions it calls.\<close>

record stripe_client =
  sc_secret_key :: string
  sc_send :: "form_request \<Rightarrow> http_reply"
  sc_decode_customer :: "string \<Rightarrow> string + customer"
  sc_decode_session :: "string \<Rightarrow> string + session"
  sc_show_uuid :: "uuid \<Rightarrow> string"

definition post_form ::
  "stripe_client \<Rightarrow> (string \<Rightarrow> string + 'a) \<Rightarrow> string \<Rightarrow> (string \<times> string) list \<Rightarrow> stripe_error + 'a"
where
  "post_form c decode path form =
     post_form_impl (sc_send c) decode (STRIPE_API_BASE @ path) (sc_secret_key c) form"

definition create_customer :: "stripe_client \<Rightarrow> string \<Rightarrow> uuid \<Rightarrow> stripe_error + customer" where
  "create_customer c email user_id =
     post_form c (sc_decode_customer c) ''/v1/customers''
       [(''email'', email), (''metadata[user_id]'', sc_show_uuid c user_id)]"

record checkout_session_params =
  p_customer_id :: string
  p_price_id :: string
  p_success_url :: string
  p_cancel_url :: string
  p_client_reference_id :: uuid

definition create_checkout_session ::
  "stripe_client \<Rightarrow> checkout_session_params \<Rightarrow> stripe_error + session" where
  "create_checkout_session c p =
     post_form c (sc_decode_session c) ''/v1/checkout/sessions''
       [(''mode'', ''subscription''),
        (''customer'', p_customer_id p),
        (''line_items[0][price]'', p_price_id p),
        (''line_items[0][quantity]'', ''1''),
        (''success_url'', p_success_url p),
        (''cancel_url'', p_cancel_url p),
        (''client_reference_id'', sc_show_uuid c (p_client_reference_id p)),
        (''allow_promotion_codes'', ''true'')]"

definition create_billing_portal_session ::
  "stripe_client \<Rightarrow> string \<Rightarrow> string \<Rightarrow> stripe_error + session" where
  "create_billing_portal_session c customer_id return_url =
     post_form c (sc_decode_session c) ''/v1/billing_portal/sessions''
       [(''customer'', customer_id), (''return_url'', return_url)]"

lemma post_form_impl_Inr_iff:
  "post_form_impl send decode url secret form = Inr v \<longleftrightarrow>
     (\<exists>status body. send \<lparr>rq_url = url, rq_basic_user = secret,
         rq_headers = [(''Stripe-Version'', STRIPE_API_VERSION)], rq_form = form\<rparr>
           = Inr (status, Inr body) \<and> is_success status \<and> decode body = Inr v)"
  by (auto simp: post_form_impl_def split: sum.splits prod.splits if_splits)

lemma post_form_impl_not_signature:
  "post_form_impl send decode url secret form \<noteq> Inl (Signature r)"
  by (auto simp: post_form_impl_def split: sum.splits prod.splits if_splits)

subsection \<open>Webhook signatures\<close>

text \<open>One part of the header: a later \<open>t\<close> replaces an earlier one, even by nothing.\<close>

definition header_part :: "int option \<times> string list \<Rightarrow> string \<Rightarrow> int option \<times> string list" where
  "header_part acc part =
     (case (acc, splitn2 CHR ''='' part) of
        ((ts, sigs), (k, Some v)) \<Rightarrow>
          if k = ''t'' then (parse_i64 (trim v), sigs)
          else if k = ''v1'' then (ts, sigs @ [trim v])
          else (ts, sigs)
      | (acc, (_, None)) \<Rightarrow> acc)"

definition parse_header :: "string \<Rightarrow> int option \<times> string list" where
  "parse_header h = foldl header_part (None, []) (split_char CHR '','' h)"

definition within_tolerance :: "int \<Rightarrow> int \<Rightarrow> bool" where
  "within_tolerance now_unix ts \<longleftrightarrow> \<not> 300 < i64_abs (i64_sub now_unix ts)"

fun match_signature :: "(string \<Rightarrow> byte list option) \<Rightarrow> byte list \<Rightarrow> string list \<Rightarrow> bool" where
  "match_signature hex_decode expected [] = False"
| "match_signature hex_decode expected (s # ss) =
     (case hex_decode s of
        Some bytes \<Rightarrow> if choice_to_bool (subtle_eq expected bytes) then True
                      else match_signature hex_decode expected ss
      | None \<Rightarrow> match_signature hex_decode expected ss)"

definition signed_payload :: "int \<Rightarrow> byte list \<Rightarrow> byte list" where
  "signed_payload ts body = as_bytes (show_int ts @ ''.'') @ body"

definition verify_webhook ::
  "(byte list \<Rightarrow> byte list \<Rightarrow> byte list) \<Rightarrow> (string \<Rightarrow> byte list option) \<Rightarrow>
   string \<Rightarrow> string \<Rightarrow> byte list \<Rightarrow> int \<Rightarrow> stripe_error + int" where
  "verify_webhook hmac hex_decode whsec signature_header body now_unix =
     (case parse_header signature_header of
        (None, _) \<Rightarrow> Inl (Signature ''missing timestamp'')
      | (Some ts, sigs) \<Rightarrow>
          if sigs = [] then Inl (Signature ''missing v1 signature'')
          else if \<not> within_tolerance now_unix ts
          then Inl (Signature ''timestamp outside tolerance'')
          else let expected = hmac (as_bytes whsec) (signed_payload ts body) in
               if match_signature hex_decode expected sigs then Inr ts
               else Inl (Signature ''no matching signature''))"

lemma match_signature_iff:
  "match_signature hex_decode expected ss \<longleftrightarrow> (\<exists>s\<in>set ss. hex_decode s = Some expected)"
  by (induction ss) (auto split: option.splits)

lemma verify_webhook_Inr_iff:
  "verify_webhook hmac hexd whsec hdr body now = Inr t \<longleftrightarrow>
     (\<exists>sigs. parse_header hdr = (Some t, sigs) \<and> within_tolerance now t \<and>
        (\<exists>s\<in>set sigs. hexd s = Some (hmac (as_bytes whsec) (signed_payload t body))))"
  by (auto simp: verify_webhook_def match_signature_iff Let_def split: prod.splits option.splits)

lemma verify_webhook_error:
  "verify_webhook hmac hexd whsec hdr body now = Inl e \<Longrightarrow> \<exists>r. e = Signature r"
  by (auto simp: verify_webhook_def Let_def split: prod.splits option.splits if_splits)

lemma parse_i64_range: "parse_i64 s = Some i \<Longrightarrow> i64_range i"
  by (auto simp: parse_i64_def Let_def split: list.splits option.splits if_splits)

lemma foldl_header_part_range:
  "(\<forall>i. fst acc = Some i \<longrightarrow> i64_range i) \<Longrightarrow> fst (foldl header_part acc parts) = Some i \<Longrightarrow> i64_range i"
proof (induction parts arbitrary: acc)
  case Nil
  then show ?case by simp
next
  case (Cons p ps)
  have "\<forall>i. fst (header_part acc p) = Some i \<longrightarrow> i64_range i"
    using Cons.prems(1)
    by (auto simp: header_part_def dest: parse_i64_range split: prod.splits option.splits if_splits)
  with Cons show ?case by simp
qed

lemma parse_header_range: "parse_header h = (Some i, sigs) \<Longrightarrow> i64_range i"
  using foldl_header_part_range [of "(None, [])" "split_char CHR '','' h" i]
  by (simp add: parse_header_def)

text \<open>
  The tolerance test on \<open>i64\<close>, with the subtraction and the absolute value wrapping: besides
  the five minutes around now it lets through the one timestamp \<open>2 ^ 63\<close> seconds away.
\<close>

lemma within_tolerance_iff:
  assumes "0 \<le> now" "now < 2 ^ 62" "i64_range t"
  shows "within_tolerance now t \<longleftrightarrow> \<bar>now - t\<bar> \<le> 300 \<or> now - t = 2 ^ 63"
proof (cases "now - t < 2 ^ 63")
  case True
  with assms have r: "i64_range (now - t)" "now - t \<noteq> - (2 ^ 63)"
    by (auto simp: i64_range_def)
  with True show ?thesis
    by (simp add: within_tolerance_def i64_sub_in_range i64_abs_in_range not_less)
next
  case False
  define x where "x = now - t"
  have x: "2 ^ 63 \<le> x" "x < 2 ^ 63 + 2 ^ 62" using False assms by (auto simp: x_def i64_range_def)
  have "(x + 2 ^ 63) mod 2 ^ 64 = x - 2 ^ 63"
  proof -
    have "x + 2 ^ 63 = x - 2 ^ 63 + 2 ^ 64" by simp
    then have "(x + 2 ^ 63) mod 2 ^ 64 = (x - 2 ^ 63 + 2 ^ 64) mod 2 ^ 64" by (rule arg_cong)
    also have "\<dots> = (x - 2 ^ 63) mod 2 ^ 64" by (rule mod_add_self2)
    also have "\<dots> = x - 2 ^ 63" using x by (intro mod_pos_pos_trivial) simp_all
    finally show ?thesis .
  qed
  then have s: "i64_sub now t = x - 2 ^ 64" by (simp add: i64_sub_def wrap_signed_def x_def)
  show ?thesis
  proof (cases "x = 2 ^ 63")
    case True
    then have "i64_abs (i64_sub now t) = - (2 ^ 63)"
      by (simp add: s i64_abs_def wrap_signed_def)
    with True show ?thesis by (simp add: within_tolerance_def x_def)
  next
    case False
    then have "i64_abs (i64_sub now t) = 2 ^ 64 - x"
      unfolding s using x by (subst i64_abs_in_range) (auto simp: i64_range_def)
    with False x show ?thesis by (simp add: within_tolerance_def x_def)
  qed
qed

subsection \<open>Properties\<close>

text \<open>The header Stripe sends for a timestamp and one signature.\<close>

definition stripe_header :: "int \<Rightarrow> string \<Rightarrow> string" where
  "stripe_header t sig = ''t='' @ show_int t @ '',v1='' @ sig"

lemma set_show_int: "c \<in> set (show_int i) \<Longrightarrow> c = CHR ''-'' \<or> (\<exists>d<10. c = digit_char d)"
  by (auto simp: show_int_def dest: set_show_nat split: if_splits)

lemma digit_char_plain:
  assumes "d < 10"
  shows "digit_char d \<noteq> CHR '',''" "digit_char d \<noteq> CHR ''=''" "\<not> is_whitespace (digit_char d)"
proof -
  have "\<And>e. e < 10 \<Longrightarrow> char_digit (digit_char e) = Some e" by simp
  then have "char_digit (digit_char d) \<noteq> None" using assms by simp
  then show "digit_char d \<noteq> CHR '',''" "digit_char d \<noteq> CHR ''=''" "\<not> is_whitespace (digit_char d)"
    by (auto simp: char_digit_def is_whitespace_def Let_def)
qed

lemma show_int_plain:
  "CHR '','' \<notin> set (show_int i)" "CHR ''='' \<notin> set (show_int i)" "trim (show_int i) = show_int i"
proof -
  show "CHR '','' \<notin> set (show_int i)" "CHR ''='' \<notin> set (show_int i)"
    using digit_char_plain by (fastforce dest: set_show_int)+
  have "\<not> is_whitespace c" if "c \<in> set (show_int i)" for c
    using set_show_int [OF that] digit_char_plain by (auto simp: is_whitespace_def)
  then show "trim (show_int i) = show_int i" by (intro trim_no_ws) simp
qed

lemma parse_header_stripe_header:
  assumes "i64_range t" "CHR '','' \<notin> set sig" "trim sig = sig"
  shows "parse_header (stripe_header t sig) = (Some t, [sig])"
proof -
  have "split_char CHR '','' (stripe_header t sig) = [''t='' @ show_int t, ''v1='' @ sig]"
    using split_char_append [of "CHR '',''" "''t='' @ show_int t" "''v1='' @ sig"]
      split_char_no_sep [of "CHR '',''" "''v1='' @ sig"] assms(2) show_int_plain(1) [of t]
    by (simp add: stripe_header_def)
  moreover have "splitn2 CHR ''='' (''t='' @ show_int t) = (''t'', Some (show_int t))"
    "splitn2 CHR ''='' (''v1='' @ sig) = (''v1'', Some sig)"
    using splitn2_append [of "CHR ''=''" "''t''" "show_int t"]
      splitn2_append [of "CHR ''=''" "''v1''" sig] by simp_all
  ultimately show ?thesis
    using assms show_int_plain(3) [of t]
    by (simp add: parse_header_def header_part_def parse_i64_show_int)
qed

text \<open>C5: what Stripe signs is accepted.  A header that carries the time of signing and the
  hexadecimal HMAC of \<open>timestamp.body\<close> verifies at every moment within five minutes, and the
  verifier returns exactly the time that was signed; the decoder need only read that text back.\<close>

theorem verify_webhook_roundtrip:
  assumes "hex_decode sig = Some (hmac (as_bytes whsec) (signed_payload t body))"
    and "CHR '','' \<notin> set sig" "trim sig = sig"
    and "0 \<le> now" "now < 2 ^ 62" "\<bar>now - t\<bar> \<le> 300"
  shows "verify_webhook hmac hex_decode whsec (stripe_header t sig) body now = Inr t"
proof -
  have r: "i64_range t" using assms(4-6) by (auto simp: i64_range_def)
  with assms(4-6) have "within_tolerance now t" by (simp add: within_tolerance_iff)
  with assms(1) parse_header_stripe_header [OF r assms(2,3)] show ?thesis
    by (auto simp: verify_webhook_Inr_iff)
qed

theorem verify_webhook_roundtrip_witness:
  "verify_webhook (\<lambda>k m. [of_nat (length k + length m)]) (\<lambda>s. if s = ''11'' then Some [17] else None)
     ''sec'' (stripe_header 1700000000 ''11'') [1, 2, 3] 1700000120 = Inr 1700000000"
proof (rule verify_webhook_roundtrip)
  show "(\<lambda>s. if s = ''11'' then Some [17] else None) ''11'' =
      Some ((\<lambda>k m. [of_nat (length k + length m)]) (as_bytes ''sec'') (signed_payload 1700000000 [1, 2, 3]))"
    by (simp add: signed_payload_def as_bytes_def utf8_char_def show_int_def show_nat.simps
        digit_char_def Let_def)
qed (simp_all add: str_simps)

text \<open>C4: what is accepted was signed.  Whatever header, body and secret, the verifier answers
  \<open>t\<close> only if some \<open>v1\<close> entry decodes to the HMAC of \<open>t.body\<close> and \<open>t\<close> is within five
  minutes of now - or exactly \<open>2 ^ 63\<close> seconds in the past, where the \<open>i64\<close> subtraction
  and \<open>abs\<close> wrap to a negative age.\<close>

theorem verify_webhook_sound:
  assumes "verify_webhook hmac hex_decode whsec hdr body now = Inr t" "0 \<le> now" "now < 2 ^ 62"
  shows "(\<exists>s\<in>set (snd (parse_header hdr)).
            hex_decode s = Some (hmac (as_bytes whsec) (signed_payload t body))) \<and>
         (\<bar>now - t\<bar> \<le> 300 \<or> now - t = 2 ^ 63)"
proof -
  from assms(1) obtain sigs where p: "parse_header hdr = (Some t, sigs)" "within_tolerance now t"
      "\<exists>s\<in>set sigs. hex_decode s = Some (hmac (as_bytes whsec) (signed_payload t body))"
    by (auto simp: verify_webhook_Inr_iff)
  from p(1) have "i64_range t" by (rule parse_header_range)
  with p assms(2,3) show ?thesis by (simp add: within_tolerance_iff)
qed

theorem verify_webhook_sound_witness:
  "verify_webhook (\<lambda>k m. [7]) (\<lambda>s. if s = ''07'' then Some [7] else None) ''sec'' ''t=900,v1=07'' [] 1000 = Inr 900 \<and>
   (\<bar>1000 - 900 :: int\<bar> \<le> 300 \<or> 1000 - 900 = (2 :: int) ^ 63)"
proof -
  have v: "verify_webhook (\<lambda>k m. [7]) (\<lambda>s. if s = ''07'' then Some [7] else None) ''sec'' ''t=900,v1=07'' [] 1000 = Inr 900"
    by (simp add: verify_webhook_Inr_iff parse_header_def header_part_def parse_i64_def read_nat_def
        char_digit_def within_tolerance_iff i64_range_def str_simps)
  with verify_webhook_sound [OF v] show ?thesis by simp
qed

end
