(* ===== verification/Stripe_Webhook.thy ===== *)
theory Stripe_Webhook
  imports Billing_Repository Stripe_Client
begin

text \<open>
  The billing context (\<^verbatim>\<open>src/billing/mod.rs\<close>) and the webhook receiver
  (\<^verbatim>\<open>src/billing/webhook.rs\<close>).  The cryptographic functions, the JSON decoders that serde
  derives for the payload structs, and the conversion of a Unix time are parameters.
\<close>

record billing_context =
  b_stripe :: stripe_client
  b_prices :: stripe_prices
  b_webhook_secret :: string
  b_return_url :: string
  b_openai_key :: "string option"

subsection \<open>Payloads\<close>

record envelope =
  env_id :: string
  env_event_type :: string
  env_object :: json

record price =
  pr_id :: string
  pr_metadata_plan :: "string option"

record subscription_object =
  so_id :: string
  so_customer :: string
  so_status :: string
  so_cancel_at_period_end :: bool
  so_current_period_start :: "int option"
  so_current_period_end :: "int option"
  so_item_prices :: "price list"

record invoice_object =
  inv_subscription :: "string option"
  inv_period_start :: "int option"

record webhook_env =
  x_hmac_sha256 :: "byte list \<Rightarrow> byte list \<Rightarrow> byte list"
  x_hex_decode :: "string \<Rightarrow> byte list option"
  x_decode_envelope :: "byte list \<Rightarrow> string + envelope"
  x_decode_subscription :: "json \<Rightarrow> string + subscription_object"
  x_decode_invoice :: "json \<Rightarrow> string + invoice_object"
  x_from_unix_timestamp :: "int \<Rightarrow> instant option"

definition ts :: "webhook_env \<Rightarrow> int option \<Rightarrow> instant option" where
  "ts x unix = Option.bind unix (x_from_unix_timestamp x)"

subsection \<open>Resolution of user and tier\<close>

definition user_of_customer :: "database \<Rightarrow> string \<Rightarrow> uuid option" where
  "user_of_customer d customer =
     map_option s_user_id (find (\<lambda>s. s_customer_id s = Some customer) (subscriptions d))"

text \<open>This query runs on the pool, outside of the transaction of the handler.\<close>

definition resolve_user_id :: "database \<Rightarrow> subscription_object \<Rightarrow> (sqlx_error, uuid option) action" where
  "resolve_user_id pool sub = select (\<lambda>_. user_of_customer pool (so_customer sub))"

definition resolve_tier :: "subscription_object \<Rightarrow> stripe_prices \<Rightarrow> checkout_plan option" where
  "resolve_tier sub prices =
     (let by_price =
        (case List.map_filter (\<lambda>p. plan_for prices (pr_id p)) (so_item_prices sub) of
           [] \<Rightarrow> None | plan # _ \<Rightarrow> Some plan)
      in case List.map_filter pr_metadata_plan (so_item_prices sub) of
           [] \<Rightarrow> by_price
         | plan # _ \<Rightarrow> (case parse_plan plan of Inr p \<Rightarrow> Some p | Inl _ \<Rightarrow> by_price))"

subsection \<open>The handler\<close>

definition is_subscription_event :: "string \<Rightarrow> bool" where
  "is_subscription_event ty \<longleftrightarrow>
     ty = ''customer.subscription.created'' \<or> ty = ''customer.subscription.updated'' \<or>
     ty = ''customer.subscription.deleted''"

definition upsert_of :: "webhook_env \<Rightarrow> stripe_prices \<Rightarrow> subscription_object \<Rightarrow> uuid \<Rightarrow> webhook_upsert" where
  "upsert_of x prices sub uid =
     \<lparr>w_user_id = uid, w_customer_id = so_customer sub, w_subscription_id = so_id sub,
      w_tier = (case resolve_tier sub prices of None \<Rightarrow> ''basic'' | Some p \<Rightarrow> plan_slug p),
      w_status = so_status sub,
      w_period_start = ts x (so_current_period_start sub),
      w_period_end = ts x (so_current_period_end sub),
      w_cancel_at_period_end = so_cancel_at_period_end sub\<rparr>"

definition handle_event ::
  "webhook_env \<Rightarrow> billing_context \<Rightarrow> uuid \<Rightarrow> instant \<Rightarrow> envelope \<Rightarrow> database \<Rightarrow> (app_error, nat) action"
where
  "handle_event x b row_id now env pool =
     (if is_subscription_event (env_event_type env) then
        (case x_decode_subscription x (env_object env) of
           Inl e \<Rightarrow> throw (bad_request (''subscription payload: '' @ e))
         | Inr sub \<Rightarrow>
             bindM (map_errM from_sqlx (resolve_user_id pool sub)) (\<lambda>uid.
               case uid of
                 None \<Rightarrow> pure 200
               | Some u \<Rightarrow>
                   bindM (map_errM from_sqlx
                            (upsert_from_webhook row_id now (upsert_of x (b_prices b) sub u)))
                         (\<lambda>_. pure 200)))
      else if env_event_type env = ''invoice.paid'' then
        (case x_decode_invoice x (env_object env) of
           Inl e \<Rightarrow> throw (bad_request (''invoice payload: '' @ e))
         | Inr invoice \<Rightarrow>
             (case (inv_subscription invoice, ts x (inv_period_start invoice)) of
                (Some sub_id, Some period_start) \<Rightarrow>
                  bindM (map_errM from_sqlx (reset_ai_credits now sub_id period_start))
                        (\<lambda>_. pure 200)
              | _ \<Rightarrow> pure 200))
      else pure 200)"

definition process_event ::
  "webhook_env \<Rightarrow> billing_context \<Rightarrow> uuid \<Rightarrow> instant \<Rightarrow> envelope \<Rightarrow> (app_error, nat) action" where
  "process_event x b row_id now env =
     transaction from_sqlx (\<lambda>pool.
       bindM (map_errM from_sqlx
                (try_record_stripe_event now (env_id env) (env_event_type env)))
         (\<lambda>fresh. if \<not> fresh then pure 200 else handle_event x b row_id now env pool))"

definition receive_webhook ::
  "webhook_env \<Rightarrow> billing_context option \<Rightarrow> string option \<Rightarrow> byte list \<Rightarrow> uuid \<Rightarrow> instant \<Rightarrow>
   (app_error, nat) action" where
  "receive_webhook x billing signature body row_id now =
     (case billing of
        None \<Rightarrow> throw (not_implemented ''billing not configured'')
      | Some b \<Rightarrow>
          (case signature of
             None \<Rightarrow> throw (bad_request ''missing Stripe-Signature header'')
           | Some sig \<Rightarrow>
               (case verify_webhook (x_hmac_sha256 x) (x_hex_decode x) (b_webhook_secret b)
                       sig body (now div 1000000000) of
                  Inl _ \<Rightarrow> throw (unauthorized ''invalid webhook signature'')
                | Inr _ \<Rightarrow>
                    (case x_decode_envelope x body of
                       Inl e \<Rightarrow> throw (bad_request (''malformed webhook payload: '' @ e))
                     | Inr env \<Rightarrow> process_event x b row_id now env))))"

subsection \<open>Lemmas\<close>

lemma keeps_handle_event [keeps_intros]: "keeps billing_inv (handle_event x b row_id now env pool)"
  unfolding handle_event_def resolve_user_id_def by (intro keeps_intros)

lemma keeps_receive_webhook [keeps_intros]:
  "keeps billing_inv (receive_webhook x billing signature body row_id now)"
  unfolding receive_webhook_def process_event_def by (intro keeps_intros)

lemma try_record_Inr:
  "try_record_stripe_event now eid ty w = (Inr b, w') \<Longrightarrow>
     record_event_sql now ty eid (db w) = (b, db w')"
  unfolding try_record_stripe_event_def
  by (cases rule: query_cases [of "\<lambda>d. case record_event_sql now ty eid d of (b, d') \<Rightarrow> (Inr b, d')" w])
     (auto split: prod.splits)

lemma process_event_atomic: "process_event x b row_id now env w = (Inl e, w') \<Longrightarrow> db w' = db w"
  unfolding process_event_def by (rule transaction_atomic)

text \<open>What a successful delivery has committed.\<close>

lemma process_event_committed:
  assumes "process_event x b row_id now env w = (Inr st, w')"
  shows "event_seen (db w) (env_id env) \<and> db w' = db w \<or>
         \<not> event_seen (db w) (env_id env) \<and>
           (\<exists>w1 w2. db w1 = snd (record_event_sql now (env_event_type env) (env_id env) (db w)) \<and>
              handle_event x b row_id now env (db w) w1 = (Inr st, w2) \<and> db w' = db w2)"
proof -
  from assms obtain w1 w2 where t: "db w1 = db w"
    "bindM (map_errM from_sqlx (try_record_stripe_event now (env_id env) (env_event_type env)))
       (\<lambda>fresh. if \<not> fresh then pure 200 else handle_event x b row_id now env (db w)) w1 = (Inr st, w2)"
    "db w' = db w2"
    unfolding process_event_def by (blast dest: transaction_committed)
  then obtain fresh wt where rec: "try_record_stripe_event now (env_id env) (env_event_type env) w1
        = (Inr fresh, wt)"
    and rest: "(if \<not> fresh then pure 200 else handle_event x b row_id now env (db w)) wt = (Inr st, w2)"
    by (auto simp: bindM_Inr_iff map_errM_Inr)
  have r: "record_event_sql now (env_event_type env) (env_id env) (db w) = (fresh, db wt)"
    using try_record_Inr [OF rec] t(1) by simp
  show ?thesis
  proof (cases "event_seen (db w) (env_id env)")
    case True
    with r rest t(3) show ?thesis by (simp add: record_event_sql_def pure_def)
  next
    case False
    with r have "fresh" by (simp add: record_event_sql_def)
    with r rest t(3) False show ?thesis by (intro disjI2 conjI exI [of _ wt] exI [of _ w2]) simp_all
  qed
qed

text \<open>No statement of the handler touches the table of events.\<close>

lemma update_subscriptions_events [simp]:
  "stripe_events (snd (update_subscriptions sel upd d)) = stripe_events d"
  by (simp add: update_subscriptions_def Let_def)

lemma insert_subscription_events [simp]:
  "stripe_events (snd (insert_subscription s d)) = stripe_events d"
  by (simp add: insert_subscription_def)

lemma webhook_sql_events [simp]: "stripe_events (snd (webhook_sql row_id now p d)) = stripe_events d"
  by (simp add: webhook_sql_def Let_def split: option.splits)

lemma keeps_events_handle_event:
  "keeps (\<lambda>d. stripe_events d = evs) (handle_event x b row_id now env pool)"
  unfolding handle_event_def resolve_user_id_def upsert_from_webhook_def reset_ai_credits_def
  by (intro keeps_intros) simp_all

lemma process_event_records:
  assumes "process_event x b row_id now env w = (Inr st, w')" "\<not> event_seen (db w) (env_id env)"
  shows "stripe_events (db w') = stripe_events (db w) @
    [\<lparr>e_id = env_id env, e_type = env_event_type env, e_processed_at = now\<rparr>]"
proof -
  from process_event_committed [OF assms(1)] assms(2) obtain w1 w2 where
    "db w1 = snd (record_event_sql now (env_event_type env) (env_id env) (db w))"
    "handle_event x b row_id now env (db w) w1 = (Inr st, w2)" "db w' = db w2"
    by blast
  with keepsD [OF keeps_events_handle_event, of w1 "stripe_events (db w1)"] assms(2)
  show ?thesis by (simp add: record_event_sql_def)
qed

subsection \<open>The subscription upsert under migration 0005\<close>

lemma webhook_sql_deployed:
  assumes "deployed d"
  shows "\<exists>e. webhook_sql row_id now p d = (Inl (Database e), d) \<and> e \<noteq> UniqueViolation"
  using assms
  by (auto simp: webhook_sql_def webhook_row_def proposed_row_error_def deployed_def
      team_id_required_def Let_def split: option.splits)

lemma upsert_from_webhook_deployed:
  assumes "deployed (db w)"
  shows "\<exists>e w'. map_errM from_sqlx (upsert_from_webhook row_id now p) w = (Inl e, w') \<and>
           db w' = db w \<and> err_code e = Internal"
proof (cases rule: query_cases [of "webhook_sql row_id now p" w])
  case (fault w')
  then show ?thesis
    by (simp add: upsert_from_webhook_def map_errM_def map_err_def err_defs)
next
  case (ran w')
  from webhook_sql_deployed [OF assms] obtain e where
    e: "webhook_sql row_id now p (db w) = (Inl (Database e), db w)" "e \<noteq> UniqueViolation" by blast
  have "err_code (from_sqlx (Database e)) = Internal"
    using e(2) by (cases e) (simp_all add: err_defs)
  with ran e show ?thesis by (simp add: upsert_from_webhook_def map_errM_def map_err_def)
qed

lemma handle_subscription_deployed:
  assumes "deployed (db w)" "is_subscription_event (env_event_type env)"
    and "x_decode_subscription x (env_object env) = Inr sub"
    and "user_of_customer pool (so_customer sub) = Some u"
  shows "\<exists>e w'. handle_event x b row_id now env pool w = (Inl e, w') \<and> err_code e = Internal"
proof (cases "map_errM from_sqlx (resolve_user_id pool sub) w")
  case (Pair r w1)
  show ?thesis
  proof (cases r)
    case (Inl e)
    from Pair Inl have "e = from_sqlx Io"
      by (auto simp: map_errM_Inl resolve_user_id_def dest: select_Inl)
    with Pair Inl assms show ?thesis by (simp add: handle_event_def bindM_def err_defs)
  next
    case (Inr uid)
    with Pair assms(4) have "uid = Some u" "db w1 = db w"
      by (auto simp: map_errM_Inr resolve_user_id_def dest!: select_Inr)
    with assms(1) upsert_from_webhook_deployed [of w1 row_id now "upsert_of x (b_prices b) sub u"]
      Pair Inr assms(2,3)
    show ?thesis by (auto simp: handle_event_def bindM_def)
  qed
qed

lemma try_record_Inl: "try_record_stripe_event now eid ty w = (Inl e, w') \<Longrightarrow> e = Io"
  unfolding try_record_stripe_event_def
  by (cases rule: query_cases [of "\<lambda>d. case record_event_sql now ty eid d of (b, d') \<Rightarrow> (Inr b, d')" w])
     (auto split: prod.splits)

lemma process_subscription_error:
  assumes "process_event x b row_id now env w = (Inl e, w')" "deployed (db w)"
    and "is_subscription_event (env_event_type env)"
    and "x_decode_subscription x (env_object env) = Inr sub"
    and "user_of_customer (db w) (so_customer sub) = Some u"
  shows "err_code e = Internal"
  using assms(1) unfolding process_event_def
proof (cases rule: transaction_error)
  case (driver)
  then show ?thesis by (simp add: err_defs)
next
  case (body w1 w2)
  then consider (rec) "map_errM from_sqlx (try_record_stripe_event now (env_id env) (env_event_type env)) w1 = (Inl e, w2)"
    | (handle) wt where "try_record_stripe_event now (env_id env) (env_event_type env) w1 = (Inr True, wt)"
        "handle_event x b row_id now env (db w) wt = (Inl e, w2)"
    by (auto simp: bindM_Inl_iff map_errM_Inr pure_def split: if_splits)
  then show ?thesis
  proof cases
    case rec
    then show ?thesis by (auto simp: map_errM_Inl err_defs dest!: try_record_Inl)
  next
    case handle
    have "db wt = snd (record_event_sql now (env_event_type env) (env_id env) (db w))"
      using try_record_Inr [OF handle(1)] body(1) by simp
    with assms(2) have "deployed (db wt)" by (simp add: record_event_sql_def deployed_def)
    from handle_subscription_deployed [OF this assms(3-5), of b row_id now] handle(2)
    show ?thesis by auto
  qed
qed

subsection \<open>Replays\<close>

lemma process_event_seen:
  assumes "process_event x b row_id now env w = (Inr st, w')"
  shows "event_seen (db w') (env_id env)"
proof (cases "event_seen (db w) (env_id env)")
  case True
  with process_event_committed [OF assms] show ?thesis by auto
next
  case False
  with process_event_records [OF assms] show ?thesis by (simp add: event_seen_def)
qed

lemma process_event_replay:
  assumes "event_seen (db w) (env_id env)"
  shows "db (snd (process_event x b row_id now env w)) = db w"
proof (cases "process_event x b row_id now env w")
  case (Pair r w')
  with assms process_event_committed [of x b row_id now env w _ w']
    process_event_atomic [of x b row_id now env w _ w']
  show ?thesis by (cases r) auto
qed

lemma handle_event_200: "handle_event x b row_id now env pool w = (Inr st, w') \<Longrightarrow> st = 200"
  unfolding handle_event_def
  by (auto simp: throw_def pure_def bindM_Inr_iff split: if_splits sum.splits option.splits prod.splits)

lemma process_event_200: "process_event x b row_id now env w = (Inr st, w') \<Longrightarrow> st = 200"
  unfolding process_event_def
  by (auto simp: bindM_Inr_iff pure_def dest!: transaction_committed handle_event_200 split: if_splits)

lemma event_recorded_once:
  assumes "billing_inv d" "event_seen d eid"
  shows "length (filter (\<lambda>e. e_id e = eid) (stripe_events d)) = 1"
proof -
  have "distinct (map e_id (stripe_events d))"
    using assms(1) by (simp add: billing_inv_def unique_on_def List.map_filter_def comp_def)
  then have "length (filter (\<lambda>e. e_id e = eid) (stripe_events d)) \<le> 1"
    by (rule filter_key_le_1)
  with assms(2) show ?thesis
    by (cases "filter (\<lambda>e. e_id e = eid) (stripe_events d)")
       (auto simp: event_seen_def filter_empty_conv)
qed

subsection \<open>A concrete instance\<close>

text \<open>One user with an active subscription, and payloads for it, on which the theorems are
  evaluated.  The authentication code is a constant and the decoders know one body each.\<close>

definition sample_user :: user where
  "sample_user =
     \<lparr>u_id = 1, u_supabase_user_id = 101, u_email = ''a@b.c'', u_display_name = None,
      u_avatar_url = None, u_created_at = 0, u_updated_at = 0, u_deleted_at = None\<rparr>"

definition sample_subscription :: subscription where
  "sample_subscription =
     \<lparr>s_id = 10, s_user_id = 1, s_customer_id = Some ''cus_1'', s_subscription_id = Some ''sub_1'',
      s_tier = ''basic'', s_status = Active, s_period_start = None, s_period_end = None,
      s_cancel_at_period_end = False, s_credits_used = 42, s_credits_period_start = None,
      s_updated_at = 0, s_team_id = Some 5\<rparr>"

definition sample_database :: database where
  "sample_database = (empty_database 6)\<lparr>users := [sample_user], subscriptions := [sample_subscription]\<rparr>"

definition sample_envelope :: "string \<Rightarrow> envelope" where
  "sample_envelope ty = \<lparr>env_id = ''evt_1'', env_event_type = ty, env_object = JNull\<rparr>"

definition sample_env :: "string \<Rightarrow> webhook_env" where
  "sample_env ty =
     \<lparr>x_hmac_sha256 = \<lambda>k m. [7], x_hex_decode = \<lambda>s. if s = ''07'' then Some [7] else None,
      x_decode_envelope = \<lambda>_. Inr (sample_envelope ty),
      x_decode_subscription = \<lambda>_. Inr \<lparr>so_id = ''sub_1'', so_customer = ''cus_1'',
        so_status = ''active'', so_cancel_at_period_end = False, so_current_period_start = None,
        so_current_period_end = None, so_item_prices = []\<rparr>,
      x_decode_invoice = \<lambda>_. Inr \<lparr>inv_subscription = Some ''sub_1'', inv_period_start = Some 5\<rparr>,
      x_from_unix_timestamp = \<lambda>t. Some (t * 1000000000)\<rparr>"

definition sample_context :: billing_context where
  "sample_context =
     \<lparr>b_stripe = \<lparr>sc_secret_key = ''sk'', sc_send = \<lambda>_. Inl ''down'',
        sc_decode_customer = \<lambda>_. Inl ''bad'', sc_decode_session = \<lambda>_. Inl ''bad'',
        sc_show_uuid = \<lambda>_. ''id''\<rparr>,
      b_prices = \<lparr>basic_monthly = ''pb'', basic_yearly = [], pro_monthly = ''pp'', pro_yearly = [],
        enterprise_monthly = [], enterprise_yearly = []\<rparr>,
      b_webhook_secret = ''whsec'', b_return_url = ''https://x/y'', b_openai_key = None\<rparr>"

definition sample_signature :: string where
  "sample_signature = ''t=900,v1=07''"

lemma sample_inv: "billing_inv sample_database"
  by (simp add: billing_inv_def sample_database_def empty_database_def sample_subscription_def
      subscription_indexes_def unique_on_def map_filter_Cons active_user_key_def active_team_key_def
      billable_def tier_slugs_def i32_range_def)

lemma sample_verify:
  "verify_webhook (\<lambda>k m. [7]) (\<lambda>s. if s = ''07'' then Some [7] else None) whsec sample_signature body 1000
     = Inr 900"
  by (simp add: verify_webhook_Inr_iff parse_header_def header_part_def parse_i64_def read_nat_def
      char_digit_def within_tolerance_iff i64_range_def sample_signature_def str_simps)

lemma sample_receive:
  "receive_webhook (sample_env ty) (Some sample_context) (Some sample_signature) body row_id 1000000000000
     = process_event (sample_env ty) sample_context row_id 1000000000000 (sample_envelope ty)"
  using sample_verify [of "''whsec''" body]
  by (simp add: receive_webhook_def sample_env_def sample_context_def)

lemmas sample_defs =
  sample_database_def sample_subscription_def sample_user_def sample_envelope_def
  sample_context_def empty_database_def

subsection \<open>Properties\<close>

text \<open>C2: a delivery that is not answered with success leaves the database exactly as it was,
  whichever of its round trips to Postgres fails and whatever is wrong with the request; in
  particular the event is not marked as processed, so that a retry by Stripe is handled.\<close>

theorem receive_webhook_atomic:
  assumes "receive_webhook x billing signature body row_id now w = (Inl e, w')"
  shows "db w' = db w"
  using assms unfolding receive_webhook_def
  by (auto simp: throw_def dest: process_event_atomic split: option.splits sum.splits)

theorem receive_webhook_atomic_witness:
  "receive_webhook (sample_env ''invoice.paid'') (Some sample_context) (Some sample_signature) [] 1
     1000000000000 \<lparr>db = sample_database, faults = [False, False, False, True]\<rparr>
   = (Inl (from_sqlx Io), \<lparr>db = sample_database, faults = []\<rparr>) \<and>
   db \<lparr>db = sample_database, faults = []\<rparr> = sample_database"
proof -
  have r: "receive_webhook (sample_env ''invoice.paid'') (Some sample_context) (Some sample_signature) [] 1
     1000000000000 \<lparr>db = sample_database, faults = [False, False, False, True]\<rparr>
   = (Inl (from_sqlx Io), \<lparr>db = sample_database, faults = []\<rparr>)"
    unfolding sample_receive unfolding sample_env_def
    by (simp add: process_event_def transaction_def select_def query_def act_simps
        try_record_stripe_event_def record_event_sql_def event_seen_def handle_event_def
        is_subscription_event_def reset_ai_credits_def update_subscriptions_def map_err_def ts_def
        subscription_indexes_def unique_on_def map_filter_Cons active_user_key_def
        active_team_key_def billable_def sample_defs)
  with receive_webhook_atomic [OF r] show ?thesis by simp
qed

text \<open>C1: processing is exactly once per event id.  After a successful delivery the event is
  in the table of processed events, once; delivering the same body again - at any later time,
  with any signature header and any pattern of database faults - changes nothing.\<close>

theorem receive_webhook_once:
  assumes first: "receive_webhook x (Some b) signature body row_id now w = (Inr st, w1)"
    and same: "db w2 = db w1"
    and inv: "billing_inv (db w)"
  shows "(\<exists>env. x_decode_envelope x body = Inr env \<and>
            length (filter (\<lambda>e. e_id e = env_id env) (stripe_events (db w1))) = 1) \<and>
         db (snd (receive_webhook x (Some b) signature' body row_id' now' w2)) = db w1"
proof -
  from first obtain env where env: "x_decode_envelope x body = Inr env"
    and p: "process_event x b row_id now env w = (Inr st, w1)"
    by (auto simp: receive_webhook_def throw_def split: option.splits sum.splits)
  have seen: "event_seen (db w1) (env_id env)" using p by (rule process_event_seen)
  have "billing_inv (db w1)" using keepsD [OF keeps_receive_webhook inv first] .
  then have "length (filter (\<lambda>e. e_id e = env_id env) (stripe_events (db w1))) = 1"
    using seen by (rule event_recorded_once)
  moreover have "db (snd (receive_webhook x (Some b) signature' body row_id' now' w2)) = db w2"
    using seen same process_event_replay [of w2 env x b row_id' now']
    by (auto simp: receive_webhook_def throw_def env split: option.splits sum.splits)
  ultimately show ?thesis using env same by auto
qed

theorem receive_webhook_once_witness:
  "\<exists>w1 :: world. fst (receive_webhook (sample_env ''ping'') (Some sample_context) (Some sample_signature) [] 1
          1000000000000 \<lparr>db = sample_database, faults = []\<rparr>) = Inr 200 \<and>
     db (snd (receive_webhook (sample_env ''ping'') (Some sample_context) (Some sample_signature) [] 2
          1000000000001 \<lparr>db = db w1, faults = [False, True]\<rparr>)) = db w1 \<and>
     length (stripe_events (db w1)) = 1"
proof -
  define w1 where "w1 = \<lparr>db = sample_database\<lparr>stripe_events :=
       [\<lparr>e_id = ''evt_1'', e_type = ''ping'', e_processed_at = 1000000000000\<rparr>]\<rparr>, faults = []\<rparr>"
  have r: "receive_webhook (sample_env ''ping'') (Some sample_context) (Some sample_signature) [] 1
     1000000000000 \<lparr>db = sample_database, faults = []\<rparr> = (Inr 200, w1)"
    unfolding sample_receive w1_def
    by (simp add: process_event_def transaction_no_faults act_simps try_record_stripe_event_def
        record_event_sql_def event_seen_def handle_event_def is_subscription_event_def map_err_def
        sample_defs)
  have "db (snd (receive_webhook (sample_env ''ping'') (Some sample_context) (Some sample_signature) [] 2
          1000000000001 \<lparr>db = db w1, faults = [False, True]\<rparr>)) = db w1"
    using receive_webhook_once [OF r, of "\<lparr>db = db w1, faults = [False, True]\<rparr>"] sample_inv by simp
  with r show ?thesis by (intro exI [of _ w1]) (simp add: w1_def)
qed

text \<open>No unsigned request reaches the database.  A delivery is answered with success only if
  billing is configured, a signature header is present and it verifies against the webhook secret
  of this service; the answer is then 200.\<close>

theorem receive_webhook_authentic:
  assumes "receive_webhook x billing signature body row_id now w = (Inr st, w')"
  shows "st = 200 \<and> (\<exists>b sig t. billing = Some b \<and> signature = Some sig \<and>
           verify_webhook (x_hmac_sha256 x) (x_hex_decode x) (b_webhook_secret b) sig body
             (now div 1000000000) = Inr t)"
  using assms process_event_200
  by (auto simp: receive_webhook_def throw_def split: option.splits sum.splits)

theorem receive_webhook_authentic_witness:
  "\<exists>t. verify_webhook (x_hmac_sha256 (sample_env ''ping'')) (x_hex_decode (sample_env ''ping''))
     (b_webhook_secret sample_context) sample_signature [] 1000 = Inr t"
proof -
  have r: "receive_webhook (sample_env ''ping'') (Some sample_context) (Some sample_signature) [] 1
     1000000000000 \<lparr>db = sample_database, faults = []\<rparr> = (Inr 200, \<lparr>db = sample_database\<lparr>stripe_events :=
       [\<lparr>e_id = ''evt_1'', e_type = ''ping'', e_processed_at = 1000000000000\<rparr>]\<rparr>, faults = []\<rparr>)"
    unfolding sample_receive
    by (simp add: process_event_def transaction_no_faults act_simps try_record_stripe_event_def
        record_event_sql_def event_seen_def handle_event_def is_subscription_event_def map_err_def
        sample_defs)
  from receive_webhook_authentic [OF r] show ?thesis by simp
qed

text \<open>C17: a paid invoice opens a new credit period.  On a database without faults the first
  delivery of \<open>invoice.paid\<close> sets the used credits of the named subscription to zero and its
  period start to that of the invoice, leaves every other subscription as it is, and records the
  event.\<close>

theorem invoice_paid_resets:
  assumes "faults w = []" "\<not> event_seen (db w) (env_id env)" "billing_inv (db w)"
    and "env_event_type env = ''invoice.paid''"
    and "x_decode_invoice x (env_object env) = Inr invoice"
    and "inv_subscription invoice = Some sid" "ts x (inv_period_start invoice) = Some start"
  shows "process_event x b row_id now env w =
     (Inr 200, w\<lparr>db := (db w)\<lparr>
        subscriptions := map (\<lambda>s. if s_subscription_id s = Some sid
            then s\<lparr>s_credits_used := 0, s_credits_period_start := Some start, s_updated_at := now\<rparr>
            else s) (subscriptions (db w)),
        stripe_events := stripe_events (db w) @
          [\<lparr>e_id = env_id env, e_type = ''invoice.paid'', e_processed_at = now\<rparr>]\<rparr>\<rparr>)"
proof -
  have ix: "subscription_indexes (map (\<lambda>s. if s_subscription_id s = Some sid
      then s\<lparr>s_credits_used := 0, s_credits_period_start := Some start, s_updated_at := now\<rparr>
      else s) (subscriptions (db w)))"
    using assms(3) by (subst subscription_indexes_map) (auto simp: billing_inv_def)
  show ?thesis
    using assms ix
    by (simp add: process_event_def transaction_no_faults act_simps try_record_stripe_event_def
        record_event_sql_def handle_event_def is_subscription_event_def reset_ai_credits_def
        update_subscriptions_def map_err_def Let_def)
qed

theorem invoice_paid_resets_witness:
  "process_event (sample_env ''invoice.paid'') sample_context 1 9 (sample_envelope ''invoice.paid'')
     \<lparr>db = sample_database, faults = []\<rparr> =
   (Inr 200, \<lparr>db = sample_database\<lparr>
      subscriptions := [sample_subscription\<lparr>s_credits_used := 0,
        s_credits_period_start := Some 5000000000, s_updated_at := 9\<rparr>],
      stripe_events := [\<lparr>e_id = ''evt_1'', e_type = ''invoice.paid'', e_processed_at = 9\<rparr>]\<rparr>,
     faults = []\<rparr>)"
  by (subst invoice_paid_resets [where invoice = "\<lparr>inv_subscription = Some ''sub_1'', inv_period_start = Some 5\<rparr>"
        and sid = "''sub_1''" and start = 5000000000])
     (simp_all add: sample_inv, simp_all add: event_seen_def sample_env_def ts_def sample_defs)

text \<open>C19: under the deployed schema a subscription event of a known customer can never be
  processed: every delivery of an event that is not already recorded as processed, whatever its
  payload and with or without faults, ends in an internal error (500) with nothing committed.  The
  statement behind it leaves out \<open>team_id\<close>, which migration 0005 makes \<open>NOT NULL\<close> without a default;
  Postgres tests the proposed row before it looks at \<open>ON CONFLICT\<close>.\<close>

theorem subscription_event_fails_deployed:
  assumes "deployed (db w)" "is_subscription_event (env_event_type env)"
    and "x_decode_subscription x (env_object env) = Inr sub"
    and "user_of_customer (db w) (so_customer sub) = Some u"
    and "\<not> event_seen (db w) (env_id env)"
  shows "\<exists>e w'. process_event x b row_id now env w = (Inl e, w') \<and> err_code e = Internal \<and> db w' = db w"
proof (cases "process_event x b row_id now env w")
  case (Pair r w')
  show ?thesis
  proof (cases r)
    case (Inr st)
    with Pair process_event_committed [of x b row_id now env w st w'] assms(5) obtain w1 w2 where
      "db w1 = snd (record_event_sql now (env_event_type env) (env_id env) (db w))"
      "handle_event x b row_id now env (db w) w1 = (Inr st, w2)" by blast
    moreover from this(1) assms(1) have "deployed (db w1)"
      by (simp add: record_event_sql_def deployed_def)
    ultimately show ?thesis
      using handle_subscription_deployed [OF _ assms(2-4), of w1 b row_id now] by simp
  next
    case (Inl e)
    with Pair have "err_code e = Internal" "db w' = db w"
      using process_subscription_error [OF _ assms(1-4)] process_event_atomic by blast+
    with Pair Inl show ?thesis by blast
  qed
qed

theorem subscription_event_fails_deployed_witness:
  "\<exists>e w'. process_event (sample_env ''customer.subscription.updated'') sample_context 1 9
       (sample_envelope ''customer.subscription.updated'') \<lparr>db = sample_database, faults = []\<rparr> = (Inl e, w') \<and>
     err_code e = Internal \<and> db w' = sample_database"
  using subscription_event_fails_deployed
    [of "\<lparr>db = sample_database, faults = []\<rparr>" "sample_envelope ''customer.subscription.updated''"
        "sample_env ''customer.subscription.updated''"
        "\<lparr>so_id = ''sub_1'', so_customer = ''cus_1'', so_status = ''active'',
          so_cancel_at_period_end = False, so_current_period_start = None,
          so_current_period_end = None, so_item_prices = []\<rparr>" 1 sample_context 1 9]
  by (simp add: deployed_def is_subscription_event_def user_of_customer_def event_seen_def
      sample_env_def sample_defs)

end
