(* ===== verification/Billing_Handlers.thy ===== *)
theory Billing_Handlers
  imports Stripe_Webhook
begin

text \<open>
  The HTTP handlers of \<^verbatim>\<open>src/billing/handlers.rs\<close>: checkout, customer portal, usage reports and
  the plan list.  The authenticated user is the local row the extractor hands over; \<open>row_id\<close>
  and \<open>now\<close> are the values of \<open>gen_random_uuid()\<close> and \<open>now()\<close> in the statements.
\<close>

fun stripe_to_app_error :: "stripe_error \<Rightarrow> app_error" where
  "stripe_to_app_error (Transport e) =
     with_source e (service_unavailable ''upstream payment service unreachable'')"
| "stripe_to_app_error (Api status body) =
     service_unavailable ''payment service returned an error''"
| "stripe_to_app_error (Signature reason) = unauthorized ''invalid webhook signature''"

subsection \<open>Checkout and portal\<close>

record checkout_request =
  ck_plan :: string
  ck_interval :: string

definition ensure_customer ::
  "billing_context \<Rightarrow> uuid \<Rightarrow> instant \<Rightarrow> user \<Rightarrow> (app_error, string) action" where
  "ensure_customer b row_id now u =
     bindM (map_errM from_sqlx (fetch_customer_id (u_id u))) (\<lambda>found.
       case found of
         Some cid \<Rightarrow> pure cid
       | None \<Rightarrow>
           bindM (of_result (map_err stripe_to_app_error
                     (create_customer (b_stripe b) (u_email u) (u_id u)))) (\<lambda>c.
             bindM (map_errM from_sqlx
                      (upsert_customer_stub row_id now (u_id u) (cus_id c))) (\<lambda>_.
               pure (cus_id c))))"

definition checkout_params :: "billing_context \<Rightarrow> user \<Rightarrow> string \<Rightarrow> string \<Rightarrow> checkout_session_params" where
  "checkout_params b u customer_id price_id =
     \<lparr>p_customer_id = customer_id, p_price_id = price_id,
      p_success_url = b_return_url b @ ''?status=success'',
      p_cancel_url = b_return_url b @ ''?status=canceled'',
      p_client_reference_id = u_id u\<rparr>"

definition create_checkout_session_handler ::
  "billing_context option \<Rightarrow> uuid \<Rightarrow> instant \<Rightarrow> user \<Rightarrow> checkout_request \<Rightarrow>
   (app_error, string) action" where
  "create_checkout_session_handler billing row_id now u req =
     (case billing of
        None \<Rightarrow> throw (not_implemented ''billing is not configured on this server'')
      | Some b \<Rightarrow>
          bindM (of_result (map_err bad_request (parse_plan (ck_plan req)))) (\<lambda>plan.
          bindM (of_result (map_err bad_request (parse_interval (ck_interval req)))) (\<lambda>interval.
          bindM (of_result (ok_or (bad_request ''plan/interval not available'')
                   (lookup_price (b_prices b) plan interval))) (\<lambda>price_id.
          bindM (ensure_customer b row_id now u) (\<lambda>customer_id.
          bindM (of_result (map_err stripe_to_app_error
                   (create_checkout_session (b_stripe b)
                      (checkout_params b u customer_id price_id)))) (\<lambda>s.
            pure (ses_url s)))))))"

definition create_portal_session ::
  "billing_context option \<Rightarrow> user \<Rightarrow> (app_error, string) action" where
  "create_portal_session billing u =
     (case billing of
        None \<Rightarrow> throw (not_implemented ''billing is not configured on this server'')
      | Some b \<Rightarrow>
          bindM (map_errM from_sqlx (fetch_customer_id (u_id u))) (\<lambda>found.
          bindM (of_result (ok_or (not_found ''no Stripe customer for this user'') found))
            (\<lambda>customer_id.
          bindM (of_result (map_err stripe_to_app_error
                   (create_billing_portal_session (b_stripe b) customer_id (b_return_url b))))
            (\<lambda>s. pure (ses_url s)))))"

subsection \<open>Usage reports\<close>

record usage_request =
  us_metric :: string
  us_units :: int
  us_model :: "string option"
  us_kind :: "string option"

definition record_usage_handler :: "instant \<Rightarrow> user \<Rightarrow> usage_request \<Rightarrow> (app_error, nat) action" where
  "record_usage_handler now u req =
     (if us_metric req \<notin> {''ai_reply'', ''broker_poll'', ''csv_intel'', ''market_refresh''}
      then throw (bad_request ''unknown metric'')
      else if us_units req < 0 then throw (bad_request ''units must be non-negative'')
      else bindM (transaction from_sqlx (\<lambda>_. map_errM from_sqlx
             (record_usage now (u_id u) (us_metric req) (us_units req) 0 (us_model req) (us_kind req))))
           (\<lambda>_. pure 202))"

subsection \<open>The plan list\<close>

text \<open>Prices are the decimal literals of the source, in cents; the price per month of a yearly
  plan is the quotient the source writes, dividend and divisor.\<close>

datatype plan_limit_value = Limited int | Unlimited string

record price_dto =
  monthly_cents :: int
  yearly_cents :: int
  yearly_per_month :: "(int \<times> int) option"

record limits_dto =
  household_size :: int
  institution_connections :: plan_limit_value
  devices :: int

record plan_dto =
  pl_id :: string
  pl_name :: string
  pl_tagline :: "string option"
  pl_description :: string
  pl_pricing :: price_dto
  pl_limits :: limits_dto
  pl_features :: "string list"
  pl_features_extended :: "string list option"
  pl_is_available :: bool
  pl_is_coming_soon :: bool
  pl_badge :: "string option"
  pl_yearly_discount_percent :: "int option"

definition list_plans :: "app_error + plan_dto list" where
  "list_plans = Inr
     [\<lparr>pl_id = ''basic'', pl_name = ''Basic'', pl_tagline = Some ''Track your full wealth.'',
       pl_description = ''5 portfolios, full multi-currency, managed Mizan AI, device sync, cloud backup.'',
       pl_pricing = \<lparr>monthly_cents = 1999, yearly_cents = 19900, yearly_per_month = Some (19900, 12)\<rparr>,
       pl_limits = \<lparr>household_size = 1, institution_connections = Limited 0, devices = 5\<rparr>,
       pl_features = [''5 portfolios'', ''All asset classes'', ''Managed Mizan AI (300 credits/mo)'',
         ''Device sync + cloud backup'', ''20 CSV imports/mo''],
       pl_features_extended = None, pl_is_available = True, pl_is_coming_soon = False,
       pl_badge = None, pl_yearly_discount_percent = Some 17\<rparr>,
      \<lparr>pl_id = ''pro'', pl_name = ''Pro'',
       pl_tagline = Some ''Serious investors, expats, multi-country families.'',
       pl_description = ''25 portfolios, unlimited holdings, 5 broker connections, advanced reports.'',
       pl_pricing = \<lparr>monthly_cents = 3999, yearly_cents = 39900, yearly_per_month = Some (39900, 12)\<rparr>,
       pl_limits = \<lparr>household_size = 1, institution_connections = Limited 5, devices = 10\<rparr>,
       pl_features = [''Up to 25 portfolios'', ''Unlimited holdings'', ''5 broker connections'',
         ''Mizan AI (1500 credits/mo)'', ''Advanced reports + portfolio health''],
       pl_features_extended = None, pl_is_available = True, pl_is_coming_soon = False,
       pl_badge = Some ''Most popular'', pl_yearly_discount_percent = Some 17\<rparr>,
      \<lparr>pl_id = ''enterprise'', pl_name = ''Enterprise'',
       pl_tagline = Some ''Advisors, accountants, family offices.'',
       pl_description = ''Unlimited everything, advisor/client dashboards, white-label reports.'',
       pl_pricing = \<lparr>monthly_cents = 24900, yearly_cents = 249000, yearly_per_month = Some (249000, 12)\<rparr>,
       pl_limits = \<lparr>household_size = 50, institution_connections = Unlimited ''unlimited'', devices = 50\<rparr>,
       pl_features = [''Unlimited portfolios + holdings'', ''Client dashboards + white-label'',
         ''Team roles'', ''Priority support''],
       pl_features_extended = None, pl_is_available = True, pl_is_coming_soon = False,
       pl_badge = None, pl_yearly_discount_percent = Some 17\<rparr>]"

text \<open>A limit of the plan list as a quota of the entitlements.\<close>

fun limit_quota :: "plan_limit_value \<Rightarrow> int" where
  "limit_quota (Limited n) = n"
| "limit_quota (Unlimited _) = UNLIMITED"

subsection \<open>Lemmas\<close>

lemma keeps_ensure_customer [keeps_intros]: "keeps billing_inv (ensure_customer b row_id now u)"
  unfolding ensure_customer_def fetch_customer_id_def by (intro keeps_intros)

lemma keeps_create_checkout_session_handler [keeps_intros]:
  "keeps billing_inv (create_checkout_session_handler billing row_id now u req)"
  unfolding create_checkout_session_handler_def by (intro keeps_intros)

lemma keeps_record_usage_handler [keeps_intros]: "keeps billing_inv (record_usage_handler now u req)"
  unfolding record_usage_handler_def by (intro keeps_intros)

lemma reads_only_create_portal_session: "reads_only (create_portal_session billing u)"
  unfolding reads_only_def create_portal_session_def fetch_customer_id_def
  by (auto simp: bindM_def map_errM_def of_result_def pure_def throw_def
      dest: reads_onlyD [OF reads_only_select] split: option.splits sum.splits prod.splits)

lemma customer_stub_sql_deployed:
  "deployed d \<Longrightarrow> customer_stub_sql row_id uid cid now d = (Inl (Database NotNullViolation), d)"
  by (simp add: customer_stub_sql_def customer_stub_def proposed_row_error_def deployed_def
      team_id_required_def Let_def)

lemma ensure_customer_deployed:
  assumes "deployed (db w)"
  shows "ensure_customer b row_id now u w = (Inr cid, w') \<longleftrightarrow>
     customer_id_of (db w) (u_id u) = Some cid \<and> fetch_customer_id (u_id u) w = (Inr (Some cid), w')"
    and "db (snd (ensure_customer b row_id now u w)) = db w"
proof -
  have stub: "\<exists>e w2. upsert_customer_stub row_id now (u_id u) c w1 = (Inl e, w2) \<and> db w2 = db w1"
    if "db w1 = db w" for w1 c
    using that assms customer_stub_sql_deployed [of "db w" row_id "u_id u" c now]
    by (cases rule: query_cases [of "customer_stub_sql row_id (u_id u) c now" w1])
       (simp_all add: upsert_customer_stub_def)
  have sel: "db w1 = db w" if "fetch_customer_id (u_id u) w = (r, w1)" for r w1
    using that unfolding fetch_customer_id_def by (rule reads_onlyD [OF reads_only_select])
  show "ensure_customer b row_id now u w = (Inr cid, w') \<longleftrightarrow>
     customer_id_of (db w) (u_id u) = Some cid \<and> fetch_customer_id (u_id u) w = (Inr (Some cid), w')"
    (is "?l = ?r")
  proof
    assume ?l
    then obtain found w1 where f: "fetch_customer_id (u_id u) w = (Inr found, w1)"
      and rest: "(case found of Some cid \<Rightarrow> pure cid | None \<Rightarrow>
           bindM (of_result (map_err stripe_to_app_error
                     (create_customer (b_stripe b) (u_email u) (u_id u)))) (\<lambda>c.
             bindM (map_errM from_sqlx
                      (upsert_customer_stub row_id now (u_id u) (cus_id c))) (\<lambda>_.
               pure (cus_id c)))) w1 = (Inr cid, w')"
      by (auto simp: ensure_customer_def bindM_Inr_iff map_errM_Inr)
    have "found = customer_id_of (db w) (u_id u)"
      using f unfolding fetch_customer_id_def by (auto dest: select_Inr)
    with f rest stub sel [OF f] show ?r
      by (auto simp: bindM_Inr_iff map_errM_Inr of_result_def pure_def split: option.splits)
         (metis Inl_Inr_False fst_conv)
  next
    assume ?r
    then show ?l by (simp add: ensure_customer_def bindM_def map_errM_def map_err_def pure_def)
  qed
  show "db (snd (ensure_customer b row_id now u w)) = db w"
  proof (cases "fetch_customer_id (u_id u) w")
    case (Pair r w1)
    with sel stub [of w1] show ?thesis
      by (auto simp: ensure_customer_def bindM_def map_errM_def map_err_def pure_def of_result_def
          split: sum.splits option.splits prod.splits) (metis snd_conv)+
  qed
qed

lemma checkout_Inr:
  assumes "create_checkout_session_handler (Some b) row_id now u req w = (Inr url, w')"
  shows "\<exists>plan interval price cid s.
     parse_plan (ck_plan req) = Inr plan \<and> parse_interval (ck_interval req) = Inr interval \<and>
     lookup_price (b_prices b) plan interval = Some price \<and>
     ensure_customer b row_id now u w = (Inr cid, w') \<and>
     create_checkout_session (b_stripe b) (checkout_params b u cid price) = Inr s \<and> url = ses_url s"
  using assms
  by (force simp: create_checkout_session_handler_def bindM_Inr_iff of_result_def pure_def)

text \<open>What a session that was opened had been asked for.\<close>

lemma checkout_session_request:
  assumes "create_checkout_session c p = Inr s"
  shows "\<exists>rq status body. sc_send c rq = Inr (status, Inr body) \<and> is_success status \<and>
     sc_decode_session c body = Inr s \<and>
     rq_url rq = ''https://api.stripe.com/v1/checkout/sessions'' \<and>
     filter (\<lambda>(k, v). take 10 k = ''line_items'') (rq_form rq) =
       [(''line_items[0][price]'', p_price_id p), (''line_items[0][quantity]'', ''1'')] \<and>
     map_of (rq_form rq) ''mode'' = Some ''subscription''"
  using assms
  by (force simp: create_checkout_session_def post_form_def post_form_impl_Inr_iff STRIPE_API_BASE_def)

subsection \<open>Properties\<close>

text \<open>C18: what is bought is what is granted.  If no Price ID is configured for two plans, then the
  URL a successful checkout answers with is the one of the session that Stripe opened for exactly
  one unit of the price configured for the requested plan and interval; for a subscription with
  that price as its one item (and no plan in the metadata) the webhook resolves the tier of the
  same plan; that tier passes the \<open>CHECK\<close> of the subscriptions table and an active subscription
  with it carries the managed AI entitlement under the name of the plan.\<close>

theorem bought_plan_is_granted:
  assumes "prices_distinct (b_prices b)"
    and "create_checkout_session_handler (Some b) row_id now u req w = (Inr url, w')"
  shows "\<exists>plan interval price. parse_plan (ck_plan req) = Inr plan \<and>
     parse_interval (ck_interval req) = Inr interval \<and>
     lookup_price (b_prices b) plan interval = Some price \<and>
     (\<exists>rq status body s. sc_send (b_stripe b) rq = Inr (status, Inr body) \<and> is_success status \<and>
        sc_decode_session (b_stripe b) body = Inr s \<and> url = ses_url s \<and>
        rq_url rq = ''https://api.stripe.com/v1/checkout/sessions'' \<and>
        filter (\<lambda>(k, v). take 10 k = ''line_items'') (rq_form rq) =
          [(''line_items[0][price]'', price), (''line_items[0][quantity]'', ''1'')] \<and>
        map_of (rq_form rq) ''mode'' = Some ''subscription'') \<and>
     (\<forall>sub. so_item_prices sub = [\<lparr>pr_id = price, pr_metadata_plan = None\<rparr>] \<longrightarrow>
        w_tier (upsert_of x (b_prices b) sub (u_id u)) = plan_slug plan) \<and>
     plan_slug plan \<in> set tier_slugs \<and>
     managed_ai (entitlements_for (Some (plan_slug plan)) (Some ''active'')) \<and>
     ent_plan (entitlements_for (Some (plan_slug plan)) (Some ''active'')) = plan_slug plan"
proof -
  from checkout_Inr [OF assms(2)] obtain plan interval price cid s where
    p: "parse_plan (ck_plan req) = Inr plan" "parse_interval (ck_interval req) = Inr interval"
      "lookup_price (b_prices b) plan interval = Some price"
    and s: "create_checkout_session (b_stripe b) (checkout_params b u cid price) = Inr s" "url = ses_url s" by blast
  from checkout_session_request [OF s(1)] s(2)
  have sent: "\<exists>rq status body s. sc_send (b_stripe b) rq = Inr (status, Inr body) \<and> is_success status \<and>
        sc_decode_session (b_stripe b) body = Inr s \<and> url = ses_url s \<and>
        rq_url rq = ''https://api.stripe.com/v1/checkout/sessions'' \<and>
        filter (\<lambda>(k, v). take 10 k = ''line_items'') (rq_form rq) =
          [(''line_items[0][price]'', price), (''line_items[0][quantity]'', ''1'')] \<and>
        map_of (rq_form rq) ''mode'' = Some ''subscription''" by (fastforce simp: checkout_params_def)
  have "plan_for (b_prices b) price = Some plan" using assms(1) p(3) by (rule lookup_then_plan_for)
  then have "\<forall>sub. so_item_prices sub = [\<lparr>pr_id = price, pr_metadata_plan = None\<rparr>] \<longrightarrow>
        w_tier (upsert_of x (b_prices b) sub (u_id u)) = plan_slug plan"
    by (simp add: upsert_of_def resolve_tier_def map_filter_Cons)
  moreover have "plan_slug plan \<in> set tier_slugs"
      "managed_ai (entitlements_for (Some (plan_slug plan)) (Some ''active''))"
      "ent_plan (entitlements_for (Some (plan_slug plan)) (Some ''active'')) = plan_slug plan"
    by (cases plan; simp add: tier_slugs_def entitlements_for_def ent_defs str_simps)+
  ultimately show ?thesis using p sent by blast
qed

text \<open>A Stripe that opens sessions for one price only.\<close>

definition selling_context :: billing_context where
  "selling_context = sample_context\<lparr>b_stripe := (b_stripe sample_context)\<lparr>
     sc_send := \<lambda>rq. if map_of (rq_form rq) ''line_items[0][price]'' \<in> {None, Some ''pp''}
       then Inr (200, Inr ''body'') else Inr (400, Inr ''no such price''),
     sc_decode_customer := \<lambda>_. Inr \<lparr>cus_id = ''cus_9'', cus_email = None\<rparr>,
     sc_decode_session := \<lambda>_. Inr \<lparr>ses_id = ''cs_1'', ses_url = ''https://pay''\<rparr>\<rparr>\<rparr>"

lemma selling_prices_distinct: "prices_distinct (b_prices selling_context)"
  unfolding prices_distinct_def
proof (intro allI impI)
  fix p q :: checkout_plan and i j :: billing_interval
  assume "price_slot (b_prices selling_context) p i = price_slot (b_prices selling_context) q j"
    "price_slot (b_prices selling_context) p i \<noteq> []"
  then show "p = q"
    by (cases p; cases q; cases i; cases j) (simp_all add: selling_context_def sample_context_def)
qed

theorem bought_plan_is_granted_witness:
  "managed_ai (entitlements_for (Some ''pro'') (Some ''active'')) \<and>
   create_checkout_session_handler (Some selling_context) 1 5 sample_user
     \<lparr>ck_plan = '' pro'', ck_interval = ''month''\<rparr> \<lparr>db = sample_database, faults = []\<rparr>
   = (Inr ''https://pay'', \<lparr>db = sample_database, faults = []\<rparr>)"
proof -
  have r: "create_checkout_session_handler (Some selling_context) 1 5 sample_user
     \<lparr>ck_plan = '' pro'', ck_interval = ''month''\<rparr> \<lparr>db = sample_database, faults = []\<rparr>
   = (Inr ''https://pay'', \<lparr>db = sample_database, faults = []\<rparr>)"
    by (simp add: create_checkout_session_handler_def ensure_customer_def fetch_customer_id_def
        customer_id_of_def act_simps parse_plan_def parse_interval_def lookup_price_def
        create_checkout_session_def checkout_params_def post_form_def post_form_impl_def is_success_def
        selling_context_def result_simps str_simps sample_defs)
  have "parse_plan '' pro'' = Inr Pro" by (simp add: parse_plan_def str_simps)
  with bought_plan_is_granted [OF selling_prices_distinct r] r show ?thesis by auto
qed

text \<open>Under the deployed schema nobody can become a customer.  Checkout never changes the
  database, and for a user without a Stripe customer it never returns a URL: the row that would
  keep the new customer id violates \<open>team_id NOT NULL\<close>.  When Stripe answers and no round trip
  fails, the outcome is an internal error after the customer was created at Stripe, so that every
  retry creates another one.\<close>

theorem checkout_new_customer_deployed:
  assumes "deployed (db w)"
  shows "db (snd (create_checkout_session_handler (Some b) row_id now u req w)) = db w \<and>
     (customer_id_of (db w) (u_id u) = None \<longrightarrow>
        (\<exists>e. fst (create_checkout_session_handler (Some b) row_id now u req w) = Inl e \<and>
           (faults w = [] \<and> parse_plan (ck_plan req) = Inr plan \<and>
            parse_interval (ck_interval req) = Inr interval \<and>
            lookup_price (b_prices b) plan interval = Some price \<and>
            create_customer (b_stripe b) (u_email u) (u_id u) = Inr cus \<longrightarrow> err_code e = Internal)))"
proof (intro conjI impI)
  show "db (snd (create_checkout_session_handler (Some b) row_id now u req w)) = db w"
    using ensure_customer_deployed(2) [OF assms, of b row_id now u]
    by (auto simp: create_checkout_session_handler_def bindM_def of_result_def pure_def
        split: sum.splits prod.splits)
  assume none: "customer_id_of (db w) (u_id u) = None"
  have "fst (create_checkout_session_handler (Some b) row_id now u req w) \<noteq> Inr url" for url
    using none checkout_Inr [of b row_id now u req w url] ensure_customer_deployed(1) [OF assms]
    by (metis option.distinct(1) prod.collapse)
  then obtain e where e: "fst (create_checkout_session_handler (Some b) row_id now u req w) = Inl e"
    by (metis obj_sumE)
  moreover have "err_code e = Internal"
    if "faults w = [] \<and> parse_plan (ck_plan req) = Inr plan \<and>
        parse_interval (ck_interval req) = Inr interval \<and>
        lookup_price (b_prices b) plan interval = Some price \<and>
        create_customer (b_stripe b) (u_email u) (u_id u) = Inr cus"
    using e that none customer_stub_sql_deployed [OF assms]
    by (auto simp: create_checkout_session_handler_def ensure_customer_def fetch_customer_id_def
        upsert_customer_stub_def act_simps result_simps err_defs)
  ultimately show "\<exists>e. fst (create_checkout_session_handler (Some b) row_id now u req w) = Inl e \<and>
           (faults w = [] \<and> parse_plan (ck_plan req) = Inr plan \<and>
            parse_interval (ck_interval req) = Inr interval \<and>
            lookup_price (b_prices b) plan interval = Some price \<and>
            create_customer (b_stripe b) (u_email u) (u_id u) = Inr cus \<longrightarrow> err_code e = Internal)"
    by blast
qed

theorem checkout_new_customer_deployed_witness:
  "\<exists>e. fst (create_checkout_session_handler (Some selling_context) 1 5 sample_user
     \<lparr>ck_plan = ''pro'', ck_interval = ''month''\<rparr>
     \<lparr>db = sample_database\<lparr>subscriptions := []\<rparr>, faults = []\<rparr>) = Inl e \<and> err_code e = Internal"
  using checkout_new_customer_deployed
    [of "\<lparr>db = sample_database\<lparr>subscriptions := []\<rparr>, faults = []\<rparr>" selling_context 1 5 sample_user
        "\<lparr>ck_plan = ''pro'', ck_interval = ''month''\<rparr>" Pro Monthly "''pp''"
        "\<lparr>cus_id = ''cus_9'', cus_email = None\<rparr>"]
  by (simp add: deployed_def customer_id_of_def parse_plan_def parse_interval_def lookup_price_def
      create_customer_def post_form_def post_form_impl_def is_success_def selling_context_def
      sample_defs str_simps)

text \<open>A usage report of a client cannot touch credits.  Whatever it claims and whichever round
  trip fails, the subscriptions and the sum of the credits in the ledger stay as they are; the
  ledger gains exactly one row when the answer is 202 and none otherwise.\<close>

theorem record_usage_handler_free:
  assumes "record_usage_handler now u req w = (r, w')"
  shows "subscriptions (db w') = subscriptions (db w) \<and>
     (\<Sum>l\<leftarrow>usage_ledger (db w'). l_cost_credits l) = (\<Sum>l\<leftarrow>usage_ledger (db w). l_cost_credits l) \<and>
     length (usage_ledger (db w')) = length (usage_ledger (db w)) + (if r = Inr 202 then 1 else 0) \<and>
     (r \<noteq> Inr 202 \<longrightarrow> db w' = db w)"
proof (cases r)
  case (Inl e)
  have "db w' = db w" using assms Inl unfolding record_usage_handler_def
    by (auto simp: throw_def bindM_Inl_iff pure_def dest: transaction_atomic split: if_splits)
  with Inl show ?thesis by simp
next
  case (Inr st)
  with assms obtain w1 w2 where "st = 202" "db w1 = db w" "db w' = db w2"
    "record_usage now (u_id u) (us_metric req) (us_units req) 0 (us_model req) (us_kind req) w1 = (Inr (), w2)"
    by (auto simp: record_usage_handler_def throw_def bindM_Inr_iff pure_def map_errM_Inr
        dest!: transaction_committed split: if_splits)
  with Inr show ?thesis
    by (cases rule: query_cases [of "usage_sql now (u_id u) (us_metric req) (us_units req) 0 (us_model req) (us_kind req)" w1])
       (auto simp: record_usage_def usage_sql_def split: option.splits if_splits)
qed

theorem record_usage_handler_free_witness:
  "fst (record_usage_handler 5 sample_user \<lparr>us_metric = ''csv_intel'', us_units = 3, us_model = None, us_kind = None\<rparr>
     \<lparr>db = sample_database, faults = []\<rparr>) = Inr 202 \<and>
   subscriptions (db (snd (record_usage_handler 5 sample_user
     \<lparr>us_metric = ''csv_intel'', us_units = 3, us_model = None, us_kind = None\<rparr>
     \<lparr>db = sample_database, faults = []\<rparr>))) = [sample_subscription]"
proof -
  let ?r = "record_usage_handler 5 sample_user \<lparr>us_metric = ''csv_intel'', us_units = 3, us_model = None, us_kind = None\<rparr>
     \<lparr>db = sample_database, faults = []\<rparr>"
  have "fst ?r = Inr 202"
    by (simp add: record_usage_handler_def transaction_no_faults record_usage_def usage_sql_def
        metric_of_text_def user_exists_def act_simps result_simps sample_defs)
  with record_usage_handler_free [of 5 sample_user _ _ "fst ?r" "snd ?r"] show ?thesis
    by (simp add: sample_database_def)
qed

text \<open>The plan list tells the truth.  Every plan on it can be ordered by its id, its limit of
  broker connections is the one its entitlements grant, and the advertised discount is that of the
  yearly price against twelve monthly ones, rounded to the nearest percent.\<close>

theorem list_plans_truthful:
  "case list_plans of
     Inl _ \<Rightarrow> False
   | Inr plans \<Rightarrow>
       map pl_id plans = map plan_slug [Basic, Pro, Enterprise] \<and>
       list_all (\<lambda>p.
         limit_quota (institution_connections (pl_limits p)) =
           max_broker_connections (entitlements_for (Some (pl_id p)) (Some ''active'')) \<and>
         (let full = 12 * monthly_cents (pl_pricing p); saved = full - yearly_cents (pl_pricing p) in
          case pl_yearly_discount_percent p of
            None \<Rightarrow> False
          | Some d \<Rightarrow> d = (200 * saved + full) div (2 * full))) plans"
  by (simp add: list_plans_def entitlements_for_def ent_defs str_simps)

end
