(* ===== verification/Utf8.thy ===== *)
theory Utf8
  imports Rust_Prelude
begin

text \<open>
  Text beyond Latin-1: a Rust string as the list of its code points, the UTF-8 encoding, and the
  two decoders of the standard library, \<open>String::from_utf8_lossy\<close> (invalid input becomes U+FFFD)
  and \<open>String::from_utf8\<close> (invalid input is an error).
\<close>

subsection \<open>Text\<close>

type_synonym utext = "nat list"

definition ascii :: "string \<Rightarrow> utext" where
  "ascii s = map of_char s"

definition REPLACEMENT :: nat where
  "REPLACEMENT = 65533"

definition continuation :: "nat \<Rightarrow> bool" where
  "continuation b \<longleftrightarrow> 128 \<le> b \<and> b < 192"

text \<open>The admissible second bytes after a lead byte of three or four.\<close>

definition second_of_three :: "nat \<Rightarrow> nat \<Rightarrow> bool" where
  "second_of_three a b \<longleftrightarrow>
     (if a = 224 then 160 \<le> b \<and> b < 192 else if a = 237 then 128 \<le> b \<and> b < 160 else continuation b)"

definition second_of_four :: "nat \<Rightarrow> nat \<Rightarrow> bool" where
  "second_of_four a b \<longleftrightarrow>
     (if a = 240 then 144 \<le> b \<and> b < 192 else if a = 244 then 128 \<le> b \<and> b < 144 else continuation b)"

text \<open>One character from the front: its code point, or U+FFFD for the longest prefix that could
  have started a character, and how many bytes it takes.\<close>

definition decode_one :: "nat \<Rightarrow> nat list \<Rightarrow> nat \<times> nat" where
  "decode_one a rest =
     (let b = (if rest = [] then 0 else rest ! 0);
          c = (if length rest < 2 then 0 else rest ! 1);
          d = (if length rest < 3 then 0 else rest ! 2) in
      if a < 128 then (a, 1)
      else if 194 \<le> a \<and> a < 224 then
        if continuation b then ((a - 192) * 64 + (b - 128), 2) else (REPLACEMENT, 1)
      else if 224 \<le> a \<and> a < 240 then
        if \<not> second_of_three a b then (REPLACEMENT, 1)
        else if continuation c then ((a - 224) * 4096 + (b - 128) * 64 + (c - 128), 3)
        else (REPLACEMENT, 2)
      else if 240 \<le> a \<and> a < 245 then
        if \<not> second_of_four a b then (REPLACEMENT, 1)
        else if \<not> continuation c then (REPLACEMENT, 2)
        else if continuation d
        then ((a - 240) * 262144 + (b - 128) * 4096 + (c - 128) * 64 + (d - 128), 4)
        else (REPLACEMENT, 3)
      else (REPLACEMENT, 1))"

function from_utf8_lossy :: "nat list \<Rightarrow> utext" where
  "from_utf8_lossy [] = []"
| "from_utf8_lossy (a # rest) =
     (case decode_one a rest of (ch, n) \<Rightarrow> ch # from_utf8_lossy (drop (n - 1) rest))"
  by pat_completeness auto
termination
  by (relation "measure length") auto

text \<open>The standard encoding of a code point, the specification of the decoder.\<close>

definition utf8_encode :: "nat \<Rightarrow> nat list" where
  "utf8_encode ch =
     (if ch < 128 then [ch]
      else if ch < 2048 then [192 + ch div 64, 128 + ch mod 64]
      else if ch < 65536 then [224 + ch div 4096, 128 + ch div 64 mod 64, 128 + ch mod 64]
      else [240 + ch div 262144, 128 + ch div 4096 mod 64, 128 + ch div 64 mod 64, 128 + ch mod 64])"

definition scalar_value :: "nat \<Rightarrow> bool" where
  "scalar_value ch \<longleftrightarrow> ch < 1114112 \<and> \<not> (55296 \<le> ch \<and> ch < 57344)"

subsection \<open>Decoding\<close>

lemma base64_digits:
  fixes n :: nat
  shows "n = n div 4096 * 4096 + n div 64 mod 64 * 64 + n mod 64"
    and "n = n div 262144 * 262144 + n div 4096 mod 64 * 4096 + n div 64 mod 64 * 64 + n mod 64"
proof -
  have step: "m = 64 * (m div 64) + m mod 64" for m :: nat by (rule mult_div_mod_eq [symmetric])
  define a b c where "a = n div 64" and "b = a div 64" and "c = b div 64"
  have e: "n div 64 = a" "n div 4096 = b" "n div 262144 = c"
    by (simp_all add: a_def b_def c_def div_mult2_eq [symmetric])
  have s: "n = 64 * a + n mod 64" "a = 64 * b + a mod 64" "b = 64 * c + b mod 64"
    using step unfolding a_def b_def c_def by blast+
  show "n = n div 4096 * 4096 + n div 64 mod 64 * 64 + n mod 64"
    unfolding e using s(1,2) by (simp add: algebra_simps)
  show "n = n div 262144 * 262144 + n div 4096 mod 64 * 4096 + n div 64 mod 64 * 64 + n mod 64"
    unfolding e using s by (simp add: algebra_simps)
qed

lemma decode_one_encode:
  assumes "scalar_value ch"
  shows "\<exists>a tl. utf8_encode ch = a # tl \<and> decode_one a (tl @ rest) = (ch, Suc (length tl))"
proof -
  consider "ch < 128" | "128 \<le> ch" "ch < 2048" | "2048 \<le> ch" "ch < 65536" | "65536 \<le> ch" "ch < 1114112"
    using assms by (fastforce simp: scalar_value_def)
  then show ?thesis
  proof cases
    case 1
    then show ?thesis by (simp add: utf8_encode_def decode_one_def)
  next
    case 2
    then have "194 \<le> 192 + ch div 64" "192 + ch div 64 < 224" by auto
    with 2 show ?thesis
      by (simp add: utf8_encode_def decode_one_def continuation_def Let_def)
  next
    case 3
    define a b c where "a = ch div 4096" and "b = ch div 64 mod 64" and "c = ch mod 64"
    have ch: "ch = a * 4096 + b * 64 + c" "b < 64" "c < 64" "a < 16"
      using 3 base64_digits(1) [of ch] by (auto simp: a_def b_def c_def)
    have "second_of_three (224 + a) (128 + b)"
      using 3 assms ch by (auto simp: second_of_three_def continuation_def scalar_value_def)
    moreover have "utf8_encode ch = [224 + a, 128 + b, 128 + c]"
      using 3 by (simp add: utf8_encode_def a_def b_def c_def)
    ultimately show ?thesis using ch(2-4) ch(1) [symmetric]
      by (simp add: decode_one_def continuation_def Let_def)
  next
    case 4
    define a b c d where "a = ch div 262144" and "b = ch div 4096 mod 64"
      and "c = ch div 64 mod 64" and "d = ch mod 64"
    have ch: "ch = a * 262144 + b * 4096 + c * 64 + d" "b < 64" "c < 64" "d < 64" "a < 5"
      using 4 base64_digits(2) [of ch] by (auto simp: a_def b_def c_def d_def)
    have "second_of_four (240 + a) (128 + b)"
      using 4 ch by (auto simp: second_of_four_def continuation_def)
    moreover have "utf8_encode ch = [240 + a, 128 + b, 128 + c, 128 + d]"
      using 4 by (simp add: utf8_encode_def a_def b_def c_def d_def)
    ultimately show ?thesis using ch(2-5) ch(1) [symmetric]
      by (simp add: decode_one_def continuation_def Let_def)
  qed
qed

lemma from_utf8_lossy_encode:
  assumes "list_all scalar_value cps"
  shows "from_utf8_lossy (concat (map utf8_encode cps)) = cps"
  using assms
proof (induction cps)
  case Nil
  then show ?case by simp
next
  case (Cons ch cps)
  from Cons.prems decode_one_encode [of ch "concat (map utf8_encode cps)"] obtain a tl where
    "utf8_encode ch = a # tl" "decode_one a (tl @ concat (map utf8_encode cps)) = (ch, Suc (length tl))"
    by auto
  with Cons show ?case by simp
qed

subsection \<open>Strict decoding\<close>

text \<open>\<open>str::as_bytes\<close> and \<open>String::from_utf8\<close>.  The lossy decoder replaces something exactly
  when its output encodes to other bytes than it was given.\<close>

definition utf8_bytes :: "utext \<Rightarrow> byte list" where
  "utf8_bytes t = map of_nat (concat (map utf8_encode t))"

definition from_utf8 :: "byte list \<Rightarrow> utext option" where
  "from_utf8 bs =
     (let t = from_utf8_lossy (map unat bs) in
      if concat (map utf8_encode t) = map unat bs then Some t else None)"

lemma utf8_encode_byte: "scalar_value ch \<Longrightarrow> b \<in> set (utf8_encode ch) \<Longrightarrow> b < 256"
  by (auto simp: utf8_encode_def scalar_value_def split: if_splits)

lemma unat_utf8_bytes:
  assumes "list_all scalar_value t"
  shows "map unat (utf8_bytes t) = concat (map utf8_encode t)"
proof -
  have "\<forall>b\<in>set (concat (map utf8_encode t)). b < 256"
    using assms by (auto simp: list_all_iff dest: utf8_encode_byte)
  then show ?thesis by (auto simp: utf8_bytes_def unat_of_nat intro!: map_idI)
qed

lemma from_utf8_utf8_bytes [simp]: "list_all scalar_value t \<Longrightarrow> from_utf8 (utf8_bytes t) = Some t"
  by (simp add: from_utf8_def unat_utf8_bytes from_utf8_lossy_encode)

lemma from_utf8_Some: "from_utf8 bs = Some t \<Longrightarrow> utf8_bytes t = bs"
  by (auto simp: from_utf8_def Let_def utf8_bytes_def comp_def split: if_splits)

lemma utf8_bytes_inj:
  "list_all scalar_value s \<Longrightarrow> list_all scalar_value t \<Longrightarrow> utf8_bytes s = utf8_bytes t \<Longrightarrow> s = t"
  by (metis from_utf8_utf8_bytes option.inject)

lemma scalar_value_ascii [simp]: "list_all scalar_value (ascii s)"
proof -
  have "scalar_value (of_char c)" for c
    using nat_of_char_less_256 [of c] by (simp add: scalar_value_def del: nat_of_char_less_256)
  then show ?thesis by (simp add: ascii_def list_all_iff)
qed

lemma ascii_inj: "ascii s = ascii t \<longleftrightarrow> s = t"
  by (simp add: ascii_def inj_map_eq_map inj_of_char)

end
