(* ===== verification/Ai_Proxy.thy ===== *)
theory Ai_Proxy
  imports Billing_Handlers Utf8
begin

text \<open>
  The managed AI proxy of \<^verbatim>\<open>src/billing/ai_proxy.rs\<close>: the gates of \<open>chat\<close>, the body sent
  upstream, and the task \<open>run_stream\<close> that cuts the upstream bytes into lines, forwards the
  \<open>data:\<close> payloads and charges the user once the terminator has been seen.

  Text that comes from upstream is a list of Unicode code points (\<open>utext\<close>), because the decoder
  of the standard library (\<open>String::from_utf8_lossy\<close>) maps invalid input to U+FFFD.  The JSON
  parser, the decoder of the usage object and the HTTP exchange are parameters.
\<close>

subsection \<open>The line splitter\<close>

record token_usage =
  prompt_tokens :: "32 word"
  completion_tokens :: "32 word"
  total_tokens :: "32 word"

definition default_usage :: token_usage where
  "default_usage = \<lparr>prompt_tokens = 0, completion_tokens = 0, total_tokens = 0\<rparr>"

record ai_env =
  ai_parse_json :: "utext \<Rightarrow> json option"
  ai_decode_usage :: "json \<Rightarrow> token_usage option"

text \<open>The locals of \<open>run_stream\<close> and what it has sent; \<open>room\<close> is the number of sends before
  the receiver is dropped, \<open>None\<close> if it stays.\<close>

record stream_state =
  buf :: utext
  usage :: token_usage
  saw_done :: bool
  sent :: "utext list"
  room :: "nat option"

definition start_state :: "nat option \<Rightarrow> stream_state" where
  "start_state r = \<lparr>buf = [], usage = default_usage, saw_done = False, sent = [], room = r\<rparr>"

text \<open>\<open>Event::default().data(p)\<close>: the event type splits its data at newlines and asserts that
  no line of it contains a carriage return.\<close>

definition sendable :: "utext \<Rightarrow> bool" where
  "sendable p \<longleftrightarrow> 13 \<notin> set p"

datatype send_result = Sent | Gone | Refused

definition send_event :: "utext \<Rightarrow> stream_state \<Rightarrow> send_result \<times> stream_state" where
  "send_event p s =
     (if \<not> sendable p then (Refused, s)
      else
        (case room s of
           None \<Rightarrow> (Sent, s\<lparr>sent := sent s @ [p]\<rparr>)
         | Some 0 \<Rightarrow> (Gone, s)
         | Some (Suc n) \<Rightarrow> (Sent, s\<lparr>sent := sent s @ [p], room := Some n\<rparr>)))"

definition DONE :: utext where
  "DONE = ascii ''[DONE]''"

definition line_payload :: "utext \<Rightarrow> utext option" where
  "line_payload raw =
     (let line = rev (dropWhile (\<lambda>c. c = 13) (rev raw)); p = ascii ''data: '' in
      if take (length p) line = p then Some (drop (length p) line) else None)"

definition extract_usage :: "ai_env \<Rightarrow> utext \<Rightarrow> token_usage \<Rightarrow> token_usage" where
  "extract_usage x payload old =
     (case ai_parse_json x payload of
        None \<Rightarrow> old
      | Some v \<Rightarrow>
          (case json_get ''usage'' v of
             None \<Rightarrow> old
           | Some u \<Rightarrow> (case ai_decode_usage x u of None \<Rightarrow> old | Some parsed \<Rightarrow> parsed)))"

text \<open>What the loop does next: go on with the lines, leave it (\<open>break\<close>), leave the task
  (\<open>return\<close>, the client is gone), or panic.\<close>

datatype flow = Continue | Break | Return | Panic

definition handle_line :: "ai_env \<Rightarrow> utext \<Rightarrow> stream_state \<Rightarrow> flow \<times> stream_state" where
  "handle_line x line s =
     (case line_payload line of
        None \<Rightarrow> (Continue, s)
      | Some payload \<Rightarrow>
          if payload = DONE then (Break, snd (send_event DONE (s\<lparr>saw_done := True\<rparr>)))
          else (case send_event payload (s\<lparr>usage := extract_usage x payload (usage s)\<rparr>) of
                  (Sent, s') \<Rightarrow> (Continue, s')
                | (Gone, s') \<Rightarrow> (Return, s')
                | (Refused, s') \<Rightarrow> (Panic, s')))"

text \<open>\<open>while let Some(nl) = buf.find(newline)\<close>, on the text still to be read.\<close>

function process_lines :: "ai_env \<Rightarrow> utext \<Rightarrow> stream_state \<Rightarrow> flow \<times> stream_state" where
  "process_lines x text s =
     (case dropWhile (\<lambda>c. c \<noteq> 10) text of
        [] \<Rightarrow> (Continue, s\<lparr>buf := text\<rparr>)
      | _ # rest \<Rightarrow>
          (case handle_line x (takeWhile (\<lambda>c. c \<noteq> 10) text) s of
             (Continue, s') \<Rightarrow> process_lines x rest s'
           | (fl, s') \<Rightarrow> (fl, s'\<lparr>buf := rest\<rparr>)))"
  by pat_completeness auto
termination
  by (relation "measure (\<lambda>(x, text, s). length text)") (auto dest: dropWhile_Cons_length)

declare process_lines.simps [simp del]

text \<open>The chunks of the response: bytes, or an error that ends the stream.\<close>

fun read_chunks :: "ai_env \<Rightarrow> (nat list) option list \<Rightarrow> stream_state \<Rightarrow> flow \<times> stream_state" where
  "read_chunks x [] s = (Continue, s)"
| "read_chunks x (None # _) s = (Continue, s)"
| "read_chunks x (Some chunk # cs) s =
     (case process_lines x (buf s @ from_utf8_lossy chunk) s of
        (Return, s') \<Rightarrow> (Return, s')
      | (Panic, s') \<Rightarrow> (Panic, s')
      | (_, s') \<Rightarrow> if saw_done s' then (Continue, s') else read_chunks x cs s')"

subsection \<open>The charge\<close>

fun kind_str :: "request_kind \<Rightarrow> string" where
  "kind_str Simple = ''simple''"
| "kind_str Analysis = ''analysis''"
| "kind_str CsvMapping = ''csv_mapping''"
| "kind_str MonthlyReport = ''monthly_report''"
| "kind_str DeepReport = ''deep_report''"

definition charge_reply ::
  "instant \<Rightarrow> uuid \<Rightarrow> token_usage \<Rightarrow> string \<Rightarrow> string \<Rightarrow> (sqlx_error, int) action" where
  "charge_reply now uid u model kind =
     (let charged = credits_for_tokens (prompt_tokens u) (completion_tokens u) in
      transaction (\<lambda>e. e) (\<lambda>_.
        bindM (record_usage now uid ''ai_reply'' (sint (total_tokens u)) charged (Some model) (Some kind))
          (\<lambda>_. add_ai_credits_used now uid charged)))"

text \<open>How the task ends, and what it has sent.  In a release build (\<open>panic = "abort"\<close>) a panic of
  the task is the end of the whole process.\<close>

datatype task_end = Finished | Panicked

definition run_stream ::
  "ai_env \<Rightarrow> instant \<Rightarrow> (nat list) option list \<Rightarrow> nat option \<Rightarrow> uuid \<Rightarrow> string \<Rightarrow> string \<Rightarrow>
   (sqlx_error, task_end \<times> utext list) action" where
  "run_stream x now chunks client uid model kind =
     (case read_chunks x chunks (start_state client) of
        (Return, s) \<Rightarrow> pure (Finished, sent s)
      | (Panic, s) \<Rightarrow> pure (Panicked, sent s)
      | (_, s) \<Rightarrow>
          if \<not> saw_done s then pure (Finished, sent s)
          else matchM (charge_reply now uid (usage s) model kind) (\<lambda>_. pure (Finished, sent s)))"

subsection \<open>The handler\<close>

record ai_chat_request =
  rq_model :: "string option"
  rq_kind :: "request_kind option"
  rq_passthrough :: json

definition DEFAULT_MODEL :: string where
  "DEFAULT_MODEL = ''gpt-4o-mini''"

text \<open>\<open>Map::insert\<close> of \<open>serde_json\<close>: the value of a present key is replaced.\<close>

definition json_insert :: "string \<Rightarrow> json \<Rightarrow> (string \<times> json) list \<Rightarrow> (string \<times> json) list" where
  "json_insert k v kvs =
     (if k \<in> fst ` set kvs then map (\<lambda>(k', v'). if k' = k then (k, v) else (k', v')) kvs
      else kvs @ [(k, v)])"

definition upstream_body :: "string \<Rightarrow> json \<Rightarrow> json" where
  "upstream_body model passthrough =
     (case passthrough of
        JObj kvs \<Rightarrow>
          JObj (json_insert ''stream_options'' (JObj [(''include_usage'', JBool True)])
            (json_insert ''stream'' (JBool True) (json_insert ''model'' (JStr model) kvs)))
      | other \<Rightarrow> other)"

text \<open>The upstream exchange: unreachable, or a status and the chunks of the body.\<close>

type_synonym upstream = "string \<Rightarrow> json \<Rightarrow> string + nat \<times> (nat list) option list"

record stream_task =
  st_user :: uuid
  st_model :: string
  st_kind :: string
  st_chunks :: "(nat list) option list"

definition tier_status :: "subscription option \<Rightarrow> string option \<times> string option" where
  "tier_status sub =
     (case sub of None \<Rightarrow> (None, None) | Some s \<Rightarrow> (Some (s_tier s), Some (status_text (s_status s))))"

definition subscription_entitlements :: "subscription option \<Rightarrow> entitlements" where
  "subscription_entitlements sub = (case tier_status sub of (t, st) \<Rightarrow> entitlements_for t st)"

definition credit_gate :: "subscription option \<Rightarrow> request_kind \<Rightarrow> app_error + unit" where
  "credit_gate sub kind =
     (let e = subscription_entitlements sub;
          used = (case sub of None \<Rightarrow> 0 | Some s \<Rightarrow> s_credits_used s);
          monthly = ai_credits_monthly e in
      if \<not> managed_ai e then Inl (forbidden ''managed Mizan AI requires a subscription'')
      else if monthly \<noteq> UNLIMITED \<and> monthly < i32_add used (estimated_cost kind)
      then Inl (new_error UnprocessableEntity ''AI credit cap reached for this billing period'')
      else Inr ())"

definition open_upstream ::
  "upstream \<Rightarrow> string \<Rightarrow> user \<Rightarrow> string \<Rightarrow> request_kind \<Rightarrow> json \<Rightarrow> app_error + stream_task" where
  "open_upstream upstream key u model kind passthrough =
     (case upstream key (upstream_body model passthrough) of
        Inl e \<Rightarrow> Inl (with_source e (service_unavailable ''upstream AI unreachable''))
      | Inr (status, chunks) \<Rightarrow>
          if \<not> is_success status then Inl (service_unavailable ''upstream AI returned an error'')
          else Inr \<lparr>st_user = u_id u, st_model = model, st_kind = kind_str kind, st_chunks = chunks\<rparr>)"

definition chat ::
  "upstream \<Rightarrow> billing_context option \<Rightarrow> user \<Rightarrow> ai_chat_request \<Rightarrow> (app_error, stream_task) action" where
  "chat upstream billing u req =
     (case billing of
        None \<Rightarrow> throw (not_implemented ''billing/AI not configured'')
      | Some b \<Rightarrow>
          bindM (of_result (ok_or (service_unavailable ''managed AI is not configured on this server'')
                   (b_openai_key b))) (\<lambda>key.
          bindM (map_errM from_sqlx (fetch_active (u_id u))) (\<lambda>sub.
          let kind = (case rq_kind req of None \<Rightarrow> Simple | Some k \<Rightarrow> k);
              model = (case rq_model req of None \<Rightarrow> DEFAULT_MODEL | Some m \<Rightarrow> m) in
          bindM (of_result (credit_gate sub kind)) (\<lambda>_.
            of_result (open_upstream upstream key u model kind (rq_passthrough req))))))"

subsection \<open>The lines of a text\<close>

text \<open>The complete lines of a text and what follows the last newline.\<close>

fun complete :: "utext \<Rightarrow> utext list \<times> utext" where
  "complete [] = ([], [])"
| "complete (c # cs) =
     (case complete cs of (ls, r) \<Rightarrow>
        if c = 10 then ([] # ls, r)
        else (case ls of [] \<Rightarrow> ([], c # r) | l # ls' \<Rightarrow> ((c # l) # ls', r)))"

lemma complete_no_newline: "10 \<notin> set t \<Longrightarrow> complete t = ([], t)"
  by (induction t) auto

lemma complete_line: "10 \<notin> set l \<Longrightarrow> complete (l @ 10 # t) = (l # fst (complete t), snd (complete t))"
  by (induction l) (auto split: prod.splits)

lemma complete_rest_no_newline: "10 \<notin> set (snd (complete t))"
  by (induction t) (auto split: prod.splits list.splits)

lemma complete_append:
  "complete (a @ b) =
     (fst (complete a) @ fst (complete (snd (complete a) @ b)), snd (complete (snd (complete a) @ b)))"
proof (induction a)
  case Nil
  then show ?case by simp
next
  case (Cons c cs)
  show ?case
  proof (cases "fst (complete cs) = []")
    case True
    then obtain r where "complete cs = ([], r)" by (cases "complete cs") auto
    with Cons.IH show ?thesis by (cases "c = 10") (auto split: prod.splits)
  next
    case False
    then obtain l ls r where "complete cs = (l # ls, r)"
      by (cases "complete cs") (auto simp: neq_Nil_conv)
    with Cons.IH show ?thesis by (cases "c = 10") (auto split: prod.splits)
  qed
qed

lemma find_newline:
  "dropWhile (\<lambda>c. c \<noteq> 10) t = [] \<Longrightarrow> complete t = ([], t)"
  "dropWhile (\<lambda>c. c \<noteq> 10) t = c # rest \<Longrightarrow>
     complete t = (takeWhile (\<lambda>c. c \<noteq> 10) t # fst (complete rest), snd (complete rest))"
proof -
  show "dropWhile (\<lambda>c. c \<noteq> 10) t = [] \<Longrightarrow> complete t = ([], t)"
    by (intro complete_no_newline) (auto simp: dropWhile_eq_Nil_conv)
  assume d: "dropWhile (\<lambda>c. c \<noteq> 10) t = c # rest"
  then have "c = 10" by (metis (full_types) hd_dropWhile list.distinct(1) list.sel(1))
  with d have "t = takeWhile (\<lambda>c. c \<noteq> 10) t @ 10 # rest" by (metis takeWhile_dropWhile_id)
  moreover have "10 \<notin> set (takeWhile (\<lambda>c. c \<noteq> 10) t)" by (auto dest: set_takeWhileD)
  ultimately show "complete t = (takeWhile (\<lambda>c. c \<noteq> 10) t # fst (complete rest), snd (complete rest))"
    by (metis complete_line)
qed

text \<open>The loop over lines, without the buffer.\<close>

fun run_lines :: "ai_env \<Rightarrow> utext list \<Rightarrow> stream_state \<Rightarrow> flow \<times> stream_state" where
  "run_lines x [] s = (Continue, s)"
| "run_lines x (l # ls) s =
     (case handle_line x l s of (Continue, s') \<Rightarrow> run_lines x ls s' | (fl, s') \<Rightarrow> (fl, s'))"

lemma buf_update_eq:
  "t = s\<lparr>buf := b\<rparr> \<Longrightarrow> sent t = sent s \<and> saw_done t = saw_done s \<and> usage t = usage s \<and> room t = room s"
  by simp

lemma send_event_buf: "send_event p (s\<lparr>buf := b\<rparr>) = map_prod id (buf_update (\<lambda>_. b)) (send_event p s)"
  by (auto simp: send_event_def split: option.splits nat.splits)

lemma handle_line_buf: "handle_line x l (s\<lparr>buf := b\<rparr>) = map_prod id (buf_update (\<lambda>_. b)) (handle_line x l s)"
  by (cases "line_payload l")
     (auto simp: handle_line_def send_event_def split: option.splits nat.splits)

lemma run_lines_buf: "run_lines x ls (s\<lparr>buf := b\<rparr>) = map_prod id (buf_update (\<lambda>_. b)) (run_lines x ls s)"
  by (induction ls arbitrary: s) (auto simp: handle_line_buf split: prod.splits flow.splits)

lemma run_lines_append:
  "run_lines x (a @ b) s =
     (case run_lines x a s of (Continue, s') \<Rightarrow> run_lines x b s' | (fl, s') \<Rightarrow> (fl, s'))"
  by (induction a arbitrary: s) (auto split: prod.splits flow.splits)

lemma process_lines_run:
  "process_lines x t s = (fl, s') \<Longrightarrow>
     \<exists>s0. run_lines x (fst (complete t)) s = (fl, s0) \<and> s' = s0\<lparr>buf := buf s'\<rparr> \<and>
       (fl = Continue \<longrightarrow> buf s' = snd (complete t))"
proof (induction x t s rule: process_lines.induct)
  case (1 x t s)
  show ?case
  proof (cases "dropWhile (\<lambda>c. c \<noteq> 10) t")
    case Nil
    with "1.prems" find_newline(1) [OF Nil] show ?thesis
      by (auto simp: process_lines.simps [of x t s])
  next
    case (Cons c rest)
    obtain fl1 s1 where h: "handle_line x (takeWhile (\<lambda>c. c \<noteq> 10) t) s = (fl1, s1)"
      by (cases "handle_line x (takeWhile (\<lambda>c. c \<noteq> 10) t) s")
    show ?thesis
    proof (cases fl1)
      case Continue
      with "1.prems" Cons h have "process_lines x rest s1 = (fl, s')"
        by (simp add: process_lines.simps [of x t s])
      with "1.IH" [OF Cons h [symmetric]] Continue h find_newline(2) [OF Cons] show ?thesis by simp
    qed (use "1.prems" Cons h find_newline(2) [OF Cons] in \<open>auto simp: process_lines.simps [of x t s]\<close>)
  qed
qed

text \<open>The text received before the stream ends or fails.\<close>

fun received :: "(nat list) option list \<Rightarrow> utext" where
  "received [] = []"
| "received (None # _) = []"
| "received (Some chunk # cs) = from_utf8_lossy chunk @ received cs"

definition line_payloads :: "utext \<Rightarrow> utext list" where
  "line_payloads t = List.map_filter line_payload (fst (complete t))"

text \<open>The payloads the task gets through: those before the first that it cannot send.\<close>

definition payloads :: "utext \<Rightarrow> utext list" where
  "payloads t = takeWhile sendable (line_payloads t)"

text \<open>It does not get past a payload that comes before the terminator.\<close>

definition stuck :: "utext list \<Rightarrow> bool" where
  "stuck ps \<longleftrightarrow> DONE \<notin> set (takeWhile sendable ps) \<and> takeWhile sendable ps \<noteq> ps"

lemma run_lines_Continue: "run_lines x ls s = (Continue, s') \<Longrightarrow> saw_done s' = saw_done s"
  by (induction ls arbitrary: s)
     (fastforce simp: handle_line_def send_event_def
        split: option.splits if_splits nat.splits flow.splits prod.splits)+

lemma run_lines_Break: "run_lines x ls s = (Break, s') \<Longrightarrow> saw_done s'"
  by (induction ls arbitrary: s)
     (fastforce simp: handle_line_def send_event_def
        split: option.splits if_splits nat.splits flow.splits prod.splits)+

lemma read_chunks_run:
  assumes "\<not> saw_done s" "10 \<notin> set (buf s)" "read_chunks x cs s = (fl, s')"
  shows "\<exists>fl0 s0. run_lines x (fst (complete (buf s @ received cs))) s = (fl0, s0) \<and>
     s' = s0\<lparr>buf := buf s'\<rparr> \<and> (fl = Return \<longleftrightarrow> fl0 = Return) \<and> (fl = Panic \<longleftrightarrow> fl0 = Panic)"
  using assms
proof (induction x cs s arbitrary: fl s' rule: read_chunks.induct)
  case (3 x chunk cs s)
  define a where "a = buf s @ from_utf8_lossy chunk"
  obtain fl1 s1 where p: "process_lines x a s = (fl1, s1)" by (cases "process_lines x a s")
  from process_lines_run [OF p] obtain s10 where r: "run_lines x (fst (complete a)) s = (fl1, s10)"
    "s1 = s10\<lparr>buf := buf s1\<rparr>" "fl1 = Continue \<longrightarrow> buf s1 = snd (complete a)" by blast
  have split: "fst (complete (buf s @ received (Some chunk # cs))) =
      fst (complete a) @ fst (complete (snd (complete a) @ received cs))"
    using complete_append [of a "received cs"] by (simp add: a_def)
  have sd: "saw_done s1 = saw_done s10" using buf_update_eq [OF r(2)] by simp
  show ?case
  proof (cases fl1)
    case Continue
    then have b: "buf s1 = snd (complete a)" and nd: "\<not> saw_done s1"
      using r sd "3.prems"(1) run_lines_Continue by auto
    then have "read_chunks x cs s1 = (fl, s')"
      using "3.prems"(3) p Continue by (simp add: a_def)
    with "3.IH"(1) [of fl1 s1] p Continue nd b complete_rest_no_newline [of a]
    obtain fl0 s0 where i: "run_lines x (fst (complete (buf s1 @ received cs))) s1 = (fl0, s0)"
      "s' = s0\<lparr>buf := buf s'\<rparr>" "fl = Return \<longleftrightarrow> fl0 = Return" "fl = Panic \<longleftrightarrow> fl0 = Panic" by (auto simp: a_def)
    have "run_lines x (fst (complete (buf s1 @ received cs))) (s10\<lparr>buf := buf s1\<rparr>) = (fl0, s0)"
      using i(1) by (simp only: r(2) [symmetric])
    then obtain s00 where "s0 = s00\<lparr>buf := buf s1\<rparr>"
      "run_lines x (fst (complete (buf s1 @ received cs))) s10 = (fl0, s00)"
      unfolding run_lines_buf
      by (cases "run_lines x (fst (complete (buf s1 @ received cs))) s10") auto
    then have "run_lines x (fst (complete (buf s @ received (Some chunk # cs)))) s = (fl0, s00)"
      unfolding split run_lines_append using r(1) Continue b by simp
    with i \<open>s0 = s00\<lparr>buf := buf s1\<rparr>\<close> show ?thesis by simp
  next
    case Break
    then have "saw_done s1" using r sd run_lines_Break by auto
    with "3.prems"(3) p Break have "fl = Continue" "s' = s1" by (simp_all add: a_def [symmetric])
    with r Break show ?thesis unfolding split run_lines_append by auto
  next
    case Return
    with "3.prems"(3) p have "fl = Return" "s' = s1" by (simp_all add: a_def [symmetric])
    with r Return show ?thesis unfolding split run_lines_append by auto
  next
    case Panic
    with "3.prems"(3) p have "fl = Panic" "s' = s1" by (simp_all add: a_def [symmetric])
    with r Panic show ?thesis unfolding split run_lines_append by auto
  qed
qed (auto simp: complete_no_newline)

subsection \<open>What the client receives\<close>

definition upto_done :: "utext list \<Rightarrow> utext list" where
  "upto_done ps = takeWhile (\<lambda>p. p \<noteq> DONE) ps @ (if DONE \<in> set ps then [DONE] else [])"

definition deltas :: "utext list \<Rightarrow> utext list" where
  "deltas ps = takeWhile (\<lambda>p. p \<noteq> DONE) ps"

text \<open>What gets through to a client that takes so many events.\<close>

definition cut_off :: "nat option \<Rightarrow> 'a list \<Rightarrow> 'a list" where
  "cut_off r xs = (case r of None \<Rightarrow> xs | Some n \<Rightarrow> take n xs)"

definition fits :: "nat option \<Rightarrow> nat \<Rightarrow> bool" where
  "fits r k \<longleftrightarrow> (case r of None \<Rightarrow> True | Some n \<Rightarrow> k \<le> n)"

lemma sendable_DONE [simp]: "sendable DONE"
  by (simp add: sendable_def DONE_def ascii_def)

lemma takeWhile_DONE: "stuck (DONE # ps) \<longleftrightarrow> False" "p \<noteq> DONE \<Longrightarrow> sendable p \<Longrightarrow> stuck (p # ps) = stuck ps"
  "\<not> sendable p \<Longrightarrow> stuck (p # ps)" "\<not> stuck []"
  by (auto simp: stuck_def)

lemma run_lines_spec:
  assumes "\<not> saw_done s" "run_lines x ls s = (fl, s')"
    and "ps = List.map_filter line_payload ls" "qs = takeWhile sendable ps"
  shows "sent s' = sent s @ cut_off (room s) (upto_done qs) \<and>
     (fl = Return \<longleftrightarrow> \<not> fits (room s) (length (deltas qs))) \<and>
     (fl = Panic \<longleftrightarrow> fits (room s) (length (deltas qs)) \<and> stuck ps) \<and>
     (saw_done s' \<longleftrightarrow> DONE \<in> set qs \<and> fl \<noteq> Return) \<and>
     (fl \<noteq> Return \<and> fl \<noteq> Panic \<longrightarrow> usage s' = fold (extract_usage x) (deltas qs) (usage s))"
  using assms
proof (induction ls arbitrary: s ps qs)
  case Nil
  then show ?case
    by (auto simp: cut_off_def upto_done_def deltas_def fits_def takeWhile_DONE split: option.splits)
next
  case (Cons l ls)
  show ?case
  proof (cases "line_payload l")
    case None
    with Cons show ?thesis by (simp add: handle_line_def map_filter_Cons)
  next
    case (Some p)
    define rs where "rs = takeWhile sendable (List.map_filter line_payload ls)"
    have ps: "ps = p # List.map_filter line_payload ls" "qs = (if sendable p then p # rs else [])"
      using Cons.prems(3,4) Some by (simp_all add: map_filter_Cons rs_def)
    consider (final) "p = DONE" | (refused) "\<not> sendable p" | (gone) "p \<noteq> DONE" "sendable p" "room s = Some 0"
      | (sent) "p \<noteq> DONE" "sendable p" "room s \<noteq> Some 0" by blast
    then show ?thesis
    proof cases
      case final
      with Some Cons.prems(1,2) show ?thesis unfolding ps
        by (auto simp: handle_line_def send_event_def cut_off_def upto_done_def
            deltas_def fits_def takeWhile_DONE split: option.splits nat.splits)
    next
      case refused
      then have "p \<noteq> DONE" using sendable_DONE by metis
      with refused Some Cons.prems(1,2) show ?thesis unfolding ps
        by (auto simp: handle_line_def send_event_def cut_off_def upto_done_def deltas_def fits_def
            takeWhile_DONE split: option.splits)
    next
      case gone
      with Some Cons.prems(1,2) show ?thesis unfolding ps
        by (auto simp: handle_line_def send_event_def cut_off_def upto_done_def deltas_def fits_def)
    next
      case sent
      define s2 where "s2 = s\<lparr>usage := extract_usage x p (usage s), sent := sent s @ [p],
        room := map_option (\<lambda>n. n - 1) (room s)\<rparr>"
      have "handle_line x l s = (Continue, s2)"
        using Some sent by (auto simp: handle_line_def send_event_def s2_def split: option.splits nat.splits)
      with Cons.IH [of s2, OF _ _ refl rs_def] Cons.prems(1,2) Some sent show ?thesis unfolding ps
        by (cases "room s")
           (auto simp: s2_def cut_off_def upto_done_def deltas_def fits_def take_Cons' takeWhile_DONE
             neq0_conv Suc_le_eq)
    qed
  qed
qed

lemma read_chunks_spec:
  assumes "read_chunks x cs (start_state client) = (fl, s')"
  shows "sent s' = cut_off client (upto_done (payloads (received cs))) \<and>
     (fl = Return \<longleftrightarrow> \<not> fits client (length (deltas (payloads (received cs))))) \<and>
     (fl = Panic \<longleftrightarrow> fits client (length (deltas (payloads (received cs)))) \<and> stuck (line_payloads (received cs))) \<and>
     (saw_done s' \<longleftrightarrow> DONE \<in> set (payloads (received cs)) \<and> fl \<noteq> Return) \<and>
     (fl \<noteq> Return \<and> fl \<noteq> Panic \<longrightarrow>
        usage s' = fold (extract_usage x) (deltas (payloads (received cs))) default_usage)"
proof -
  have st: "\<not> saw_done (start_state client)" "buf (start_state client) = []"
    "sent (start_state client) = []" "room (start_state client) = client"
    "usage (start_state client) = default_usage" by (simp_all add: start_state_def)
  with read_chunks_run [OF _ _ assms] obtain fl0 s0 where
    r: "run_lines x (fst (complete (received cs))) (start_state client) = (fl0, s0)"
      "s' = s0\<lparr>buf := buf s'\<rparr>" "fl = Return \<longleftrightarrow> fl0 = Return" "fl = Panic \<longleftrightarrow> fl0 = Panic" by auto
  have eq: "sent s' = sent s0" "saw_done s' = saw_done s0" "usage s' = usage s0"
    using buf_update_eq [OF r(2)] by simp_all
  from run_lines_spec [OF st(1) r(1) refl refl] show ?thesis
    by (simp add: eq st r(3,4) payloads_def line_payloads_def)
qed

text \<open>The whole task as one equation: what is sent, and when the user is charged for what.\<close>

definition task_ends :: "nat option \<Rightarrow> utext \<Rightarrow> task_end" where
  "task_ends client t =
     (if fits client (length (deltas (payloads t))) \<and> stuck (line_payloads t) then Panicked else Finished)"

lemma not_stuck: "DONE \<in> set (payloads t) \<Longrightarrow> \<not> stuck (line_payloads t)"
  by (simp add: stuck_def payloads_def)

lemma run_stream_spec:
  "run_stream x now chunks client uid model kind =
     (let t = received chunks; ps = payloads t; out = (task_ends client t, cut_off client (upto_done ps)) in
      if DONE \<in> set ps \<and> fits client (length (deltas ps))
      then matchM (charge_reply now uid (fold (extract_usage x) (deltas ps) default_usage) model kind)
             (\<lambda>_. pure out)
      else pure out)"
proof (cases "read_chunks x chunks (start_state client)")
  case (Pair fl s)
  from read_chunks_spec [OF Pair] Pair not_stuck [of "received chunks"] show ?thesis
    by (cases fl) (auto simp: run_stream_def task_ends_def Let_def)
qed

subsection \<open>The charge\<close>

definition bump :: "instant \<Rightarrow> uuid \<Rightarrow> int \<Rightarrow> subscription \<Rightarrow> subscription" where
  "bump now uid credits s =
     (if billable_for uid s
      then s\<lparr>s_credits_used := s_credits_used s + credits, s_updated_at := now\<rparr> else s)"

definition reply_row :: "instant \<Rightarrow> uuid \<Rightarrow> token_usage \<Rightarrow> string \<Rightarrow> string \<Rightarrow> usage_row" where
  "reply_row now uid u model kind =
     \<lparr>l_user_id = uid, l_metric = AiReply, l_units = sint (total_tokens u),
      l_cost_credits = credits_for_tokens (prompt_tokens u) (completion_tokens u),
      l_model = Some model, l_kind = Some kind, l_created_at = now\<rparr>"

text \<open>The database after a charge: the ledger row and the counter move together.\<close>

definition charged_db :: "instant \<Rightarrow> uuid \<Rightarrow> token_usage \<Rightarrow> string \<Rightarrow> string \<Rightarrow> database \<Rightarrow> database" where
  "charged_db now uid u model kind d =
     d\<lparr>usage_ledger := usage_ledger d @ [reply_row now uid u model kind],
       subscriptions := map (bump now uid
         (credits_for_tokens (prompt_tokens u) (completion_tokens u))) (subscriptions d)\<rparr>"

lemma usage_sql_Inr:
  "usage_sql now uid ''ai_reply'' units cost model kind d = (Inr (), d') \<Longrightarrow>
     0 \<le> units \<and> user_exists d uid \<and>
     d' = d\<lparr>usage_ledger := usage_ledger d @
       [\<lparr>l_user_id = uid, l_metric = AiReply, l_units = units, l_cost_credits = cost,
         l_model = model, l_kind = kind, l_created_at = now\<rparr>]\<rparr>"
  by (auto simp: usage_sql_def metric_of_text_def split: if_splits)

lemma add_credits_sql_Inr:
  "add_credits_sql now uid credits d = (Inr v, d') \<Longrightarrow>
     (\<exists>s\<in>set (subscriptions d). billable_for uid s) \<and>
     d' = d\<lparr>subscriptions := map (bump now uid credits) (subscriptions d)\<rparr>"
  by (auto simp: add_credits_sql_def bump_def fun_eq_iff filter_eq_Cons_iff
      split: list.splits if_splits)

lemma query_Inr: "query q w = (Inr a, w') \<Longrightarrow> q (db w) = (Inr a, db w')"
  by (cases rule: query_cases [of q w]) (auto simp: prod_eq_iff)

lemma charge_reply_cases:
  assumes "charge_reply now uid u model kind w = (r, w')"
  shows "(\<exists>e. r = Inl e) \<and> db w' = db w \<or>
     (\<exists>v. r = Inr v) \<and> db w' = charged_db now uid u model kind (db w) \<and> user_exists (db w) uid \<and>
     0 \<le> sint (total_tokens u) \<and> (\<exists>s\<in>set (subscriptions (db w)). billable_for uid s)"
proof (cases r)
  case (Inl e)
  with assms show ?thesis
    unfolding charge_reply_def Let_def by (auto dest: transaction_atomic)
next
  case (Inr v)
  with assms obtain w1 w2 w3 where "db w1 = db w" "db w' = db w3"
    "record_usage now uid ''ai_reply'' (sint (total_tokens u))
       (credits_for_tokens (prompt_tokens u) (completion_tokens u)) (Some model) (Some kind) w1 = (Inr (), w2)"
    "add_ai_credits_used now uid (credits_for_tokens (prompt_tokens u) (completion_tokens u)) w2 = (Inr v, w3)"
    unfolding charge_reply_def Let_def by (auto simp: bindM_Inr_iff dest!: transaction_committed)
  with Inr show ?thesis
    unfolding record_usage_def add_ai_credits_used_def
    by (auto simp: charged_db_def reply_row_def dest!: query_Inr usage_sql_Inr add_credits_sql_Inr)
qed

lemma keeps_charge_reply [keeps_intros]: "keeps billing_inv (charge_reply now uid u model kind)"
  unfolding charge_reply_def by (intro keeps_intros)

lemma keeps_run_stream [keeps_intros]:
  "keeps billing_inv (run_stream x now chunks client uid model kind)"
  unfolding run_stream_spec Let_def by (intro keeps_intros)

lemma keeps_chat [keeps_intros]: "keeps P (chat upstream billing u req)"
  unfolding chat_def fetch_active_def Let_def by (intro keeps_intros)

lemma matchM_pure: "matchM m (\<lambda>_. pure a) w = (Inr a, snd (m w))"
  by (simp add: matchM_def pure_def split: prod.splits)

lemma received_encoded:
  "list_all (list_all scalar_value) parts \<Longrightarrow>
     received (map (\<lambda>p. Some (concat (map utf8_encode p))) parts) = concat parts"
  by (induction parts) (simp_all add: from_utf8_lossy_encode)

lemma run_stream_output:
  "fst (run_stream x now chunks client uid model kind w) =
     Inr (task_ends client (received chunks), cut_off client (upto_done (payloads (received chunks))))"
  by (simp add: run_stream_spec Let_def matchM_pure pure_def)

lemma i32_add_small: "i32_range a \<Longrightarrow> a \<le> 2147483597 \<Longrightarrow> i32_add a (estimated_cost k) = a + estimated_cost k"
  by (rule i32_add_in_range) (cases k; simp add: i32_range_def)

lemma credit_gate_Inr:
  assumes "credit_gate sub kind = Inr ()"
    and "\<And>s. sub = Some s \<Longrightarrow> i32_range (s_credits_used s) \<and> s_credits_used s \<le> 2147483597"
  shows "\<exists>s. sub = Some s \<and> s_status s \<in> {Active, Trialing} \<and>
     (ai_credits_monthly (subscription_entitlements sub) = UNLIMITED \<or>
      s_credits_used s + estimated_cost kind \<le> ai_credits_monthly (subscription_entitlements sub))"
proof -
  from assms(1) have m: "managed_ai (subscription_entitlements sub)"
    by (auto simp: credit_gate_def Let_def split: if_splits)
  then obtain s where s: "sub = Some s"
    by (cases sub) (auto simp: subscription_entitlements_def tier_status_def entitlements_for_managed_ai)
  with m have "s_status s \<in> {Active, Trialing}"
    by (cases "s_status s")
       (auto simp: subscription_entitlements_def tier_status_def entitlements_for_managed_ai)
  moreover have "i32_add (s_credits_used s) (estimated_cost kind) = s_credits_used s + estimated_cost kind"
    using assms(2) [OF s] by (intro i32_add_small) auto
  ultimately show ?thesis using assms(1) s
    by (auto simp: credit_gate_def Let_def not_less split: if_splits)
qed

lemma chat_Inr:
  assumes "chat upstream (Some b) u req w = (Inr task, w')"
  shows "db w' = db w \<and> st_user task = u_id u \<and>
     credit_gate (active_subscription (db w) (u_id u)) (case rq_kind req of None \<Rightarrow> Simple | Some k \<Rightarrow> k) = Inr ()"
proof -
  have "st_user t = u_id u" if "open_upstream upstream key u model kind p = Inr t" for key model kind p t
    using that by (auto simp: open_upstream_def split: sum.splits prod.splits if_splits)
  with assms show ?thesis
    by (auto simp: chat_def Let_def bindM_Inr_iff of_result_def map_errM_Inr fetch_active_def
        dest!: select_Inr)
qed

text \<open>The counters after the task: untouched, or moved by one charge.\<close>

lemma charge_only_completed_aux:
  assumes "run_stream x now chunks client uid model kind w = (r, w')"
  shows "\<exists>c. 0 \<le> c \<and> c \<le> 17179870 \<and>
     (subscriptions (db w') = map (bump now uid c) (subscriptions (db w)) \<or>
      subscriptions (db w') = subscriptions (db w))"
proof -
  let ?ps = "payloads (received chunks)"
  let ?u = "fold (extract_usage x) (deltas ?ps) default_usage"
  have "db w' = db w \<or> db w' = charged_db now uid ?u model kind (db w)"
    using assms charge_reply_cases [of now uid ?u model kind w]
    by (cases "charge_reply now uid ?u model kind w")
       (auto simp: run_stream_spec Let_def matchM_pure pure_def split: if_splits)
  then show ?thesis
    using credits_for_tokens_bounds [of "prompt_tokens ?u" "completion_tokens ?u"]
    by (intro exI [of _ "credits_for_tokens (prompt_tokens ?u) (completion_tokens ?u)"])
       (auto simp: charged_db_def)
qed

definition done_chunk :: "nat list" where
  "done_chunk = [100, 97, 116, 97, 58, 32, 91, 68, 79, 78, 69, 93, 10]"

definition sample_ai :: ai_env where
  "sample_ai = \<lparr>ai_parse_json = \<lambda>_. None, ai_decode_usage = \<lambda>_. None\<rparr>"

lemma payloads_done_chunk: "payloads (from_utf8_lossy done_chunk) = [DONE]"
  by (simp add: done_chunk_def decode_one_def payloads_def line_payloads_def sendable_def map_filter_Cons
      line_payload_def ascii_def DONE_def)

subsection \<open>Properties\<close>

text \<open>C15: framing does not depend on the network.  However the upstream text is cut into chunks, as
  long as no cut falls inside a character, a client that stays connected receives the payload of
  every complete \<open>data:\<close> line of the whole text, in order, up to and including the first
  \<open>[DONE]\<close>, and nothing else - unless one of them before \<open>[DONE]\<close> has a carriage return inside,
  which the event type refuses with a panic: then the client receives those before it, and the
  task (in a release build the process) dies.\<close>

theorem stream_framing:
  assumes "list_all (list_all scalar_value) parts"
  shows "let ps = line_payloads (concat parts); through = takeWhile (\<lambda>p. 13 \<notin> set p) ps in
     fst (run_stream x now (map (\<lambda>p. Some (concat (map utf8_encode p))) parts) None uid model kind w) =
     Inr (if through \<noteq> ps \<and> DONE \<notin> set through then Panicked else Finished, upto_done through)"
proof -
  have "sendable = (\<lambda>p. 13 \<notin> set p)" by (simp add: fun_eq_iff sendable_def)
  then show ?thesis
    using assms
    by (auto simp: run_stream_output received_encoded cut_off_def task_ends_def fits_def stuck_def payloads_def Let_def)
qed

theorem stream_framing_witness:
  "fst (run_stream sample_ai 7 (map (\<lambda>p. Some (concat (map utf8_encode p)))
      [ascii ''data: {1'', ascii ''}'' @ [10, 10] @ ascii ''da'', ascii ''ta: [DONE]'' @ [13, 10, 33]])
      None 1 ''m'' ''simple'' \<lparr>db = sample_database, faults = []\<rparr>) = Inr (Finished, [ascii ''{1}'', DONE]) \<and>
   fst (run_stream sample_ai 7 (map (\<lambda>p. Some (concat (map utf8_encode p)))
      [ascii ''data: 1'' @ [10] @ ascii ''data: 2'', [13] @ ascii ''3'' @ [10] @ ascii ''data: [DONE]'' @ [10]])
      None 1 ''m'' ''simple'' \<lparr>db = sample_database, faults = []\<rparr>) = Inr (Panicked, [ascii ''1''])"
proof -
  let ?w = "\<lparr>db = sample_database, faults = []\<rparr> :: world"
  let ?p = "[ascii ''data: {1'', ascii ''}'' @ [10, 10] @ ascii ''da'', ascii ''ta: [DONE]'' @ [13, 10, 33]]"
  let ?q = "[ascii ''data: 1'' @ [10] @ ascii ''data: 2'', [13] @ ascii ''3'' @ [10] @ ascii ''data: [DONE]'' @ [10]]"
  have "list_all (list_all scalar_value) ?p" "list_all (list_all scalar_value) ?q"
    by (simp_all add: ascii_def scalar_value_def)
  from this [THEN stream_framing, of sample_ai 7 1 "''m''" "''simple''" ?w]
  show ?thesis
    by (simp add: Let_def line_payloads_def map_filter_Cons line_payload_def upto_done_def DONE_def ascii_def)
qed

text \<open>A cut inside a character corrupts it.  The two bytes of U+00E9 in two chunks reach the
  client as two replacement characters, in one chunk as the character: the payloads are not
  always forwarded verbatim.\<close>

theorem stream_split_character:
  "fst (run_stream x now [Some [100, 97, 116, 97, 58, 32, 195], Some [169, 10]] None uid model kind w) =
     Inr (Finished, [[REPLACEMENT, REPLACEMENT]]) \<and>
   fst (run_stream x now [Some [100, 97, 116, 97, 58, 32, 195, 169, 10]] None uid model kind w) =
     Inr (Finished, [[233]])"
  by (simp add: run_stream_output task_ends_def stuck_def decode_one_def continuation_def REPLACEMENT_def payloads_def
      line_payloads_def sendable_def map_filter_Cons line_payload_def ascii_def upto_done_def DONE_def cut_off_def)

text \<open>C3: nobody pays for a reply that was not completed, and a charge is all or nothing.
  Whatever the upstream sends, whenever the client leaves and whichever database round trip fails,
  either nothing is written, or the terminator arrived, the client took every delta before it,
  and the ledger row and the credit counter were written together for the same amount.\<close>

theorem charge_only_completed:
  assumes "run_stream x now chunks client uid model kind w = (r, w')"
  shows "db w' = db w \<or>
     DONE \<in> set (payloads (received chunks)) \<and>
     fits client (length (deltas (payloads (received chunks)))) \<and>
     db w' = charged_db now uid (fold (extract_usage x) (deltas (payloads (received chunks))) default_usage)
               model kind (db w)"
proof (cases "DONE \<in> set (payloads (received chunks)) \<and> fits client (length (deltas (payloads (received chunks))))")
  case True
  let ?u = "fold (extract_usage x) (deltas (payloads (received chunks))) default_usage"
  have "w' = snd (charge_reply now uid ?u model kind w)"
    using assms True by (simp add: run_stream_spec Let_def matchM_pure)
  with charge_reply_cases [of now uid ?u model kind w "fst (charge_reply now uid ?u model kind w)" w']
  show ?thesis using True by auto
next
  case False
  with assms show ?thesis by (auto simp: run_stream_spec Let_def pure_def)
qed

theorem charge_only_completed_witness:
  "db (snd (run_stream sample_ai 7 [Some done_chunk] None 1 ''m'' ''simple''
      \<lparr>db = sample_database, faults = [False, True]\<rparr>))
     \<in> {sample_database, charged_db 7 1 default_usage ''m'' ''simple'' sample_database}"
proof -
  let ?w = "\<lparr>db = sample_database, faults = [False, True]\<rparr>"
  let ?r = "run_stream sample_ai 7 [Some done_chunk] None 1 ''m'' ''simple'' ?w"
  have "?r = (fst ?r, snd ?r)" by simp
  from charge_only_completed [OF this] show ?thesis by (auto simp: payloads_done_chunk deltas_def)
qed

text \<open>C16: a completed reply is charged.  If the stream reaches its terminator before the client
  leaves, the database answers, the user and a billable subscription exist, the total token count
  fits an \<open>i32\<close> and the counter does not overflow, then exactly the charge for the reported
  tokens is booked.\<close>

theorem completed_reply_is_charged:
  assumes "DONE \<in> set (payloads (received chunks))" "fits client (length (deltas (payloads (received chunks))))"
    and "faults w = []" "billing_inv (db w)" "user_exists (db w) uid"
    and "s \<in> set (subscriptions (db w))" "billable_for uid s"
    and u: "u = fold (extract_usage x) (deltas (payloads (received chunks))) default_usage"
    and "0 \<le> sint (total_tokens u)"
    and "i32_range (s_credits_used s + credits_for_tokens (prompt_tokens u) (completion_tokens u))"
  shows "db (snd (run_stream x now chunks client uid model kind w)) = charged_db now uid u model kind (db w)"
proof -
  let ?c = "credits_for_tokens (prompt_tokens u) (completion_tokens u)"
  let ?d = "(db w)\<lparr>usage_ledger := usage_ledger (db w) @ [reply_row now uid u model kind]\<rparr>"
  have c: "0 \<le> ?c" using credits_for_tokens_bounds [of "prompt_tokens u" "completion_tokens u"] by simp
  have f: "x \<in> set (filter (billable_for uid) (subscriptions ?d)) \<Longrightarrow> x = s" for x
    using assms(4,6,7) billable_unique [of "db w" x s uid] by auto
  obtain t ts where t: "filter (billable_for uid) (subscriptions ?d) = t # ts"
    using assms(6,7) by (cases "filter (billable_for uid) (subscriptions ?d)") (auto simp: filter_empty_conv)
  with f have "\<forall>x\<in>set (t # ts). x = s" by metis
  with t assms(10) have "\<exists>v. add_credits_sql now uid ?c ?d = (Inr v, charged_db now uid u model kind (db w))"
    by (auto simp: add_credits_sql_def charged_db_def bump_def fun_eq_iff)
  then obtain v where a: "add_credits_sql now uid ?c ?d = (Inr v, charged_db now uid u model kind (db w))" by blast
  have "usage_sql now uid ''ai_reply'' (sint (total_tokens u)) ?c (Some model) (Some kind) (db w) = (Inr (), ?d)"
    using assms(5,9) c by (simp add: usage_sql_def metric_of_text_def reply_row_def)
  with a have "charge_reply now uid u model kind w = (Inr v, w\<lparr>db := charged_db now uid u model kind (db w)\<rparr>)"
    using assms(3)
    by (simp add: charge_reply_def Let_def transaction_no_faults bindM_def record_usage_def add_ai_credits_used_def)
  with assms(1,2) u show ?thesis by (simp add: run_stream_spec Let_def matchM_pure)
qed

theorem completed_reply_is_charged_witness:
  "db (snd (run_stream sample_ai 7 [Some done_chunk] None 1 ''m'' ''simple'' \<lparr>db = sample_database, faults = []\<rparr>)) =
     charged_db 7 1 default_usage ''m'' ''simple'' sample_database"
proof -
  let ?w = "\<lparr>db = sample_database, faults = []\<rparr>"
  have "credits_for_tokens 0 0 = 1" by (simp add: credits_for_tokens_def f64_div_ceil_def)
  then have "i32_range (s_credits_used sample_subscription +
      credits_for_tokens (prompt_tokens default_usage) (completion_tokens default_usage))"
    by (simp add: sample_subscription_def default_usage_def i32_range_def)
  moreover have "user_exists (db ?w) 1" "sample_subscription \<in> set (subscriptions (db ?w))"
    "billable_for 1 sample_subscription" "0 \<le> sint (total_tokens default_usage)"
    by (simp_all add: user_exists_def billable_for_def billable_def default_usage_def sample_defs)
  ultimately have "db (snd (run_stream sample_ai 7 [Some done_chunk] None 1 ''m'' ''simple'' ?w)) =
      charged_db 7 1 default_usage ''m'' ''simple'' (db ?w)"
    by (intro completed_reply_is_charged [where s = sample_subscription])
       (simp_all add: sample_inv payloads_done_chunk fits_def deltas_def)
  then show ?thesis by simp
qed

text \<open>The credit gate holds.  A request gets upstream only for a user whose subscription is
  active or trialing and whose plan is unlimited or has room for the estimate (below the range in
  which the \<open>i32\<close> sum wraps); after the reply has been charged the counter of a capped plan
  exceeds its cap by less than the cost of that one reply.\<close>

theorem credit_gate_bounds_usage:
  assumes "billing_inv (db w)" "chat upstream (Some b) u req w = (Inr task, w1)"
    and s: "s \<in> set (subscriptions (db w))" "billable_for (u_id u) s" "s_credits_used s \<le> 2147483597"
    and "db w2 = db w1"
    and "run_stream x now (st_chunks task) client (st_user task) (st_model task) (st_kind task) w2 = (r, w3)"
  shows "s_status s \<in> {Active, Trialing} \<and>
     (ai_credits_monthly (subscription_entitlements (Some s)) = UNLIMITED \<or>
      (\<forall>t\<in>set (subscriptions (db w3)). billable_for (u_id u) t \<longrightarrow>
         s_credits_used t < ai_credits_monthly (subscription_entitlements (Some s)) + 17179870))"
proof -
  have act: "active_subscription (db w) (u_id u) = Some s"
    using assms(1) s by (simp add: active_subscription_iff)
  have rng: "i32_range (s_credits_used s)" using assms(1) s(1) by (auto simp: billing_inv_def)
  from chat_Inr [OF assms(2)] act have g: "db w1 = db w" "st_user task = u_id u"
    "credit_gate (Some s) (case rq_kind req of None \<Rightarrow> Simple | Some k \<Rightarrow> k) = Inr ()" by auto
  have est: "1 \<le> estimated_cost k" for k by (cases k) simp_all
  define cap where "cap = ai_credits_monthly (subscription_entitlements (Some s))"
  let ?k = "case rq_kind req of None \<Rightarrow> Simple | Some k \<Rightarrow> k"
  have st: "s_status s \<in> {Active, Trialing}"
    and "cap = UNLIMITED \<or> s_credits_used s + estimated_cost ?k \<le> cap"
    using credit_gate_Inr [OF g(3)] rng s(3) by (auto simp: cap_def)
  with est [of ?k] have room: "cap = UNLIMITED \<or> s_credits_used s + 1 \<le> cap" by linarith
  have "s_credits_used t \<le> s_credits_used s + 17179870"
    if t: "t \<in> set (subscriptions (db w3))" "billable_for (u_id u) t" for t
  proof -
    from charge_only_completed_aux [OF assms(7)] obtain c where c: "0 \<le> c" "c \<le> 17179870"
      "subscriptions (db w3) = map (bump now (u_id u) c) (subscriptions (db w))
       \<or> subscriptions (db w3) = subscriptions (db w)"
      using g assms(6) by auto
    then obtain t0 where t0: "t0 \<in> set (subscriptions (db w))" "billable_for (u_id u) t0"
      "s_credits_used t \<le> s_credits_used t0 + c"
      using t by (auto simp: bump_def billable_for_def split: if_splits)
    then have "t0 = s" using billable_unique [OF assms(1) t0(1) s(1) t0(2) s(2)] by simp
    with t0(3) c(2) show ?thesis by simp
  qed
  then have "cap = UNLIMITED \<or> (\<forall>t\<in>set (subscriptions (db w3)). billable_for (u_id u) t \<longrightarrow>
      s_credits_used t < cap + 17179870)"
    using room by fastforce
  then show ?thesis using st unfolding cap_def by blast
qed

definition ai_context :: billing_context where
  "ai_context = sample_context\<lparr>b_openai_key := Some ''key''\<rparr>"

theorem credit_gate_bounds_usage_witness:
  "fst (chat (\<lambda>_ _. Inr (200, [Some done_chunk])) (Some ai_context) sample_user
     \<lparr>rq_model = None, rq_kind = Some Analysis, rq_passthrough = JObj []\<rparr> \<lparr>db = sample_database, faults = []\<rparr>)
     = Inr \<lparr>st_user = 1, st_model = DEFAULT_MODEL, st_kind = ''analysis'', st_chunks = [Some done_chunk]\<rparr> \<and>
   list_all (\<lambda>t. s_credits_used t < 300 + 17179870)
     (subscriptions (db (snd (run_stream sample_ai 7 [Some done_chunk] None 1 DEFAULT_MODEL ''analysis''
        \<lparr>db = sample_database, faults = []\<rparr>))))"
proof -
  let ?w = "\<lparr>db = sample_database, faults = []\<rparr>"
  let ?task = "\<lparr>st_user = 1, st_model = DEFAULT_MODEL, st_kind = ''analysis'', st_chunks = [Some done_chunk]\<rparr>"
  let ?req = "\<lparr>rq_model = None, rq_kind = Some Analysis, rq_passthrough = JObj []\<rparr>"
  let ?run = "run_stream sample_ai 7 [Some done_chunk] None 1 DEFAULT_MODEL ''analysis'' ?w"
  have ent: "subscription_entitlements (Some sample_subscription) = basic_entitlements"
    by (simp add: subscription_entitlements_def tier_status_def entitlements_for_def str_simps
        sample_subscription_def)
  have c: "chat (\<lambda>_ _. Inr (200, [Some done_chunk])) (Some ai_context) sample_user ?req ?w = (Inr ?task, ?w)"
    by (simp add: chat_def ai_context_def act_simps fetch_active_def active_subscription_def billable_def
        credit_gate_def subscription_entitlements_def tier_status_def entitlements_for_def ent_defs
        i32_add_def wrap_signed_def open_upstream_def is_success_def result_simps str_simps sample_defs)
  have "?run = (fst ?run, snd ?run)" by simp
  from credit_gate_bounds_usage [OF _ c, of sample_subscription ?w sample_ai 7 None "fst ?run" "snd ?run"]
  have "\<forall>t\<in>set (subscriptions (db (snd ?run))). billable_for 1 t \<longrightarrow> s_credits_used t < 300 + 17179870"
    by (simp add: sample_inv ent) (simp add: ent_defs billable_for_def billable_def sample_defs)
  moreover have "billable_for 1 t" if "t \<in> set (subscriptions (db (snd ?run)))" for t
    using that charge_only_completed_aux [of sample_ai 7 "[Some done_chunk]" None 1 DEFAULT_MODEL "''analysis''" ?w
        "fst ?run" "snd ?run"]
    by (auto simp: bump_def billable_for_def billable_def sample_defs split: if_splits)
  ultimately show ?thesis using c by (simp add: list_all_iff)
qed

end
