(* ===== verification/Users_Me.thy ===== *)
theory Users_Me
  imports Auth Ai_Proxy
begin

text \<open>
  The user repository (\<^verbatim>\<open>src/users/repository.rs\<close>) and the profile endpoints
  (\<^verbatim>\<open>src/users/handlers.rs\<close>).  The RFC 3339 formatter of the time package is the parameter
  \<open>fmt\<close>.
\<close>

subsection \<open>Repository\<close>

definition user_by_id :: "database \<Rightarrow> uuid \<Rightarrow> user option" where
  "user_by_id d uid = find (\<lambda>u. u_id u = uid \<and> u_deleted_at u = None) (users d)"

definition fetch_user_by_id :: "uuid \<Rightarrow> (sqlx_error, user option) action" where
  "fetch_user_by_id uid = select (\<lambda>d. user_by_id d uid)"

definition rename :: "instant \<Rightarrow> string option \<Rightarrow> user \<Rightarrow> user" where
  "rename now name u = u\<lparr>u_display_name := or_else name (u_display_name u), u_updated_at := now\<rparr>"

definition update_display_name_sql ::
  "instant \<Rightarrow> uuid \<Rightarrow> string option \<Rightarrow> database \<Rightarrow> (sqlx_error + user) \<times> database" where
  "update_display_name_sql now uid name d =
     (case user_by_id d uid of
        None \<Rightarrow> (Inl RowNotFound, d)
      | Some u \<Rightarrow>
          (Inr (rename now name u),
           d\<lparr>users := map (\<lambda>v. if u_id v = uid \<and> u_deleted_at v = None then rename now name v else v)
                        (users d)\<rparr>))"

definition update_display_name :: "instant \<Rightarrow> uuid \<Rightarrow> string option \<Rightarrow> (sqlx_error, user) action" where
  "update_display_name now uid name = query (update_display_name_sql now uid name)"

subsection \<open>Responses\<close>

record ai_credits =
  ac_monthly :: int
  ac_used :: int
  ac_resets_at :: "instant option"

record team_dto =
  td_id :: uuid
  td_name :: string
  td_logo_url :: "string option"
  td_plan :: "string option"
  td_subscription_status :: "string option"
  td_current_period_end :: "string option"
  td_cancel_at_period_end :: "bool option"
  td_canceled_at :: "string option"
  td_country_code :: "string option"
  td_created_at :: "string option"
  td_entitlements :: entitlements
  td_ai_credits :: ai_credits

record me_response =
  me_id :: uuid
  me_supabase_user_id :: uuid
  me_email :: string
  me_display_name :: "string option"
  me_avatar_url :: "string option"
  me_created_at :: instant
  me_updated_at :: instant
  me_team_id :: "uuid option"
  me_team_role :: "string option"
  me_team :: "team_dto option"

definition build_me :: "(instant \<Rightarrow> string option) \<Rightarrow> user \<Rightarrow> subscription option \<Rightarrow> me_response" where
  "build_me fmt u sub =
     (let plan = map_option s_tier sub;
          status = map_option (\<lambda>s. status_text (s_status s)) sub;
          ents = entitlements_for plan status;
          resets_at = Option.bind sub s_period_end;
          used = (case sub of None \<Rightarrow> 0 | Some s \<Rightarrow> s_credits_used s);
          credits = \<lparr>ac_monthly = ai_credits_monthly ents,
                     ac_used = (if ai_credits_monthly ents = UNLIMITED then 0 else used),
                     ac_resets_at = resets_at\<rparr>;
          team = \<lparr>td_id = u_id u, td_name = unwrap_or (u_email u) (u_display_name u),
                  td_logo_url = None, td_plan = plan, td_subscription_status = status,
                  td_current_period_end = Option.bind (Option.bind sub s_period_end) fmt,
                  td_cancel_at_period_end = map_option s_cancel_at_period_end sub,
                  td_canceled_at = None, td_country_code = None,
                  td_created_at = fmt (u_created_at u),
                  td_entitlements = ents, td_ai_credits = credits\<rparr>
      in \<lparr>me_id = u_id u, me_supabase_user_id = u_supabase_user_id u, me_email = u_email u,
          me_display_name = u_display_name u, me_avatar_url = u_avatar_url u,
          me_created_at = u_created_at u, me_updated_at = u_updated_at u,
          me_team_id = Some (u_id u), me_team_role = Some ''owner'', me_team = Some team\<rparr>)"

subsection \<open>Handlers\<close>

definition get_me :: "(instant \<Rightarrow> string option) \<Rightarrow> user \<Rightarrow> (app_error, me_response) action" where
  "get_me fmt u = bindM (map_errM from_sqlx (fetch_active (u_id u))) (\<lambda>sub. pure (build_me fmt u sub))"

text \<open>The validator counts characters.\<close>

definition validate_patch :: "string option \<Rightarrow> string + unit" where
  "validate_patch name =
     (case name of
        None \<Rightarrow> Inr ()
      | Some n \<Rightarrow> if 1 \<le> length n \<and> length n \<le> 100 then Inr ()
                  else Inl ''display_name: display_name must be 1-100 chars'')"

definition patch_me ::
  "(instant \<Rightarrow> string option) \<Rightarrow> instant \<Rightarrow> user \<Rightarrow> string option \<Rightarrow> (app_error, me_response) action" where
  "patch_me fmt now u name =
     bindM (of_result (map_err from_validation (validate_patch name))) (\<lambda>_.
     bindM (map_errM from_sqlx (update_display_name now (u_id u) (trimmed name))) (\<lambda>updated.
     bindM (map_errM from_sqlx (fetch_active (u_id updated))) (\<lambda>sub.
       pure (build_me fmt updated sub))))"

subsection \<open>Lemmas\<close>

lemma user_by_id_Some: "user_by_id d uid = Some u \<Longrightarrow> u \<in> set (users d) \<and> u_id u = uid \<and> u_deleted_at u = None"
  by (auto simp: user_by_id_def dest: find_Some_iff_set)

lemma keeps_users_inv_patch: "users_inv d \<Longrightarrow> users_inv (snd (update_display_name_sql now uid name d))"
  by (auto simp: update_display_name_sql_def users_inv_def unique_on_map_same rename_def split: option.splits)

lemma keeps_users_patch_me [keeps_intros]: "keeps users_inv (patch_me fmt now u name)"
  unfolding patch_me_def update_display_name_def fetch_active_def
  by (intro keeps_intros keeps_users_inv_patch)

lemma build_me_fields:
  "me_team (build_me fmt u sub) = Some t \<Longrightarrow>
     td_entitlements t = subscription_entitlements sub \<and>
     ac_monthly (td_ai_credits t) = ai_credits_monthly (subscription_entitlements sub) \<and>
     (ac_monthly (td_ai_credits t) \<noteq> UNLIMITED \<longrightarrow>
        ac_used (td_ai_credits t) = (case sub of None \<Rightarrow> 0 | Some s \<Rightarrow> s_credits_used s))"
  by (cases sub) (auto simp: build_me_def Let_def subscription_entitlements_def tier_status_def)

lemma update_display_name_lookup:
  assumes "update_display_name_sql now uid name d = (Inr r, d')"
  shows "user_by_supabase d' sid =
     map_option (\<lambda>v. if u_id v = uid \<and> u_deleted_at v = None then rename now name v else v)
       (user_by_supabase d sid)"
proof -
  have "d' = d\<lparr>users := map (\<lambda>v. if u_id v = uid \<and> u_deleted_at v = None then rename now name v else v) (users d)\<rparr>"
    using assms by (auto simp: update_display_name_sql_def split: option.splits)
  then show ?thesis
    unfolding user_by_supabase_def by (simp add: find_map_other rename_def)
qed

subsection \<open>Properties\<close>

text \<open>C24: what the profile promises the proxy honours.  If \<open>GET /v1/me\<close> reports the managed AI
  entitlement with either no monthly limit or enough credits left for the estimate of a request,
  then the gate of \<open>/v1/ai/chat\<close> admits that request on the same database state, and it rejects
  it otherwise (for counters below the range in which the \<open>i32\<close> sum wraps).\<close>

theorem me_agrees_with_chat_gate:
  assumes "billing_inv (db w)" "get_me fmt u w = (Inr resp, w')" "me_team resp = Some t"
    and "\<And>s. active_subscription (db w) (u_id u) = Some s \<Longrightarrow> s_credits_used s \<le> 2147483597"
  shows "credit_gate (active_subscription (db w) (u_id u)) kind = Inr () \<longleftrightarrow>
     managed_ai (td_entitlements t) \<and>
     (ac_monthly (td_ai_credits t) = UNLIMITED \<or>
      ac_used (td_ai_credits t) + estimated_cost kind \<le> ac_monthly (td_ai_credits t))"
proof -
  define sub where "sub = active_subscription (db w) (u_id u)"
  from assms(2) have r: "resp = build_me fmt u sub"
    by (auto simp: get_me_def bindM_Inr_iff map_errM_Inr fetch_active_def pure_def sub_def dest!: select_Inr)
  have f: "td_entitlements t = subscription_entitlements sub"
    "ac_monthly (td_ai_credits t) = ai_credits_monthly (subscription_entitlements sub)"
    "ac_monthly (td_ai_credits t) \<noteq> UNLIMITED \<longrightarrow>
        ac_used (td_ai_credits t) = (case sub of None \<Rightarrow> 0 | Some s \<Rightarrow> s_credits_used s)"
    using build_me_fields [of fmt u sub t] assms(3) r by auto
  have small: "i32_add (case sub of None \<Rightarrow> 0 | Some s \<Rightarrow> s_credits_used s) (estimated_cost kind) =
      (case sub of None \<Rightarrow> 0 | Some s \<Rightarrow> s_credits_used s) + estimated_cost kind"
  proof (intro i32_add_small)
    show "i32_range (case sub of None \<Rightarrow> 0 | Some s \<Rightarrow> s_credits_used s)"
      using assms(1) active_subscription_iff [OF assms(1)]
      by (auto simp: sub_def billing_inv_def i32_range_def split: option.splits)
    show "(case sub of None \<Rightarrow> 0 | Some s \<Rightarrow> s_credits_used s) \<le> 2147483597"
      using assms(4) by (auto simp: sub_def split: option.splits)
  qed
  show ?thesis
    using f small by (auto simp: credit_gate_def Let_def sub_def [symmetric])
qed

theorem me_agrees_with_chat_gate_witness:
  "credit_gate (active_subscription sample_database 1) DeepReport = Inr () \<longleftrightarrow>
     True \<and> (300 = UNLIMITED \<or> 42 + estimated_cost DeepReport \<le> 300)"
proof -
  let ?w = "\<lparr>db = sample_database, faults = []\<rparr>"
  have a: "active_subscription sample_database 1 = Some sample_subscription"
    by (simp add: active_subscription_def billable_def sample_defs)
  have g: "get_me (\<lambda>_. None) sample_user ?w =
      (Inr (build_me (\<lambda>_. None) sample_user (Some sample_subscription)), ?w)"
    using a by (simp add: get_me_def act_simps fetch_active_def result_simps sample_user_def)
  obtain t where t: "me_team (build_me (\<lambda>_. None) sample_user (Some sample_subscription)) = Some t"
    by (auto simp: build_me_def Let_def)
  have "managed_ai (td_entitlements t)" "ac_monthly (td_ai_credits t) = 300" "ac_used (td_ai_credits t) = 42"
    using t by (auto simp: build_me_def Let_def entitlements_for_def ent_defs sample_subscription_def str_simps)
  moreover have "u_id sample_user = 1" by (simp add: sample_user_def)
  ultimately show ?thesis
    using me_agrees_with_chat_gate [OF _ g t, of DeepReport] sample_inv a
    by (simp add: sample_subscription_def)
qed

text \<open>C25: a display name set in the profile does not last.  For a user whose token carries a
  display name, a successful \<open>PATCH /v1/me\<close> answers with the new name, and the next
  authenticated request of the same user - any request - puts the name of the token back.\<close>

theorem patched_name_reverts:
  assumes "patch_me fmt now u (Some name) w = (Inr resp, w1)" "trim name \<noteq> []"
    and "users_inv (db w)" "u \<in> set (users (db w))"
    and "db w2 = db w1" "parse_uuid x (cl_sub c) = Some (u_supabase_user_id u)"
    and "claims_display_name c = Some token_name"
    and "upsert_user_from_claims x row_id now' c w2 = (Inr u2, w3)"
  shows "me_display_name resp = Some (trim name) \<and>
     u_id u2 = u_id u \<and> u_display_name u2 = Some token_name \<and>
     user_by_supabase (db w3) (u_supabase_user_id u) = Some u2"
proof -
  from assms(1,2) obtain upd sub where
    q: "update_display_name_sql now (u_id u) (Some (trim name)) (db w) = (Inr upd, db w1)"
    and resp: "resp = build_me fmt upd sub"
    by (auto simp: patch_me_def bindM_Inr_iff of_result_def map_errM_Inr update_display_name_def
        fetch_active_def pure_def trimmed_def dest!: query_Inr select_Inr)
  then obtain v where v: "user_by_id (db w) (u_id u) = Some v" "upd = rename now (Some (trim name)) v"
    by (auto simp: update_display_name_sql_def split: option.splits)
  have "me_display_name resp = Some (trim name)"
    by (simp add: resp v(2) build_me_def Let_def rename_def or_else_def)
  moreover have sb: "user_by_supabase (db w) (u_supabase_user_id u) = Some u"
    using assms(3,4) find_unique_key [of "u_supabase_user_id" "users (db w)" u]
    by (simp add: user_by_supabase_def users_inv_def)
  let ?f = "\<lambda>v. if u_id v = u_id u \<and> u_deleted_at v = None then rename now (Some (trim name)) v else v"
  have w1: "user_by_supabase (db w1) (u_supabase_user_id u) = Some (?f u)"
    using update_display_name_lookup [OF q, of "u_supabase_user_id u"] sb by simp
  from assms(6,7,8) obtain email where
    up: "upsert_user_sql (u_supabase_user_id u) \<lparr>uc_row_id = row_id, uc_now = now', uc_email = email,
       uc_display_name = Some token_name, uc_avatar_url = claims_avatar_url c\<rparr> (db w2) = (Inr u2, db w3)"
    by (auto simp: upsert_user_from_claims_def bindM_Inr_iff of_result_def map_errM_Inr dest!: query_Inr)
  have u2: "u2 = merge_user (u_supabase_user_id u) \<lparr>uc_row_id = row_id, uc_now = now', uc_email = email,
       uc_display_name = Some token_name, uc_avatar_url = claims_avatar_url c\<rparr> (Some (?f u))"
    using up w1 assms(5) by (auto simp: upsert_user_sql_def)
  have "user_by_supabase (db w3) (u_supabase_user_id u) = Some u2"
    using upsert_user_same [of "u_supabase_user_id u" "\<lparr>uc_row_id = row_id, uc_now = now', uc_email = email,
       uc_display_name = Some token_name, uc_avatar_url = claims_avatar_url c\<rparr>" "db w2"] up w1 u2 assms(5)
    by (simp add: accepts_user_def)
  moreover have "u_id u2 = u_id u" "u_display_name u2 = Some token_name"
    by (auto simp: u2 merge_user_def rename_def or_else_def)
  ultimately show ?thesis by blast
qed

theorem patched_name_reverts_witness:
  "\<exists>resp u2 w1 w3.
     patch_me (\<lambda>_. None) 5 sample_user (Some '' Bob '') \<lparr>db = sample_database, faults = []\<rparr> = (Inr resp, w1) \<and>
     me_display_name resp = Some ''Bob'' \<and>
     upsert_user_from_claims sample_auth 9 6 \<lparr>cl_sub = ''sub'', cl_email = Some ''a@b.c'', cl_iss = [],
       cl_aud = [], cl_exp = 0, cl_user_metadata = JObj [(''name'', JStr ''Ann'')], cl_app_metadata = JNull,
       cl_role = None\<rparr> w1 = (Inr u2, w3) \<and> u_display_name u2 = Some ''Ann''"
proof -
  let ?w = "\<lparr>db = sample_database, faults = []\<rparr>"
  let ?c = "\<lparr>cl_sub = ''sub'', cl_email = Some ''a@b.c'', cl_iss = [],
       cl_aud = [], cl_exp = 0, cl_user_metadata = JObj [(''name'', JStr ''Ann'')], cl_app_metadata = JNull,
       cl_role = None\<rparr>"
  obtain resp w1 where p: "patch_me (\<lambda>_. None) 5 sample_user (Some '' Bob '') ?w = (Inr resp, w1)"
    and f: "faults w1 = []"
    by (simp add: patch_me_def validate_patch_def act_simps result_simps update_display_name_def
        update_display_name_sql_def user_by_id_def fetch_active_def sample_defs)
  have tr: "trim '' Bob '' = ''Bob''" by (simp add: str_simps)
  have inv: "users_inv (db ?w)" "sample_user \<in> set (users (db ?w))"
    by (simp_all add: users_inv_def unique_on_def map_filter_Cons sample_defs)
  have c: "parse_uuid sample_auth (cl_sub ?c) = Some (u_supabase_user_id sample_user)"
    "claims_display_name ?c = Some ''Ann''"
    by (simp_all add: sample_auth_def sample_user_def claims_display_name_def or_else_def)
  have "db w1 = sample_database\<lparr>users := [rename 5 (Some ''Bob'') sample_user]\<rparr>"
    using p tr by (auto simp: patch_me_def validate_patch_def act_simps result_simps update_display_name_def
        update_display_name_sql_def user_by_id_def fetch_active_def trimmed_def sample_defs)
  then have "\<exists>u2 w3. upsert_user_from_claims sample_auth 9 6 ?c w1 = (Inr u2, w3)"
    using f c by (simp add: upsert_user_from_claims_def email_required_def act_simps result_simps
        upsert_user_sql_def user_by_supabase_def rename_def sample_user_def)
  then obtain u2 w3 where up: "upsert_user_from_claims sample_auth 9 6 ?c w1 = (Inr u2, w3)" by blast
  from patched_name_reverts [OF p _ inv refl c up] tr p up show ?thesis by auto
qed

end
