(* ===== verification/Teams.thy ===== *)
theory Teams
  imports Users_Me
begin

text \<open>
  Teams: roles (\<^verbatim>\<open>src/teams/model.rs\<close>), queries (\<^verbatim>\<open>src/teams/repository.rs\<close>), the read endpoints
  (\<^verbatim>\<open>src/teams/handlers.rs\<close>) and invitations (\<^verbatim>\<open>src/teams/invites.rs\<close>), over the tables of
  migrations 0005 and 0006.  Parameters: the collation of the database (a key that orders
  strings), the time formatter, the e-mail check of the validator package, the generated token,
  the public URL and the mail service.
\<close>

subsection \<open>Roles\<close>

datatype team_role = Owner | Advisor | Viewer

fun role_as_str :: "team_role \<Rightarrow> string" where
  "role_as_str Owner = ''owner''"
| "role_as_str Advisor = ''advisor''"
| "role_as_str Viewer = ''viewer''"

definition role_from_str :: "string \<Rightarrow> team_role option" where
  "role_from_str s =
     (if s = ''owner'' then Some Owner
      else if s = ''advisor'' then Some Advisor
      else if s = ''viewer'' then Some Viewer
      else None)"

definition is_owner :: "team_role \<Rightarrow> bool" where
  "is_owner r \<longleftrightarrow> r = Owner"

definition can_write_portfolio :: "team_role \<Rightarrow> bool" where
  "can_write_portfolio r \<longleftrightarrow> r = Owner \<or> r = Advisor"

subsection \<open>Queries\<close>

definition team_by_id :: "database \<Rightarrow> uuid \<Rightarrow> team option" where
  "team_by_id d tid = find (\<lambda>t. t_id t = tid \<and> t_deleted_at t = None) (teams d)"

definition fetch_team_by_id :: "uuid \<Rightarrow> (app_error, team option) action" where
  "fetch_team_by_id tid = map_errM from_sqlx (select (\<lambda>d. team_by_id d tid))"

definition teams_of :: "(string \<Rightarrow> int) \<Rightarrow> database \<Rightarrow> uuid \<Rightarrow> team list" where
  "teams_of collate d uid =
     sort_key (\<lambda>t. collate (to_lowercase (t_name t)))
       (concat (map (\<lambda>t. map (\<lambda>_. t)
          (filter (\<lambda>m. m_team_id m = t_id t \<and> m_user_id m = uid) (team_members d)))
          (filter (\<lambda>t. t_deleted_at t = None) (teams d))))"

definition list_teams_for_user :: "(string \<Rightarrow> int) \<Rightarrow> uuid \<Rightarrow> (app_error, team list) action" where
  "list_teams_for_user collate uid = map_errM from_sqlx (select (\<lambda>d. teams_of collate d uid))"

definition membership :: "database \<Rightarrow> uuid \<times> uuid \<Rightarrow> team_member option" where
  "membership d k = find (\<lambda>m. (m_team_id m, m_user_id m) = k) (team_members d)"

definition role_of :: "database \<Rightarrow> uuid \<Rightarrow> uuid \<Rightarrow> team_role option" where
  "role_of d tid uid =
     map_option (\<lambda>m. unwrap_or Viewer (role_from_str (m_role m))) (membership d (tid, uid))"

definition role_for :: "uuid \<Rightarrow> uuid \<Rightarrow> (app_error, team_role option) action" where
  "role_for tid uid = map_errM from_sqlx (select (\<lambda>d. role_of d tid uid))"

definition members_of :: "database \<Rightarrow> uuid \<Rightarrow> team_member list" where
  "members_of d tid = sort_key m_joined_at (filter (\<lambda>m. m_team_id m = tid) (team_members d))"

definition list_team_members :: "uuid \<Rightarrow> (app_error, team_member list) action" where
  "list_team_members tid = map_errM from_sqlx (select (\<lambda>d. members_of d tid))"

subsection \<open>Read endpoints\<close>

record team_summary =
  ts_id :: uuid
  ts_name :: string
  ts_owner_user_id :: uuid
  ts_branding_logo_url :: "string option"
  ts_branding_color :: "string option"
  ts_my_role :: "string option"
  ts_created_at :: "string option"

definition summary_from_team :: "(instant \<Rightarrow> string option) \<Rightarrow> team \<Rightarrow> string option \<Rightarrow> team_summary" where
  "summary_from_team fmt t my_role =
     \<lparr>ts_id = t_id t, ts_name = t_name t, ts_owner_user_id = t_owner_user_id t,
      ts_branding_logo_url = t_branding_logo_url t, ts_branding_color = t_branding_color t,
      ts_my_role = my_role, ts_created_at = fmt (t_created_at t)\<rparr>"

fun mapM :: "('a \<Rightarrow> ('e, 'b) action) \<Rightarrow> 'a list \<Rightarrow> ('e, 'b list) action" where
  "mapM f [] = pure []"
| "mapM f (x # xs) = bindM (f x) (\<lambda>y. bindM (mapM f xs) (\<lambda>ys. pure (y # ys)))"

definition list_for_me ::
  "(string \<Rightarrow> int) \<Rightarrow> (instant \<Rightarrow> string option) \<Rightarrow> user \<Rightarrow> (app_error, team_summary list) action" where
  "list_for_me collate fmt u =
     bindM (list_teams_for_user collate (u_id u)) (\<lambda>ts.
       mapM (\<lambda>t. bindM (role_for (t_id t) (u_id u)) (\<lambda>r.
         pure (summary_from_team fmt t (map_option role_as_str r)))) ts)"

record team_member_dto =
  tm_user_id :: uuid
  tm_role :: string
  tm_joined_at :: "string option"
  tm_display_name :: "string option"

definition member_dto :: "(instant \<Rightarrow> string option) \<Rightarrow> team_member \<Rightarrow> (app_error, team_member_dto) action" where
  "member_dto fmt m =
     matchM (fetch_user_by_id (m_user_id m)) (\<lambda>res.
       pure \<lparr>tm_user_id = m_user_id m, tm_role = m_role m, tm_joined_at = fmt (m_joined_at m),
             tm_display_name = (case res of
                Inr (Some u) \<Rightarrow> or_else (u_display_name u) (Some (u_email u))
              | _ \<Rightarrow> None)\<rparr>)"

definition list_members ::
  "(instant \<Rightarrow> string option) \<Rightarrow> user \<Rightarrow> uuid \<Rightarrow> (app_error, uuid \<times> team_member_dto list) action" where
  "list_members fmt u tid =
     bindM (role_for tid (u_id u)) (\<lambda>my_role.
       if my_role = None then throw (forbidden ''You are not a member of this team.'')
       else bindM (list_team_members tid) (\<lambda>ms.
              bindM (mapM (member_dto fmt) ms) (\<lambda>out. pure (tid, out))))"

subsection \<open>Invitations\<close>

definition INVITE_TTL_DAYS :: int where
  "INVITE_TTL_DAYS = 7"

definition days :: "int \<Rightarrow> int" where
  "days n = n * 86400 * 1000000000"

record invite_env =
  ie_valid_email :: "string \<Rightarrow> bool"
  ie_format_time :: "instant \<Rightarrow> string option"
  ie_public_url :: "string option"
  ie_resend_api_key :: "string option"
  ie_resend_from :: "string option"
  ie_post_mail :: "string \<Rightarrow> json \<Rightarrow> nat option"

text \<open>The invitation mail: \<open>ie_post_mail\<close> is the exchange with the mail service, given the API key and
  the body, and answers with the status, if there is an answer.\<close>

definition invite_mail :: "string \<Rightarrow> string \<Rightarrow> string \<Rightarrow> json" where
  "invite_mail sender email redeem_url =
     JObj [(''from'', JStr sender),
           (''html'', JStr (''<p>You've been invited to join a Mizan team.</p>'' @
              ''<p><a href='' @ [CHR 0x22] @ redeem_url @ [CHR 0x22] @ ''>Open in Mizan</a></p>'' @
              ''<p>This invite expires in '' @ show_int INVITE_TTL_DAYS @ '' days.</p>'')),
           (''subject'', JStr ''You've been invited to a Mizan team''), (''to'', JStr email)]"

definition try_send_invite_email :: "invite_env \<Rightarrow> string \<Rightarrow> string \<Rightarrow> bool" where
  "try_send_invite_email x email redeem_url =
     (case ie_resend_api_key x of
        None \<Rightarrow> False
      | Some api_key \<Rightarrow>
          (case ie_post_mail x api_key
                  (invite_mail (unwrap_or ''noreply@mizan.app'' (ie_resend_from x)) email redeem_url) of
             Some status \<Rightarrow> is_success status
           | None \<Rightarrow> False))"

record create_invite_request =
  ci_email :: string
  ci_role :: string

record invite_response =
  ir_token :: string
  ir_team_id :: uuid
  ir_email :: string
  ir_role :: string
  ir_expires_at :: string
  ir_redeem_url :: string
  ir_emailed :: bool

definition invite_row ::
  "string \<Rightarrow> uuid \<Rightarrow> uuid \<Rightarrow> string \<Rightarrow> string \<Rightarrow> instant \<Rightarrow> instant \<Rightarrow> team_invite" where
  "invite_row token tid inviter email role now expires =
     \<lparr>i_token = token, i_team_id = tid, i_invited_by = inviter, i_email = email, i_role = role,
      i_redeemed_at = None, i_redeemed_by = None, i_created_at = now, i_expires_at = expires\<rparr>"

definition insert_invite_sql :: "team_invite \<Rightarrow> database \<Rightarrow> (sqlx_error + unit) \<times> database" where
  "insert_invite_sql i d =
     (if i_role i \<noteq> ''advisor'' \<and> i_role i \<noteq> ''viewer'' then (Inl (Database CheckViolation), d)
      else if \<exists>j\<in>set (team_invites d). i_token j = i_token i then (Inl (Database UniqueViolation), d)
      else if \<not> team_exists d (i_team_id i) \<or> \<not> user_exists d (i_invited_by i)
      then (Inl (Database ForeignKeyViolation), d)
      else (Inr (), d\<lparr>team_invites := team_invites d @ [i]\<rparr>))"

definition invite_guard :: "team_role option \<Rightarrow> string \<Rightarrow> app_error + unit" where
  "invite_guard my_role role =
     (case my_role of
        None \<Rightarrow> Inl (forbidden ''You are not a member of this team.'')
      | Some r \<Rightarrow>
          if \<not> is_owner r then Inl (forbidden ''Only the team owner can issue invites.'')
          else if role \<noteq> ''advisor'' \<and> role \<noteq> ''viewer''
          then Inl (bad_request ''role must be 'advisor' or 'viewer'.'')
          else Inr ())"

text \<open>The token of an invite: two random UUIDs without their hyphens.\<close>

definition generate_token :: "(uuid \<Rightarrow> string) \<Rightarrow> uuid \<Rightarrow> uuid \<Rightarrow> string" where
  "generate_token simple a b = simple a @ simple b"

lemma generate_token_inj:
  assumes "inj simple" "\<And>a. length (simple a) = 32" "generate_token simple a b = generate_token simple c d"
  shows "a = c \<and> b = d"
  using assms(3) assms(2) by (auto simp: generate_token_def injD [OF assms(1)])

text \<open>A request has two phases: what it checks, and what it then writes.  Between the two other
  requests may run.\<close>

definition check_inviter :: "invite_env \<Rightarrow> user \<Rightarrow> uuid \<Rightarrow> create_invite_request \<Rightarrow> (app_error, unit) action" where
  "check_inviter x u tid req =
     bindM (of_result (if ie_valid_email x (ci_email req) then Inr ()
                       else Inl (from_validation ''email: Validation error: email''))) (\<lambda>_.
     bindM (role_for tid (u_id u)) (\<lambda>my_role.
       of_result (invite_guard my_role (ci_role req))))"

definition store_invite ::
  "invite_env \<Rightarrow> string \<Rightarrow> instant \<Rightarrow> user \<Rightarrow> uuid \<Rightarrow> create_invite_request \<Rightarrow> (app_error, invite_response) action"
where
  "store_invite x token now u tid req =
     (let email = to_lowercase (trim (ci_email req));
          expires = now + days INVITE_TTL_DAYS;
          url = unwrap_or ''https://app.mizan.app'' (ie_public_url x) @ ''/auth/callback?invite='' @ token in
      bindM (map_errM from_sqlx (query (insert_invite_sql
               (invite_row token tid (u_id u) email (ci_role req) now expires)))) (\<lambda>_.
        pure \<lparr>ir_token = token, ir_team_id = tid, ir_email = email, ir_role = ci_role req,
              ir_expires_at = unwrap_or [] (ie_format_time x expires),
              ir_redeem_url = url, ir_emailed = try_send_invite_email x email url\<rparr>))"

definition create_invite ::
  "invite_env \<Rightarrow> string \<Rightarrow> instant \<Rightarrow> user \<Rightarrow> uuid \<Rightarrow> create_invite_request \<Rightarrow> (app_error, invite_response) action"
where
  "create_invite x token now u tid req =
     bindM (check_inviter x u tid req) (\<lambda>_. store_invite x token now u tid req)"

text \<open>The join of an open invitation with its team; team id, team name, role, e-mail, expiry.\<close>

definition open_invite :: "database \<Rightarrow> string \<Rightarrow> (uuid \<times> string \<times> string \<times> string \<times> instant) option" where
  "open_invite d token =
     (case find (\<lambda>i. i_token i = token \<and> i_redeemed_at i = None) (team_invites d) of
        None \<Rightarrow> None
      | Some i \<Rightarrow>
          (case find (\<lambda>t. t_id t = i_team_id i) (teams d) of
             None \<Rightarrow> None
           | Some t \<Rightarrow> Some (i_team_id i, t_name t, i_role i, i_email i, i_expires_at i)))"

record invite_info =
  ii_team_id :: uuid
  ii_team_name :: string
  ii_role :: string
  ii_email :: string
  ii_expires_at :: string

definition get_invite :: "invite_env \<Rightarrow> instant \<Rightarrow> string \<Rightarrow> (app_error, invite_info) action" where
  "get_invite x now token =
     bindM (map_errM from_sqlx (select (\<lambda>d. open_invite d token))) (\<lambda>row.
     bindM (of_result (ok_or (not_found ''Invite not found or already redeemed.'') row))
       (\<lambda>(tid, name, role, email, expires).
         if expires \<le> now then throw (not_found ''Invite expired.'')
         else pure \<lparr>ii_team_id = tid, ii_team_name = name, ii_role = role, ii_email = email,
                    ii_expires_at = unwrap_or [] (ie_format_time x expires)\<rparr>))"

record membership_write =
  mw_role :: string
  mw_now :: instant

definition merge_member :: "uuid \<times> uuid \<Rightarrow> membership_write \<Rightarrow> team_member option \<Rightarrow> team_member" where
  "merge_member k a old =
     (case old of
        None \<Rightarrow> \<lparr>m_team_id = fst k, m_user_id = snd k, m_role = mw_role a, m_joined_at = mw_now a\<rparr>
      | Some m \<Rightarrow> m\<lparr>m_role := mw_role a\<rparr>)"

definition upsert_member_sql ::
  "uuid \<times> uuid \<Rightarrow> membership_write \<Rightarrow> database \<Rightarrow> (sqlx_error + unit) \<times> database" where
  "upsert_member_sql k a d =
     (if mw_role a \<notin> {''owner'', ''advisor'', ''viewer''} then (Inl (Database CheckViolation), d)
      else if membership d k \<noteq> None then
        (Inr (), d\<lparr>team_members := map (\<lambda>m. if (m_team_id m, m_user_id m) = k
                      then merge_member k a (Some m) else m) (team_members d)\<rparr>)
      else if \<not> team_exists d (fst k) \<or> \<not> user_exists d (snd k)
      then (Inl (Database ForeignKeyViolation), d)
      else (Inr (), d\<lparr>team_members := team_members d @ [merge_member k a None]\<rparr>))"

text \<open>The update does not ask whether the invitation is still open.\<close>

definition redeem_sql :: "instant \<Rightarrow> uuid \<Rightarrow> string \<Rightarrow> database \<Rightarrow> (sqlx_error + unit) \<times> database" where
  "redeem_sql now uid token d =
     (if (\<exists>i\<in>set (team_invites d). i_token i = token) \<and> \<not> user_exists d uid
      then (Inl (Database ForeignKeyViolation), d)
      else (Inr (), d\<lparr>team_invites := map (\<lambda>i. if i_token i = token
        then i\<lparr>i_redeemed_at := Some now, i_redeemed_by := Some uid\<rparr> else i) (team_invites d)\<rparr>))"

definition check_invite ::
  "instant \<Rightarrow> user \<Rightarrow> (uuid \<times> string \<times> string \<times> string \<times> instant) option \<Rightarrow>
   app_error + uuid \<times> string \<times> string" where
  "check_invite now u row =
     (case row of
        None \<Rightarrow> Inl (not_found ''Invite not found or already redeemed.'')
      | Some (tid, name, role, email, expires) \<Rightarrow>
          if expires \<le> now then Inl (not_found ''Invite expired.'')
          else if to_lowercase (u_email u) \<noteq> email
          then Inl (forbidden ''This invite was issued to a different email address.'')
          else Inr (tid, name, role))"

definition join_and_redeem :: "instant \<Rightarrow> user \<Rightarrow> string \<Rightarrow> uuid \<Rightarrow> string \<Rightarrow> (app_error, unit) action" where
  "join_and_redeem now u token tid role =
     transaction from_sqlx (\<lambda>_.
       bindM (map_errM from_sqlx (query (upsert_member_sql (tid, u_id u)
                \<lparr>mw_role = role, mw_now = now\<rparr>))) (\<lambda>_.
         map_errM from_sqlx (query (redeem_sql now (u_id u) token))))"

text \<open>The invitation is read and checked outside of the transaction that redeems it.\<close>

definition read_invite :: "instant \<Rightarrow> user \<Rightarrow> string \<Rightarrow> (app_error, uuid \<times> string \<times> string) action" where
  "read_invite now u token =
     bindM (map_errM from_sqlx (select (\<lambda>d. open_invite d token))) (\<lambda>row. of_result (check_invite now u row))"

definition accept_invite ::
  "instant \<Rightarrow> user \<Rightarrow> string \<Rightarrow> (app_error, uuid \<times> string \<times> string) action" where
  "accept_invite now u token =
     bindM (read_invite now u token) (\<lambda>(tid, name, role).
     bindM (join_and_redeem now u token tid role) (\<lambda>_. pure (tid, name, role)))"

lemmas invite_phases = check_inviter_def store_invite_def create_invite_def role_for_def read_invite_def
  accept_invite_def join_and_redeem_def

subsection \<open>Lemmas\<close>

lemma role_round_trip [simp]: "role_from_str (role_as_str r) = Some r"
  by (cases r) (simp_all add: role_from_str_def)

definition teams_inv :: "database \<Rightarrow> bool" where
  "teams_inv d \<longleftrightarrow>
     unique_on (\<lambda>t. Some (t_id t)) (teams d) \<and>
     unique_on (\<lambda>m. Some (m_team_id m, m_user_id m)) (team_members d) \<and>
     unique_on (\<lambda>i. Some (i_token i)) (team_invites d) \<and>
     (\<forall>i\<in>set (team_invites d). i_role i \<in> {''advisor'', ''viewer''}) \<and>
     (\<forall>m\<in>set (team_members d). m_role m \<in> {''owner'', ''advisor'', ''viewer''})"

definition accepts_member :: "uuid \<times> uuid \<Rightarrow> membership_write \<Rightarrow> database \<Rightarrow> bool" where
  "accepts_member k a d \<longleftrightarrow>
     mw_role a \<in> {''owner'', ''advisor'', ''viewer''} \<and>
     (membership d k \<noteq> None \<or> team_exists d (fst k) \<and> user_exists d (snd k))"

lemma merge_member_key:
  "(m_team_id (merge_member k a (Some m)), m_user_id (merge_member k a (Some m))) = (m_team_id m, m_user_id m)"
  "(m_team_id (merge_member k a None), m_user_id (merge_member k a None)) = k"
  by (simp_all add: merge_member_def)

lemma membership_None:
  "membership d k = None \<longleftrightarrow> (\<forall>m\<in>set (team_members d). (m_team_id m, m_user_id m) \<noteq> k)"
  by (auto simp: membership_def find_None_iff)

lemma membership_Some:
  "membership d k = Some m \<Longrightarrow> m \<in> set (team_members d) \<and> (m_team_id m, m_user_id m) = k"
  by (auto simp: membership_def dest: find_Some_iff_set)

lemma upsert_member_rejected: "\<not> accepts_member k a d \<Longrightarrow> snd (upsert_member_sql k a d) = d"
  by (auto simp: accepts_member_def upsert_member_sql_def)

lemma find_map_member:
  "find (\<lambda>m. (m_team_id m, m_user_id m) = j)
     (map (\<lambda>m. if (m_team_id m, m_user_id m) = k then merge_member k a (Some m) else m) ms) =
   map_option (\<lambda>m. if (m_team_id m, m_user_id m) = k then merge_member k a (Some m) else m)
     (find (\<lambda>m. (m_team_id m, m_user_id m) = j) ms)"
  by (rule find_map_other) (simp add: merge_member_def)

lemma upsert_member_lookup:
  assumes "accepts_member k a d"
  shows "membership (snd (upsert_member_sql k a d)) j =
     (if j = k then Some (merge_member k a (membership d k)) else membership d j)"
proof (cases "membership d k")
  case None
  with assms have "snd (upsert_member_sql k a d) = d\<lparr>team_members := team_members d @ [merge_member k a None]\<rparr>"
    by (auto simp: accepts_member_def upsert_member_sql_def)
  with None show ?thesis
    by (auto simp: membership_def find_append merge_member_key split: option.splits)
next
  case (Some m)
  with assms have "snd (upsert_member_sql k a d) = d\<lparr>team_members := map (\<lambda>m. if (m_team_id m, m_user_id m) = k
        then merge_member k a (Some m) else m) (team_members d)\<rparr>"
    by (auto simp: accepts_member_def upsert_member_sql_def)
  then have "membership (snd (upsert_member_sql k a d)) j =
      map_option (\<lambda>m. if (m_team_id m, m_user_id m) = k then merge_member k a (Some m) else m) (membership d j)"
    unfolding membership_def by (simp add: find_map_member del: prod.inject)
  moreover have "(m_team_id m, m_user_id m) = k" using membership_Some [OF Some] by simp
  ultimately show ?thesis
    using Some by (cases "j = k"; cases "membership d j") (auto dest: membership_Some)
qed

interpretation member_table: keyed_table membership "\<lambda>k a d. snd (upsert_member_sql k a d)"
  accepts_member merge_member
proof
  show "membership (snd (upsert_member_sql k a d)) j = membership d j" if "j \<noteq> k" for j k a d
    using that upsert_member_lookup [of k a d j] upsert_member_rejected [of k a d]
    by (cases "accepts_member k a d") simp_all
qed (simp_all add: upsert_member_lookup upsert_member_rejected)

lemma upsert_member_keeps:
  assumes "teams_inv d"
  shows "teams_inv (snd (upsert_member_sql k a d))"
proof (cases "accepts_member k a d")
  case False
  with assms show ?thesis by (simp add: upsert_member_rejected)
next
  case True
  show ?thesis
  proof (cases "membership d k")
    case None
    then have "\<forall>m\<in>set (team_members d). (m_team_id m, m_user_id m) \<noteq> k" by (simp add: membership_None)
    with None True assms show ?thesis
      by (auto simp: accepts_member_def upsert_member_sql_def teams_inv_def unique_on_snoc merge_member_def)
  next
    case (Some m)
    with True assms show ?thesis
      by (auto simp: accepts_member_def upsert_member_sql_def teams_inv_def unique_on_map_same merge_member_def)
  qed
qed

lemma redeem_keeps: "teams_inv d \<Longrightarrow> teams_inv (snd (redeem_sql now uid token d))"
  by (auto simp: redeem_sql_def teams_inv_def unique_on_map_same)

lemma insert_invite_keeps: "teams_inv d \<Longrightarrow> teams_inv (snd (insert_invite_sql i d))"
  by (auto simp: insert_invite_sql_def teams_inv_def unique_on_snoc)

lemma keeps_create_invite [keeps_intros]: "keeps teams_inv (create_invite x token now u tid req)"
  unfolding invite_phases Let_def
  by (intro keeps_intros insert_invite_keeps)

lemma keeps_accept_invite [keeps_intros]: "keeps teams_inv (accept_invite now u token)"
  unfolding invite_phases
  by (intro keeps_intros upsert_member_keeps redeem_keeps)

lemma keeps_phases [keeps_intros]: "keeps P (read_invite now u token)" "keeps P (check_inviter x u tid req)"
  unfolding invite_phases by (intro keeps_intros)+

lemma phases_read_only:
  "read_invite now u token w = (r, w') \<Longrightarrow> db w' = db w"
  "check_inviter x u tid req w = (r', w') \<Longrightarrow> db w' = db w"
  using keeps_run [OF keeps_phases(1) [of "\<lambda>d. d = db w" now u token], of w]
    keeps_run [OF keeps_phases(2) [of "\<lambda>d. d = db w" x u tid req], of w] by simp_all

lemma join_and_redeem_Inl: "join_and_redeem now u token tid role w = (Inl e, w') \<Longrightarrow> db w' = db w"
  unfolding join_and_redeem_def by (rule transaction_atomic)

lemma accept_invite_Inl: "accept_invite now u token w = (Inl e, w') \<Longrightarrow> db w' = db w"
  unfolding accept_invite_def
  by (auto simp: bindM_Inl_iff pure_def dest!: phases_read_only(1) join_and_redeem_Inl)

lemma join_and_redeem_Inr:
  assumes "join_and_redeem now u token tid role w = (Inr (), w')"
  shows "\<exists>d1. upsert_member_sql (tid, u_id u) \<lparr>mw_role = role, mw_now = now\<rparr> (db w) = (Inr (), d1) \<and>
     redeem_sql now (u_id u) token d1 = (Inr (), db w')"
  using assms unfolding join_and_redeem_def
  by (fastforce simp: bindM_Inr_iff map_errM_Inr dest!: transaction_committed query_Inr)

lemma check_invite_Inr:
  "check_invite now u row = Inr (tid, name, role) \<Longrightarrow>
     \<exists>expires. row = Some (tid, name, role, to_lowercase (u_email u), expires) \<and> now < expires"
  by (auto simp: check_invite_def split: option.splits if_splits)

lemma read_invite_Inr:
  assumes "read_invite now u token w = (Inr (tid, name, role), w')"
  shows "\<exists>expires. open_invite (db w) token = Some (tid, name, role, to_lowercase (u_email u), expires) \<and>
     now < expires"
proof -
  from assms have "check_invite now u (open_invite (db w) token) = Inr (tid, name, role)"
    unfolding read_invite_def by (auto simp: bindM_Inr_iff map_errM_Inr of_result_def dest!: select_Inr)
  then show ?thesis by (rule check_invite_Inr)
qed

lemma accept_invite_Inr:
  assumes "accept_invite now u token w = (Inr (tid, name, role), w')"
  shows "\<exists>expires d1. open_invite (db w) token = Some (tid, name, role, to_lowercase (u_email u), expires) \<and>
     now < expires \<and>
     upsert_member_sql (tid, u_id u) \<lparr>mw_role = role, mw_now = now\<rparr> (db w) = (Inr (), d1) \<and>
     redeem_sql now (u_id u) token d1 = (Inr (), db w')"
proof -
  from assms obtain w1 where
    "read_invite now u token w = (Inr (tid, name, role), w1)"
    "join_and_redeem now u token tid role w1 = (Inr (), w')"
    unfolding accept_invite_def by (auto simp: bindM_Inr_iff pure_def)
  with phases_read_only(1) read_invite_Inr join_and_redeem_Inr show ?thesis by metis
qed

lemma upsert_member_ok: "upsert_member_sql k a d = (Inr (), d1) \<Longrightarrow> accepts_member k a d"
  by (auto simp: upsert_member_sql_def accepts_member_def split: if_splits)

lemma upsert_member_invites [simp]:
  "team_invites (snd (upsert_member_sql k a d)) = team_invites d"
  "teams (snd (upsert_member_sql k a d)) = teams d"
  by (simp_all add: upsert_member_sql_def)

lemma redeem_membership [simp]: "membership (snd (redeem_sql now uid token d)) k = membership d k"
  by (simp add: redeem_sql_def membership_def)

lemma redeem_sql_Inr:
  "redeem_sql now uid token d = (Inr (), d') \<Longrightarrow>
     d' = d\<lparr>team_invites := map (\<lambda>i. if i_token i = token
        then i\<lparr>i_redeemed_at := Some now, i_redeemed_by := Some uid\<rparr> else i) (team_invites d)\<rparr>"
  by (auto simp: redeem_sql_def split: if_splits)

lemma redeem_closes:
  assumes "redeem_sql now uid token d = (Inr (), d')"
  shows "open_invite d' token = None"
proof -
  have "find (\<lambda>i. i_token i = token \<and> i_redeemed_at i = None) (map (\<lambda>i. if i_token i = token
      then i\<lparr>i_redeemed_at := Some now, i_redeemed_by := Some uid\<rparr> else i) js) = None" for js :: "team_invite list"
    by (induction js) simp_all
  then show ?thesis by (simp add: open_invite_def redeem_sql_Inr [OF assms])
qed

lemma invite_guard_Inr:
  "invite_guard my_role role = Inr () \<Longrightarrow> my_role = Some Owner \<and> role \<in> {''advisor'', ''viewer''}"
  by (auto simp: invite_guard_def is_owner_def split: option.splits if_splits)

lemma insert_invite_Inr:
  "insert_invite_sql i d = (Inr (), d') \<Longrightarrow> d' = d\<lparr>team_invites := team_invites d @ [i]\<rparr>"
  by (auto simp: insert_invite_sql_def split: if_splits)

lemma check_inviter_Inr:
  "check_inviter x u tid req w = (Inr (), w') \<Longrightarrow>
     role_of (db w) tid (u_id u) = Some Owner \<and> ci_role req \<in> {''advisor'', ''viewer''}"
  unfolding check_inviter_def role_for_def
  by (auto simp: bindM_Inr_iff map_errM_Inr of_result_def dest!: select_Inr invite_guard_Inr)

lemma store_invite_Inr:
  "store_invite x token now u tid req w = (Inr resp, w') \<Longrightarrow>
     insert_invite_sql (invite_row token tid (u_id u) (to_lowercase (trim (ci_email req))) (ci_role req) now
        (now + days INVITE_TTL_DAYS)) (db w) = (Inr (), db w')"
  unfolding store_invite_def Let_def
  by (auto simp: bindM_Inr_iff map_errM_Inr pure_def dest!: query_Inr)

lemma create_invite_Inr:
  assumes "create_invite x token now u tid req w = (Inr resp, w')"
  shows "\<exists>email. email = to_lowercase (trim (ci_email req)) \<and>
     role_of (db w) tid (u_id u) = Some Owner \<and> ci_role req \<in> {''advisor'', ''viewer''} \<and>
     insert_invite_sql (invite_row token tid (u_id u) email (ci_role req) now (now + days INVITE_TTL_DAYS)) (db w)
       = (Inr (), db w')"
proof -
  from assms obtain w1 where "check_inviter x u tid req w = (Inr (), w1)"
    "store_invite x token now u tid req w1 = (Inr resp, w')"
    unfolding create_invite_def by (auto simp: bindM_Inr_iff)
  with phases_read_only(2) check_inviter_Inr store_invite_Inr show ?thesis by metis
qed

lemma insert_invite_error: "query (insert_invite_sql i) w = (Inl e, w') \<Longrightarrow> db w' = db w"
  by (cases rule: query_cases [of "insert_invite_sql i" w])
     (auto simp: insert_invite_sql_def split: if_splits)

lemma store_invite_Inl: "store_invite x token now u tid req w = (Inl e, w') \<Longrightarrow> db w' = db w"
  unfolding store_invite_def Let_def
  by (auto simp: bindM_Inl_iff map_errM_Inl pure_def dest!: insert_invite_error)

lemma create_invite_Inl: "create_invite x token now u tid req w = (Inl e, w') \<Longrightarrow> db w' = db w"
  unfolding create_invite_def
  by (auto simp: bindM_Inl_iff dest!: phases_read_only(2) store_invite_Inl)

lemma open_invite_Some:
  "open_invite d token = Some (tid, name, role, email, expires) \<Longrightarrow>
     \<exists>i\<in>set (team_invites d). i_token i = token \<and> i_redeemed_at i = None \<and> i_team_id i = tid \<and>
       i_role i = role \<and> i_email i = email \<and> i_expires_at i = expires"
  by (auto simp: open_invite_def split: option.splits dest!: find_Some_iff_set)

subsection \<open>Properties\<close>

text \<open>C26: redeeming an invitation is all or nothing and does exactly one thing.  If the request
  fails, for whatever reason, nothing has changed; if it succeeds, the invitation was open, not
  expired and addressed to the caller, the caller now has its role in its team, no other
  membership has changed, and the invitation is no longer open.\<close>

theorem accept_invite_exact:
  assumes "accept_invite now u token w = (r, w')"
  shows "case r of
       Inl e \<Rightarrow> db w' = db w
     | Inr (tid, name, role) \<Rightarrow>
         (\<exists>expires. open_invite (db w) token = Some (tid, name, role, to_lowercase (u_email u), expires) \<and> now < expires) \<and>
         (\<exists>m. membership (db w') (tid, u_id u) = Some m \<and> m_role m = role) \<and>
         (\<forall>k. k \<noteq> (tid, u_id u) \<longrightarrow> membership (db w') k = membership (db w) k) \<and>
         open_invite (db w') token = None"
proof (cases r)
  case (Inl e)
  with assms accept_invite_Inl show ?thesis by auto
next
  case (Inr res)
  obtain tid name role where res: "res = (tid, name, role)" by (cases res)
  from accept_invite_Inr [of now u token w tid name role w'] assms Inr res obtain expires d1 where
    a: "open_invite (db w) token = Some (tid, name, role, to_lowercase (u_email u), expires)" "now < expires"
      "upsert_member_sql (tid, u_id u) \<lparr>mw_role = role, mw_now = now\<rparr> (db w) = (Inr (), d1)"
      "redeem_sql now (u_id u) token d1 = (Inr (), db w')" by auto
  have m: "membership (db w') k = (if k = (tid, u_id u)
      then Some (merge_member (tid, u_id u) \<lparr>mw_role = role, mw_now = now\<rparr> (membership (db w) (tid, u_id u)))
      else membership (db w) k)" for k
    using upsert_member_lookup [OF upsert_member_ok [OF a(3)], of k] a(3,4)
      redeem_membership [of now "u_id u" token d1 k] by simp
  have "open_invite (db w') token = None" by (rule redeem_closes [OF a(4)])
  with a m Inr res show ?thesis by (auto simp: merge_member_def split: option.splits)
qed

definition sample_team :: team where
  "sample_team = \<lparr>t_id = 5, t_name = ''T'', t_owner_user_id = 1, t_branding_logo_url = None,
     t_branding_color = None, t_created_at = 0, t_updated_at = 0, t_deleted_at = None\<rparr>"

definition team_world :: world where
  "team_world = \<lparr>db = sample_database\<lparr>teams := [sample_team],
     team_members := [\<lparr>m_team_id = 5, m_user_id = 1, m_role = ''owner'', m_joined_at = 0\<rparr>],
     team_invites := [invite_row ''tok'' 5 1 ''a@b.c'' ''advisor'' 0 100]\<rparr>, faults = []\<rparr>"

lemma team_world_inv: "teams_inv (db team_world)"
  by (simp add: teams_inv_def team_world_def unique_on_def map_filter_Cons invite_row_def)

lemma lower_email: "to_lowercase ''a@b.c'' = ''a@b.c''"
  by (simp add: str_simps)

lemma team_world_accept:
  "accept_invite 50 sample_user ''tok'' team_world =
     (Inr (5, ''T'', ''advisor''), team_world\<lparr>db := (db team_world)\<lparr>
        team_members := [\<lparr>m_team_id = 5, m_user_id = 1, m_role = ''advisor'', m_joined_at = 0\<rparr>],
        team_invites := [(invite_row ''tok'' 5 1 ''a@b.c'' ''advisor'' 0 100)
           \<lparr>i_redeemed_at := Some 50, i_redeemed_by := Some 1\<rparr>]\<rparr>\<rparr>)"
  using lower_email
  by (simp add: invite_phases check_invite_def open_invite_def act_simps transaction_no_faults upsert_member_sql_def
      redeem_sql_def membership_def merge_member_def invite_row_def user_exists_def team_world_def sample_team_def
      sample_database_def sample_user_def result_simps)

theorem accept_invite_exact_witness:
  "open_invite (db (snd (accept_invite 50 sample_user ''tok'' team_world))) ''tok'' = None"
  using accept_invite_exact [OF team_world_accept] team_world_accept by simp

text \<open>C27: only an owner invites, and only to lesser roles.  An invitation comes into being only on
  the request of a user whose membership row says owner, for the role advisor or viewer, in lower
  case and with a validity of seven days; every other request leaves the database as it was.\<close>

theorem create_invite_owner_only:
  assumes "create_invite x token now u tid req w = (r, w')"
  shows "case r of
       Inl e \<Rightarrow> db w' = db w
     | Inr resp \<Rightarrow>
         role_of (db w) tid (u_id u) = Some Owner \<and> ci_role req \<in> {''advisor'', ''viewer''} \<and>
         db w' = (db w)\<lparr>team_invites := team_invites (db w) @
           [invite_row token tid (u_id u) (to_lowercase (trim (ci_email req))) (ci_role req) now
              (now + 7 * 86400 * 1000000000)]\<rparr>"
proof (cases r)
  case (Inl e)
  with assms create_invite_Inl show ?thesis by auto
next
  case (Inr resp)
  with assms create_invite_Inr [of x token now u tid req w resp w'] show ?thesis
    by (auto dest!: insert_invite_Inr simp: days_def INVITE_TTL_DAYS_def)
qed

definition sample_invite_env :: invite_env where
  "sample_invite_env = \<lparr>ie_valid_email = \<lambda>s. CHR ''@'' \<in> set s, ie_format_time = \<lambda>_. None,
     ie_public_url = None, ie_resend_api_key = None, ie_resend_from = None,
     ie_post_mail = \<lambda>_ _. None\<rparr>"

theorem create_invite_owner_only_witness:
  "fst (create_invite sample_invite_env ''t2'' 9 (sample_user\<lparr>u_id := 2\<rparr>) 5
      \<lparr>ci_email = ''x@y.z'', ci_role = ''viewer''\<rparr> team_world) =
     Inl (forbidden ''You are not a member of this team.'') \<and>
   db (snd (create_invite sample_invite_env ''t2'' 9 (sample_user\<lparr>u_id := 2\<rparr>) 5
      \<lparr>ci_email = ''x@y.z'', ci_role = ''viewer''\<rparr> team_world)) = db team_world"
proof -
  let ?r = "create_invite sample_invite_env ''t2'' 9 (sample_user\<lparr>u_id := 2\<rparr>) 5
      \<lparr>ci_email = ''x@y.z'', ci_role = ''viewer''\<rparr> team_world"
  have "fst ?r = Inl (forbidden ''You are not a member of this team.'')"
    by (simp add: invite_phases Let_def role_of_def membership_def invite_guard_def act_simps
        result_simps sample_invite_env_def team_world_def sample_user_def)
  moreover have "?r = (fst ?r, snd ?r)" by simp
  ultimately show ?thesis using create_invite_owner_only [of sample_invite_env _ _ _ _ _ team_world] by fastforce
qed

end
