(* ===== verification/Monthly_Reports.thy ===== *)
theory Monthly_Reports
  imports Billing_Repository Machines
begin

text \<open>
  Monthly reports (\<^verbatim>\<open>src/billing/reports.rs\<close>) and their scheduler (\<^verbatim>\<open>src/billing/reports_cron.rs\<close>):
  the period of a report, the queue table of migration 0004, the worker that drains it, and the
  HTTP handlers.  The em dash, which is outside of the modelled character range, is written as
  two hyphens in the two texts that contain it.  Printing a UUID is a parameter.
\<close>

subsection \<open>Calendar\<close>

definition is_leap_year :: "int \<Rightarrow> bool" where
  "is_leap_year y \<longleftrightarrow> y mod 4 = 0 \<and> (y mod 100 \<noteq> 0 \<or> y mod 400 = 0)"

definition days_in_month :: "int \<Rightarrow> nat \<Rightarrow> nat" where
  "days_in_month y m =
     (if m = 2 then if is_leap_year y then 29 else 28
      else if m \<in> {4, 6, 9, 11} then 30 else 31)"

definition valid_date :: "calendar_date \<Rightarrow> bool" where
  "valid_date d \<longleftrightarrow>
     - 9999 \<le> d_year d \<and> d_year d \<le> 9999 \<and> 1 \<le> d_month d \<and> d_month d \<le> 12 \<and>
     1 \<le> d_day d \<and> d_day d \<le> days_in_month (d_year d) (d_month d)"

text \<open>\<open>Date::from_calendar_date\<close>, and the subtraction of one day; \<open>None\<close> is the error of the
  first and the panic of the second.\<close>

definition from_calendar_date :: "int \<Rightarrow> nat \<Rightarrow> nat \<Rightarrow> calendar_date option" where
  "from_calendar_date y m d = (if valid_date (Date y m d) then Some (Date y m d) else None)"

definition previous_day :: "calendar_date \<Rightarrow> calendar_date option" where
  "previous_day d =
     (if 1 < d_day d then Some (Date (d_year d) (d_month d) (d_day d - 1))
      else if 1 < d_month d
      then from_calendar_date (d_year d) (d_month d - 1) (days_in_month (d_year d) (d_month d - 1))
      else from_calendar_date (d_year d - 1) 12 31)"

definition month_previous :: "nat \<Rightarrow> nat" where
  "month_previous m = (if m = 1 then 12 else m - 1)"

text \<open>\<open>None\<close> is a panic.\<close>

definition previous_month_window :: "calendar_date \<Rightarrow> (calendar_date \<times> calendar_date) option" where
  "previous_month_window today =
     (let (year, month) =
        (if d_month today = 1 then (d_year today - 1, month_previous (d_month today))
         else (d_year today, month_previous (d_month today))) in
      case from_calendar_date year month 1 of
        None \<Rightarrow> None
      | Some start \<Rightarrow>
          (case (if d_month start = 12 then from_calendar_date (d_year start + 1) 1 1
                 else from_calendar_date (d_year start) (d_month start + 1) 1) of
             None \<Rightarrow> None
           | Some next_month_first \<Rightarrow>
               (case previous_day next_month_first of
                  None \<Rightarrow> None
                | Some end_day \<Rightarrow> Some (start, end_day))))"

subsection \<open>The queue\<close>

definition report_at :: "database \<Rightarrow> uuid \<Rightarrow> calendar_date \<Rightarrow> monthly_report option" where
  "report_at d uid start =
     find (\<lambda>r. r_user_id r = uid \<and> r_period_start r = start) (monthly_reports d)"

definition pending_row :: "uuid \<Rightarrow> instant \<Rightarrow> uuid \<Rightarrow> calendar_date \<Rightarrow> calendar_date \<Rightarrow> monthly_report" where
  "pending_row row_id now uid start end_day =
     \<lparr>r_id = row_id, r_user_id = uid, r_period_start = start, r_period_end = end_day,
      r_summary_md = None, r_model = None, r_credits_charged = 0, r_status = Pending,
      r_error = None, r_requested_at = now, r_generated_at = None\<rparr>"

definition enqueue_sql ::
  "uuid \<Rightarrow> instant \<Rightarrow> uuid \<Rightarrow> calendar_date \<Rightarrow> calendar_date \<Rightarrow> database \<Rightarrow>
   (sqlx_error + bool) \<times> database" where
  "enqueue_sql row_id now uid start end_day d =
     (if report_at d uid start \<noteq> None then (Inr False, d)
      else if \<exists>r\<in>set (monthly_reports d). r_id r = row_id then (Inl (Database UniqueViolation), d)
      else if \<not> user_exists d uid then (Inl (Database ForeignKeyViolation), d)
      else (Inr True, d\<lparr>monthly_reports := monthly_reports d @
              [pending_row row_id now uid start end_day]\<rparr>))"

definition enqueue_pending ::
  "uuid \<Rightarrow> instant \<Rightarrow> uuid \<Rightarrow> calendar_date \<Rightarrow> calendar_date \<Rightarrow> (sqlx_error, bool) action" where
  "enqueue_pending row_id now uid start end_day = query (enqueue_sql row_id now uid start end_day)"

definition is_pending :: "monthly_report \<Rightarrow> bool" where
  "is_pending r \<longleftrightarrow> r_status r = Pending"

definition oldest_pending :: "nat \<Rightarrow> database \<Rightarrow> monthly_report list" where
  "oldest_pending limit d =
     take limit (sort_key r_requested_at (filter is_pending (monthly_reports d)))"

definition fetch_pending :: "nat \<Rightarrow> (sqlx_error, monthly_report list) action" where
  "fetch_pending limit = select (oldest_pending limit)"

definition clamp :: "int \<Rightarrow> int \<Rightarrow> int \<Rightarrow> int" where
  "clamp lo hi x = (if x < lo then lo else if hi < x then hi else x)"

definition newest_reports :: "uuid \<Rightarrow> int \<Rightarrow> database \<Rightarrow> monthly_report list" where
  "newest_reports uid limit d =
     take (nat (clamp 1 24 limit))
       (rev (sort_key r_period_start (filter (\<lambda>r. r_user_id r = uid) (monthly_reports d))))"

definition list_for_user :: "uuid \<Rightarrow> int \<Rightarrow> (sqlx_error, monthly_report list) action" where
  "list_for_user uid limit = select (newest_reports uid limit)"

definition update_report ::
  "uuid \<Rightarrow> (monthly_report \<Rightarrow> monthly_report) \<Rightarrow> database \<Rightarrow> (sqlx_error + unit) \<times> database" where
  "update_report rid upd d =
     (Inr (), d\<lparr>monthly_reports :=
        map (\<lambda>r. if r_id r = rid then upd r else r) (monthly_reports d)\<rparr>)"

definition succeeded_row :: "instant \<Rightarrow> string \<Rightarrow> string \<Rightarrow> int \<Rightarrow> monthly_report \<Rightarrow> monthly_report" where
  "succeeded_row now summary_md model credits r =
     r\<lparr>r_status := Succeeded, r_summary_md := Some summary_md, r_model := Some model,
       r_credits_charged := credits, r_generated_at := Some now, r_error := None\<rparr>"

definition failed_row :: "instant \<Rightarrow> string \<Rightarrow> monthly_report \<Rightarrow> monthly_report" where
  "failed_row now reason r =
     r\<lparr>r_status := Failed, r_error := Some reason, r_generated_at := Some now\<rparr>"

definition mark_succeeded ::
  "instant \<Rightarrow> uuid \<Rightarrow> string \<Rightarrow> string \<Rightarrow> int \<Rightarrow> (sqlx_error, unit) action" where
  "mark_succeeded now rid summary_md model credits =
     query (update_report rid (succeeded_row now summary_md model credits))"

definition mark_failed :: "instant \<Rightarrow> uuid \<Rightarrow> string \<Rightarrow> (sqlx_error, unit) action" where
  "mark_failed now rid reason = query (update_report rid (failed_row now reason))"

subsection \<open>Texts\<close>

fun month_name :: "nat \<Rightarrow> string" where
  "month_name m =
     (if m = 1 then ''January'' else if m = 2 then ''February'' else if m = 3 then ''March''
      else if m = 4 then ''April'' else if m = 5 then ''May'' else if m = 6 then ''June''
      else if m = 7 then ''July'' else if m = 8 then ''August'' else if m = 9 then ''September''
      else if m = 10 then ''October'' else if m = 11 then ''November''
      else if m = 12 then ''December'' else ''Unknown'')"

definition newline :: string where
  "newline = [CHR 0x0A]"

definition placeholder_summary :: "(uuid \<Rightarrow> string) \<Rightarrow> string \<Rightarrow> uuid \<Rightarrow> string" where
  "placeholder_summary show_uuid month_label uid =
     ''## Your '' @ month_label @ '' wealth summary'' @ newline @ newline @
     ''_Coming soon._ The Mizan Connect cloud is wiring up the live AI-driven monthly report generator -- once that lands, this card will show your net-worth delta, top movers, income received, goal progress, and liability trend for the month, generated from your own data.''
     @ newline @ newline @
     ''For now this is a placeholder so the report inbox and the rendering path can be exercised end-to-end.''
     @ newline @ newline @
     ''(Internal: user `'' @ show_uuid uid @ ''`.)'' @ newline @ newline @
     ''*This summary is generated from your own data -- not investment advice.*''"

definition build_prompt :: "string \<Rightarrow> string \<Rightarrow> json list" where
  "build_prompt month_label dataset_json =
     [JObj [(''role'', JStr ''system''),
            (''content'', JStr (
       ''You are Mizan AI. You are writing a one-page monthly wealth summary for '' @ month_label @
       ''. Output clean Markdown only -- no preamble, no code fences. Sections (use `##` headings): 1) Net worth this month (delta vs last month, headline number), 2) Top movers (3-5 holdings/positions that changed the most, in either direction), 3) Income received (dividends + interest + rent -- aggregate), 4) Goals progress (one line per active goal), 5) Liabilities trend (one short paragraph), 6) What changed about your data this month (optional -- note new connections, sync gaps). Rules: describe what happened, do NOT predict, do NOT recommend buying or selling, do NOT editorialize beyond what's in the data. If a section has no data, write `_No data this period._` and move on. End with the one-line footer: `*This summary is generated from your own data -- not investment advice.*`''))],
      JObj [(''role'', JStr ''user''),
            (''content'', JStr (
       ''Here is the user's data for '' @ month_label @
       '' as JSON. Render the markdown report per the system instructions.'' @ newline @ newline @
       ''```json'' @ newline @ dataset_json @ newline @ ''```''))]]"

subsection \<open>Scheduler and worker\<close>

definition WORKER_PARALLELISM :: nat where
  "WORKER_PARALLELISM = 5"

definition report_label :: "monthly_report \<Rightarrow> string" where
  "report_label r = month_name (d_month (r_period_start r)) @ '' '' @ show_int (d_year (r_period_start r))"

definition generate_one ::
  "(uuid \<Rightarrow> string) \<Rightarrow> instant \<Rightarrow> monthly_report \<Rightarrow> (sqlx_error, unit) action" where
  "generate_one show_uuid now r =
     matchM (mark_succeeded now (r_id r) (placeholder_summary show_uuid (report_label r) (r_user_id r))
               ''placeholder-stub'' 0)
       (\<lambda>res. case res of
          Inr _ \<Rightarrow> pure ()
        | Inl e \<Rightarrow> discard (mark_failed now (r_id r) (show_sqlx_error e)))"

fun each :: "('a \<Rightarrow> ('e, 'b) action) \<Rightarrow> 'a list \<Rightarrow> ('e, unit) action" where
  "each f [] = pure ()"
| "each f (x # xs) = matchM (f x) (\<lambda>_. each f xs)"

text \<open>The iterator of tasks is lazy: a task is spawned when the loop that awaits it asks for it, so
  the rows are processed one after the other.\<close>

definition run_worker_tick :: "(uuid \<Rightarrow> string) \<Rightarrow> instant \<Rightarrow> (sqlx_error, unit) action" where
  "run_worker_tick show_uuid now =
     bindM (fetch_pending WORKER_PARALLELISM) (\<lambda>pending.
       if pending = [] then pure () else each (generate_one show_uuid now) pending)"

definition enqueue_candidates :: "database \<Rightarrow> uuid list" where
  "enqueue_candidates d =
     map s_user_id (filter (\<lambda>s. s_status s \<in> {Active, Trialing}) (subscriptions d))"

text \<open>\<open>row_ids\<close> supplies the generated ids; \<open>None\<close> as a period is the panic of the window.\<close>

definition run_enqueue :: "(uuid \<Rightarrow> uuid) \<Rightarrow> instant \<Rightarrow> calendar_date \<Rightarrow> (sqlx_error, unit) action" where
  "run_enqueue row_ids now today =
     (case previous_month_window today of
        None \<Rightarrow> pure ()
      | Some (start, end_day) \<Rightarrow>
          bindM (select enqueue_candidates) (\<lambda>uids.
            each (\<lambda>uid. enqueue_pending (row_ids uid) now uid start end_day) uids))"

subsection \<open>Handlers\<close>

definition list_monthly_reports :: "user \<Rightarrow> int option \<Rightarrow> (app_error, monthly_report list) action" where
  "list_monthly_reports u limit =
     map_errM from_sqlx (list_for_user (u_id u) (case limit of None \<Rightarrow> 12 | Some n \<Rightarrow> n))"

definition fetch_one_by_period :: "uuid \<Rightarrow> calendar_date \<Rightarrow> (sqlx_error, monthly_report option) action" where
  "fetch_one_by_period uid start = select (\<lambda>d. report_at d uid start)"

definition request_monthly_report ::
  "uuid \<Rightarrow> instant \<Rightarrow> calendar_date \<Rightarrow> user \<Rightarrow> (app_error, nat \<times> monthly_report) action" where
  "request_monthly_report row_id now today u =
     (case previous_month_window today of
        None \<Rightarrow> throw (internal ''panic'')
      | Some (start, end_day) \<Rightarrow>
          bindM (map_errM from_sqlx (enqueue_pending row_id now (u_id u) start end_day)) (\<lambda>inserted.
          bindM (map_errM from_sqlx (fetch_one_by_period (u_id u) start)) (\<lambda>found.
          bindM (of_result (ok_or (internal ''report row vanished after enqueue'') found)) (\<lambda>row.
            pure (if inserted then 202 else 200, row)))))"

subsection \<open>The invariant of the queue\<close>

definition report_ok :: "monthly_report \<Rightarrow> bool" where
  "report_ok r \<longleftrightarrow>
     (case r_status r of
        Pending \<Rightarrow> r_summary_md r = None \<and> r_generated_at r = None
      | Succeeded \<Rightarrow> r_summary_md r \<noteq> None \<and> r_error r = None \<and> r_generated_at r \<noteq> None
      | Failed \<Rightarrow> r_error r \<noteq> None \<and> r_generated_at r \<noteq> None) \<and>
     r_credits_charged r = 0"

definition reports_inv :: "database \<Rightarrow> bool" where
  "reports_inv d \<longleftrightarrow>
     unique_on (\<lambda>r. Some (r_user_id r, r_period_start r)) (monthly_reports d) \<and>
     unique_on (\<lambda>r. Some (r_id r)) (monthly_reports d) \<and>
     list_all report_ok (monthly_reports d)"

lemma report_at_None: "report_at d uid start = None \<longleftrightarrow>
    (\<forall>r\<in>set (monthly_reports d). (r_user_id r, r_period_start r) \<noteq> (uid, start))"
  by (auto simp: report_at_def find_None_iff)

lemma report_at_Some:
  "report_at d uid start = Some r \<Longrightarrow> r \<in> set (monthly_reports d) \<and> r_user_id r = uid \<and> r_period_start r = start"
  by (auto simp: report_at_def dest: find_Some_iff_set)

lemma keeps_enqueue_pending [keeps_intros]:
  "keeps reports_inv (enqueue_pending row_id now uid start end_day)"
  unfolding enqueue_pending_def
  by (rule keeps_query)
     (auto simp: enqueue_sql_def reports_inv_def unique_on_snoc report_at_None pending_row_def report_ok_def)

lemma update_report_keeps:
  assumes "reports_inv d"
    and "\<And>r. report_ok r \<Longrightarrow> report_ok (upd r)"
    and "\<And>r. r_id (upd r) = r_id r \<and> r_user_id (upd r) = r_user_id r \<and> r_period_start (upd r) = r_period_start r"
  shows "reports_inv (snd (update_report rid upd d))"
  using assms by (auto simp: update_report_def reports_inv_def unique_on_map_same list_all_iff)

lemma keeps_mark_succeeded [keeps_intros]: "keeps reports_inv (mark_succeeded now rid summary model 0)"
  unfolding mark_succeeded_def
  by (rule keeps_query, rule update_report_keeps) (auto simp: succeeded_row_def report_ok_def)

lemma keeps_mark_failed [keeps_intros]: "keeps reports_inv (mark_failed now rid reason)"
  unfolding mark_failed_def
  by (rule keeps_query, rule update_report_keeps) (auto simp: failed_row_def report_ok_def split: report_status.splits)

lemma keeps_each [keeps_intros]: "(\<And>x. x \<in> set xs \<Longrightarrow> keeps P (f x)) \<Longrightarrow> keeps P (each f xs)"
  by (induction xs) (auto intro!: keeps_pure keeps_matchM)

lemma keeps_generate_one [keeps_intros]: "keeps reports_inv (generate_one show_uuid now r)"
  unfolding generate_one_def by (intro keeps_intros)

lemma keeps_run_worker_tick [keeps_intros]: "keeps reports_inv (run_worker_tick show_uuid now)"
  unfolding run_worker_tick_def fetch_pending_def by (intro keeps_intros)

lemma keeps_run_enqueue [keeps_intros]: "keeps reports_inv (run_enqueue row_ids now today)"
  unfolding run_enqueue_def by (intro keeps_intros)

lemma keeps_request_monthly_report [keeps_intros]:
  "keeps reports_inv (request_monthly_report row_id now today u)"
  unfolding request_monthly_report_def fetch_one_by_period_def by (intro keeps_intros)

subsection \<open>Finished reports\<close>

lemma keeps_row_update:
  "r_id r \<noteq> rid \<Longrightarrow> keeps (\<lambda>d. r \<in> set (monthly_reports d)) (query (update_report rid upd))"
  by (rule keeps_query) (force simp: update_report_def)

lemma keeps_row_generate:
  "r_id r \<noteq> r_id x \<Longrightarrow> keeps (\<lambda>d. r \<in> set (monthly_reports d)) (generate_one show_uuid now x)"
  unfolding generate_one_def mark_succeeded_def mark_failed_def
  by (intro keeps_intros keeps_row_update)

lemma keeps_row_enqueue:
  "keeps (\<lambda>d. r \<in> set (monthly_reports d)) (enqueue_pending row_id now uid start end_day)"
  unfolding enqueue_pending_def by (rule keeps_query) (auto simp: enqueue_sql_def)

lemma oldest_pending_set: "x \<in> set (oldest_pending n d) \<Longrightarrow> x \<in> set (monthly_reports d) \<and> is_pending x"
  by (auto simp: oldest_pending_def dest: in_set_takeD)

lemma tick_keeps_finished:
  assumes "reports_inv (db w)" "r \<in> set (monthly_reports (db w))" "\<not> is_pending r"
  shows "r \<in> set (monthly_reports (db (snd (run_worker_tick show_uuid now w))))"
proof (cases "fetch_pending WORKER_PARALLELISM w")
  case (Pair res w1)
  have d1: "db w1 = db w"
    using Pair unfolding fetch_pending_def by (rule reads_onlyD [OF reads_only_select])
  show ?thesis
  proof (cases res)
    case (Inl e)
    with Pair d1 assms show ?thesis by (simp add: run_worker_tick_def bindM_def)
  next
    case (Inr ps)
    with Pair have ps: "ps = oldest_pending WORKER_PARALLELISM (db w)"
      unfolding fetch_pending_def by (auto dest: select_Inr)
    have "r_id r \<noteq> r_id x" if "x \<in> set ps" for x
      using oldest_pending_set [of x] that ps assms
        unique_onD [of "\<lambda>r. Some (r_id r)" "monthly_reports (db w)" r x "r_id r"]
      by (auto simp: reports_inv_def)
    then have "keeps (\<lambda>d. r \<in> set (monthly_reports d)) (each (generate_one show_uuid now) ps)"
      by (intro keeps_each keeps_row_generate)
    then have "r \<in> set (monthly_reports (db (snd (each (generate_one show_uuid now) ps w1))))"
      using assms(2) d1 by (simp add: keeps_def)
    with Pair Inr d1 assms(2) show ?thesis by (simp add: run_worker_tick_def bindM_def pure_def)
  qed
qed

text \<open>The steps that write the queue: an insert, by the scheduler or on request, and a tick.\<close>

inductive report_step :: "world \<Rightarrow> world \<Rightarrow> bool" where
  step_enqueue: "report_step w (snd (enqueue_pending row_id now uid start end_day w))"
| step_tick: "report_step w (snd (run_worker_tick show_uuid now w))"
| step_faults: "report_step w (w\<lparr>faults := fs\<rparr>)"

definition report_init :: "world \<Rightarrow> bool" where
  "report_init w \<longleftrightarrow> monthly_reports (db w) = []"

definition finished_kept :: "world \<Rightarrow> world \<Rightarrow> bool" where
  "finished_kept w w' \<longleftrightarrow>
     (\<forall>r\<in>set (monthly_reports (db w)). \<not> is_pending r \<longrightarrow> r \<in> set (monthly_reports (db w')))"

interpretation report_queue: progress_system report_init report_step "\<lambda>w. reports_inv (db w)" finished_kept
proof
  show "reports_inv (db w)" if "report_init w" for w
    using that by (simp add: report_init_def reports_inv_def)
  show inv: "reports_inv (db w')" if "reports_inv (db w)" "report_step w w'" for w w'
    using that(2,1) keeps_enqueue_pending keeps_run_worker_tick
    by (induction rule: report_step.induct) (auto simp: keeps_def)
  show "finished_kept w w" for w by (simp add: finished_kept_def)
  show "finished_kept w1 w3" if "finished_kept w1 w2" "finished_kept w2 w3" for w1 w2 w3
    using that by (auto simp: finished_kept_def)
  show "finished_kept w w'" if "reports_inv (db w)" "report_step w w'" for w w'
    using that(2,1) keeps_row_enqueue tick_keeps_finished
    by (induction rule: report_step.induct) (auto simp: finished_kept_def keeps_def)
qed

subsection \<open>Draining the queue\<close>

definition pending_count :: "database \<Rightarrow> nat" where
  "pending_count d = length (filter is_pending (monthly_reports d))"

lemma generate_one_no_faults:
  assumes "faults w = []"
  shows "\<exists>d. generate_one show_uuid now x w = (Inr (), w\<lparr>db := d\<rparr>) \<and>
     map (\<lambda>r. (r_id r, is_pending r)) (monthly_reports d) =
     map (\<lambda>r. (r_id r, is_pending r \<and> r_id r \<noteq> r_id x)) (monthly_reports (db w))"
  using assms
  by (auto simp: generate_one_def matchM_def mark_succeeded_def update_report_def pure_def
      succeeded_row_def is_pending_def)

lemma each_generate_no_faults:
  assumes "faults w = []"
  shows "\<exists>d. each (generate_one show_uuid now) ps w = (Inr (), w\<lparr>db := d\<rparr>) \<and>
     map (\<lambda>r. (r_id r, is_pending r)) (monthly_reports d) =
     map (\<lambda>r. (r_id r, is_pending r \<and> r_id r \<notin> r_id ` set ps)) (monthly_reports (db w))"
  using assms
proof (induction ps arbitrary: w)
  case Nil
  then show ?case by (intro exI [of _ "db w"]) (simp add: pure_def)
next
  case (Cons x ps)
  from generate_one_no_faults [OF Cons.prems] obtain d1 where
    d1: "generate_one show_uuid now x w = (Inr (), w\<lparr>db := d1\<rparr>)"
      "map (\<lambda>r. (r_id r, is_pending r)) (monthly_reports d1) =
       map (\<lambda>r. (r_id r, is_pending r \<and> r_id r \<noteq> r_id x)) (monthly_reports (db w))" by blast
  from Cons.IH [of "w\<lparr>db := d1\<rparr>"] Cons.prems obtain d2 where
    d2: "each (generate_one show_uuid now) ps (w\<lparr>db := d1\<rparr>) = (Inr (), w\<lparr>db := d2\<rparr>)"
      "map (\<lambda>r. (r_id r, is_pending r)) (monthly_reports d2) =
       map (\<lambda>r. (r_id r, is_pending r \<and> r_id r \<notin> r_id ` set ps)) (monthly_reports d1)" by auto
  have "map (\<lambda>r. (r_id r, is_pending r \<and> r_id r \<notin> r_id ` set ps)) (monthly_reports d1) =
      map (\<lambda>(i, b). (i, b \<and> i \<notin> r_id ` set ps)) (map (\<lambda>r. (r_id r, is_pending r)) (monthly_reports d1))"
    by simp
  also have "\<dots> = map (\<lambda>r. (r_id r, is_pending r \<and> r_id r \<notin> r_id ` set (x # ps))) (monthly_reports (db w))"
    unfolding d1(2) by auto
  finally show ?case using d1(1) d2 by (auto simp: matchM_def)
qed

lemma length_filter_map: "length (filter P xs) = length (filter (\<lambda>b. b) (map P xs))"
  by (induction xs) auto

lemma tick_drains:
  assumes "faults w = []" "reports_inv (db w)"
  shows "faults (snd (run_worker_tick show_uuid now w)) = [] \<and>
     pending_count (db (snd (run_worker_tick show_uuid now w))) = pending_count (db w) - WORKER_PARALLELISM"
proof -
  define L where "L = filter is_pending (monthly_reports (db w))"
  define S where "S = sort_key r_requested_at L"
  define ps where "ps = take WORKER_PARALLELISM S"
  have ps: "ps = oldest_pending WORKER_PARALLELISM (db w)"
    by (simp add: ps_def S_def L_def oldest_pending_def)
  from each_generate_no_faults [OF assms(1), of show_uuid now ps] obtain d where
    d: "each (generate_one show_uuid now) ps w = (Inr (), w\<lparr>db := d\<rparr>)"
      "map (\<lambda>r. (r_id r, is_pending r)) (monthly_reports d) =
       map (\<lambda>r. (r_id r, is_pending r \<and> r_id r \<notin> r_id ` set ps)) (monthly_reports (db w))" by blast
  have run: "run_worker_tick show_uuid now w = (Inr (), w\<lparr>db := d\<rparr>)"
    using d(1) assms(1) ps by (auto simp: run_worker_tick_def bindM_def fetch_pending_def pure_def)
  have "map is_pending (monthly_reports d) =
      map (\<lambda>r. is_pending r \<and> r_id r \<notin> r_id ` set ps) (monthly_reports (db w))"
    using arg_cong [OF d(2), of "map snd"] by (simp add: comp_def)
  then have "pending_count d = length (filter (\<lambda>r. is_pending r \<and> r_id r \<notin> r_id ` set ps) (monthly_reports (db w)))"
    unfolding pending_count_def length_filter_map [of is_pending] by (simp add: length_filter_map [symmetric] comp_def)
  also have "\<dots> = length (filter (\<lambda>r. r_id r \<notin> r_id ` set ps) L)"
    by (simp add: L_def conj_commute)
  also have "\<dots> = length (filter (\<lambda>r. r_id r \<notin> r_id ` set ps) S)"
    by (simp add: S_def filter_sort)
  also have "\<dots> = length (drop WORKER_PARALLELISM S)"
  proof -
    have "distinct (map r_id (monthly_reports (db w)))"
      using assms(2) by (simp add: reports_inv_def unique_on_def List.map_filter_def comp_def)
    then have "distinct (map r_id S)"
      by (simp add: S_def L_def distinct_map inj_on_def)
    then have "distinct (map r_id (ps @ drop WORKER_PARALLELISM S))" by (simp add: ps_def)
    then have "r_id ` set ps \<inter> r_id ` set (drop WORKER_PARALLELISM S) = {}" by simp
    then have "filter (\<lambda>r. r_id r \<notin> r_id ` set ps) (ps @ drop WORKER_PARALLELISM S) = drop WORKER_PARALLELISM S"
      by (auto simp: filter_id_conv filter_empty_conv)
    then show ?thesis by (simp add: ps_def)
  qed
  finally show ?thesis
    using run assms(1) by (simp add: pending_count_def L_def S_def)
qed

fun worker_ticks :: "nat \<Rightarrow> (uuid \<Rightarrow> string) \<Rightarrow> instant \<Rightarrow> world \<Rightarrow> world" where
  "worker_ticks 0 show_uuid now w = w"
| "worker_ticks (Suc n) show_uuid now w =
     worker_ticks n show_uuid (now + 60000000000) (snd (run_worker_tick show_uuid now w))"

lemma worker_ticks_drain:
  "faults w = [] \<Longrightarrow> reports_inv (db w) \<Longrightarrow>
     pending_count (db (worker_ticks n show_uuid now w)) = pending_count (db w) - n * WORKER_PARALLELISM"
proof (induction n arbitrary: now w)
  case 0
  then show ?case by simp
next
  case (Suc n)
  have "reports_inv (db (snd (run_worker_tick show_uuid now w)))"
    using keeps_run_worker_tick Suc.prems(2) by (auto simp: keeps_def)
  with Suc tick_drains [OF Suc.prems, of show_uuid now] show ?case by simp
qed

lemma month_number_inj:
  fixes b m a y :: int
  assumes "1 \<le> b" "b \<le> 12" "1 \<le> m" "m \<le> 12"
  shows "12 * a + b = 12 * y + m \<longleftrightarrow> a = y \<and> b = m"
  using assms by (cases a y rule: linorder_cases) auto

lemma report_at_unique:
  assumes "reports_inv d" "r \<in> set (monthly_reports d)"
  shows "report_at d (r_user_id r) (r_period_start r) = Some r"
proof (cases "report_at d (r_user_id r) (r_period_start r)")
  case None
  with assms(2) have False by (auto simp: report_at_None)
  then show ?thesis ..
next
  case (Some r2)
  then have "r2 \<in> set (monthly_reports d)" "(r_user_id r2, r_period_start r2) = (r_user_id r, r_period_start r)"
    by (auto dest: report_at_Some)
  with assms unique_onD [of "\<lambda>r. Some (r_user_id r, r_period_start r)" "monthly_reports d" r2 r
      "(r_user_id r, r_period_start r)"]
  have "r2 = r" by (simp add: reports_inv_def)
  with Some show ?thesis by simp
qed

subsection \<open>Properties\<close>

lemma days_in_month_ge: "28 \<le> days_in_month y m"
  by (simp add: days_in_month_def)

lemma valid_month_bounds:
  "- 9999 \<le> y \<Longrightarrow> y \<le> 9999 \<Longrightarrow> 1 \<le> m \<Longrightarrow> m \<le> 12 \<Longrightarrow>
     valid_date (Date y m 1) \<and> valid_date (Date y m (days_in_month y m)) \<and>
     Date y m 1 \<le> Date y m (days_in_month y m)"
  using days_in_month_ge [of y m] by (simp add: valid_date_def less_eq_calendar_date_def date_key_def)

text \<open>The dates between the first and the last day of a month are the dates of that month.\<close>

lemma in_month_iff:
  assumes "valid_date d" "1 \<le> m" "m \<le> 12"
  shows "Date y m 1 \<le> d \<and> d \<le> Date y m (days_in_month y m) \<longleftrightarrow>
     12 * d_year d + int (d_month d) = 12 * y + int m"
proof -
  obtain a b c where d: "d = Date a b c" by (cases d)
  have v: "1 \<le> b" "b \<le> 12" "1 \<le> c" "c \<le> days_in_month a b"
    using assms(1) by (auto simp: valid_date_def d)
  have "Date y m 1 \<le> d \<and> d \<le> Date y m (days_in_month y m) \<longleftrightarrow> a = y \<and> b = m"
    using v by (auto simp: d less_eq_calendar_date_def date_key_def)
  also have "\<dots> \<longleftrightarrow> 12 * a + int b = 12 * y + int m"
    using month_number_inj [of "int b" "int m" a y] v(1,2) assms(2,3) by simp
  finally show ?thesis by (simp add: d)
qed

lemma previous_day_of_first:
  assumes "valid_date (Date y m 1)" "- 9999 < y \<or> 1 < m"
  shows "previous_day (Date y m 1) =
     Some (if m = 1 then Date (y - 1) 12 31 else Date y (m - 1) (days_in_month y (m - 1)))"
  using assms days_in_month_ge [of y "m - 1"]
  by (auto simp: previous_day_def from_calendar_date_def valid_date_def days_in_month_def)

lemma previous_month_window_eq:
  assumes "valid_date (Date y m dd)" "- 9999 < y \<or> 1 < m"
  shows "previous_month_window (Date y m dd) =
     (let y' = (if m = 1 then y - 1 else y); m' = (if m = 1 then 12 else m - 1)
      in Some (Date y' m' 1, Date y' m' (days_in_month y' m')))"
proof -
  have v: "- 9999 \<le> y" "y \<le> 9999" "1 \<le> m" "m \<le> 12"
    using assms(1) by (auto simp: valid_date_def)
  with days_in_month_ge [of y m] have first: "valid_date (Date y m 1)" by (simp add: valid_date_def)
  show ?thesis
    using v first assms(2) previous_day_of_first [OF first assms(2)] valid_month_bounds [of y "m - 1"]
      valid_month_bounds [of "y - 1" 12]
    by (auto simp: previous_month_window_def month_previous_def from_calendar_date_def
        days_in_month_def Let_def)
qed

text \<open>C20: the reporting period is the calendar month before today.  For every date whose
  predecessor month is representable the computation does not panic, and a valid date lies in the
  window exactly when it is in the month before today's: no gap, no overlap, leap years and the
  turn of the year included.\<close>

theorem previous_month_window_exact:
  assumes "valid_date today" "- 9999 < d_year today \<or> 1 < d_month today"
  shows "\<exists>start end_day. previous_month_window today = Some (start, end_day) \<and>
     valid_date start \<and> valid_date end_day \<and> start \<le> end_day \<and> end_day < today \<and>
     (\<forall>d. valid_date d \<longrightarrow>
        (start \<le> d \<and> d \<le> end_day \<longleftrightarrow>
           12 * d_year d + int (d_month d) + 1 = 12 * d_year today + int (d_month today)))"
proof -
  obtain y m dd where t: "today = Date y m dd" by (cases today)
  define y' m' where "y' = (if m = 1 then y - 1 else y)" and "m' = (if m = 1 then 12 else m - 1)"
  have v: "- 9999 \<le> y'" "y' \<le> 9999" "1 \<le> m'" "m' \<le> 12" "12 * y' + int m' + 1 = 12 * y + int m"
    using assms by (auto simp: y'_def m'_def t valid_date_def)
  have w: "previous_month_window today = Some (Date y' m' 1, Date y' m' (days_in_month y' m'))"
    using previous_month_window_eq [of y m dd] assms by (simp add: t y'_def m'_def Let_def)
  have "Date y' m' (days_in_month y' m') < today"
    using assms(1) by (auto simp: t valid_date_def less_calendar_date_def date_key_def y'_def m'_def)
  moreover have "Date y' m' 1 \<le> d \<and> d \<le> Date y' m' (days_in_month y' m') \<longleftrightarrow>
      12 * d_year d + int (d_month d) + 1 = 12 * y + int m" if "valid_date d" for d
    using in_month_iff [OF that v(3,4), of y'] v(5) by linarith
  ultimately show ?thesis
    using w valid_month_bounds [OF v(1-4)] by (simp add: t)
qed

theorem previous_month_window_exact_witness:
  "previous_month_window (Date 2024 3 1) = Some (Date 2024 2 1, Date 2024 2 29) \<and>
   Date 2024 2 29 < Date 2024 3 1"
proof -
  have v: "valid_date (Date 2024 3 1)"
    by (simp add: valid_date_def days_in_month_def)
  have w: "previous_month_window (Date 2024 3 1) = Some (Date 2024 2 1, Date 2024 2 29)"
    by (simp add: previous_month_window_def from_calendar_date_def valid_date_def previous_day_def
        month_previous_def days_in_month_def is_leap_year_def)
  with previous_month_window_exact [OF v] show ?thesis by auto
qed

text \<open>The queue drains.  Without database faults every tick of the worker takes five reports
  off the queue (or all, if fewer are left), so that \<open>n\<close> ticks finish any backlog of at most
  \<open>5 * n\<close> reports.\<close>

theorem worker_drains_queue:
  assumes "faults w = []" "reports_inv (db w)" "pending_count (db w) \<le> 5 * n"
  shows "pending_count (db (worker_ticks n show_uuid now w)) = 0"
  using worker_ticks_drain [OF assms(1,2), of n show_uuid now] assms(3)
  by (simp add: WORKER_PARALLELISM_def)

definition queued_world :: world where
  "queued_world = \<lparr>db = (empty_database 6)\<lparr>monthly_reports :=
     map (\<lambda>i. pending_row (of_nat i) 0 (of_nat i) (Date 2026 5 1) (Date 2026 5 31)) [0, 1, 2, 3, 4, 5, 6]\<rparr>,
     faults = []\<rparr>"

theorem worker_drains_queue_witness:
  "pending_count (db queued_world) = 7 \<and>
   pending_count (db (worker_ticks 2 (\<lambda>_. ''u'') 0 queued_world)) = 0"
proof -
  have p: "pending_count (db queued_world) = 7"
    by (simp add: queued_world_def pending_count_def is_pending_def pending_row_def)
  moreover have "pending_count (db (worker_ticks 2 (\<lambda>_. ''u'') 0 queued_world)) = 0"
    by (rule worker_drains_queue)
       (use p in \<open>simp_all add: queued_world_def reports_inv_def unique_on_def map_filter_Cons
          pending_row_def report_ok_def\<close>)
  ultimately show ?thesis by blast
qed

text \<open>C21: a finished report is final.  In every run of the service - any sequence of enqueues by
  the scheduler or on request and of worker ticks, with any faults in between - a report that has
  succeeded or failed is never touched again.  In particular a failed report is never
  regenerated: a request for the same period finds the old row and does nothing.\<close>

theorem finished_report_is_final:
  assumes "reachable report_init report_step w" "steps report_step w w'"
    and "r \<in> set (monthly_reports (db w))" "\<not> is_pending r"
  shows "r \<in> set (monthly_reports (db w')) \<and>
     report_at (db w') (r_user_id r) (r_period_start r) = Some r"
proof -
  have in': "r \<in> set (monthly_reports (db w'))"
    using report_queue.reachable_rel [OF assms(1,2)] assms(3,4) by (auto simp: finished_kept_def)
  moreover have "reports_inv (db w')"
    by (rule report_queue.reachable_inv [OF reachable_steps [OF assms(1,2)]])
  ultimately show ?thesis using report_at_unique by blast
qed

theorem finished_report_is_final_witness:
  "\<exists>w w' r. reachable report_init report_step w \<and> steps report_step w w' \<and>
     r \<in> set (monthly_reports (db w)) \<and> r_status r = Succeeded \<and>
     report_at (db w') 1 (Date 2026 5 1) = Some r"
proof -
  define u where "u = \<lparr>u_id = (1 :: uuid), u_supabase_user_id = 2, u_email = ''a'', u_display_name = None,
      u_avatar_url = None, u_created_at = 0, u_updated_at = 0, u_deleted_at = None\<rparr>"
  define w0 where "w0 = \<lparr>db = (empty_database 6)\<lparr>users := [u]\<rparr>, faults = []\<rparr>"
  define w1 where "w1 = snd (enqueue_pending 7 0 1 (Date 2026 5 1) (Date 2026 5 31) w0)"
  define w2 where "w2 = snd (run_worker_tick (\<lambda>_. ''u'') 5 w1)"
  define w3 where "w3 = snd (enqueue_pending 8 9 1 (Date 2026 5 1) (Date 2026 5 31) w2)"
  define r where "r = succeeded_row 5 (placeholder_summary (\<lambda>_. ''u'') ''May 2026'' 1) ''placeholder-stub'' 0
    (pending_row 7 0 1 (Date 2026 5 1) (Date 2026 5 31))"
  have "reachable report_init report_step w0"
    by (rule reach_init) (simp add: report_init_def w0_def empty_database_def)
  then have "reachable report_init report_step w1"
    unfolding w1_def by (rule reach_step) (rule step_enqueue)
  then have reach: "reachable report_init report_step w2"
    unfolding w2_def by (rule reach_step) (rule step_tick)
  have later: "steps report_step w2 w3"
    unfolding w3_def by (rule steps_step [OF steps_refl]) (rule step_enqueue)
  have label: "report_label (pending_row 7 0 1 (Date 2026 5 1) (Date 2026 5 31)) = ''May 2026''"
    by code_simp
  have "w1 = w0\<lparr>db := (db w0)\<lparr>monthly_reports := [pending_row 7 0 1 (Date 2026 5 1) (Date 2026 5 31)]\<rparr>\<rparr>"
    by (simp add: w1_def enqueue_pending_def enqueue_sql_def report_at_def user_exists_def w0_def u_def
        empty_database_def)
  then have "monthly_reports (db w2) = [r]"
    using label
    by (simp add: w2_def run_worker_tick_def fetch_pending_def oldest_pending_def is_pending_def
        bindM_def matchM_def generate_one_def mark_succeeded_def update_report_def pure_def
        WORKER_PARALLELISM_def r_def w0_def) (simp add: pending_row_def)
  then have r: "r \<in> set (monthly_reports (db w2))" "r_status r = Succeeded" "r_user_id r = 1"
    "r_period_start r = Date 2026 5 1"
    by (simp_all add: r_def succeeded_row_def pending_row_def)
  then have "report_at (db w3) 1 (Date 2026 5 1) = Some r"
    using finished_report_is_final [OF reach later r(1)] by (simp add: is_pending_def)
  with reach later r show ?thesis by blast
qed

end
