(* ===== verification/Snaptrade_Crypto.thy ===== *)
theory Snaptrade_Crypto
  imports Auth Utf8
begin

text \<open>
  The cryptographic helpers of the SnapTrade integration: encryption of the stored user secret
  (\<^verbatim>\<open>src/snaptrade/encryption.rs\<close>), the state token of the connect flow
  (\<^verbatim>\<open>src/snaptrade/state_token.rs\<close>) and the signature of outgoing requests
  (\<^verbatim>\<open>src/snaptrade/signing.rs\<close>).  AES-GCM, JWT encoding, HMAC, base64 and the JSON printer are
  other packages and arguments of the definitions; a nonce drawn from the system is an argument
  too.
\<close>

subsection \<open>Encryption at rest\<close>

definition NONCE_LEN :: nat where
  "NONCE_LEN = 12"

definition KEY_LEN :: nat where
  "KEY_LEN = 32"

datatype encryption_error =
    InvalidKeyLength nat | EncryptFailed | DecryptFailed | SelfTestFailed
  | BlobTooShort nat | PlaintextNotUtf8

text \<open>The AEAD package: key, nonce and text to text, with the tag at the end of the ciphertext.\<close>

record aead =
  aead_encrypt :: "byte list \<Rightarrow> byte list \<Rightarrow> byte list \<Rightarrow> byte list option"
  aead_decrypt :: "byte list \<Rightarrow> byte list \<Rightarrow> byte list \<Rightarrow> byte list option"

record encryption_key =
  key_bytes :: "byte list"

definition from_bytes :: "byte list \<Rightarrow> encryption_error + encryption_key" where
  "from_bytes bytes =
     (if length bytes \<noteq> KEY_LEN then Inl (InvalidKeyLength (length bytes))
      else Inr \<lparr>key_bytes = bytes\<rparr>)"

definition encrypt ::
  "aead \<Rightarrow> encryption_key \<Rightarrow> byte list \<Rightarrow> utext \<Rightarrow> encryption_error + byte list" where
  "encrypt a key nonce plaintext =
     and_then (ok_or EncryptFailed (aead_encrypt a (key_bytes key) nonce (utf8_bytes plaintext)))
       (\<lambda>ciphertext. Inr (nonce @ ciphertext))"

definition decrypt :: "aead \<Rightarrow> encryption_key \<Rightarrow> byte list \<Rightarrow> encryption_error + utext" where
  "decrypt a key blob =
     (if length blob < NONCE_LEN + 16 then Inl (BlobTooShort (length blob))
      else
        and_then (ok_or DecryptFailed
           (aead_decrypt a (key_bytes key) (take NONCE_LEN blob) (drop NONCE_LEN blob)))
          (\<lambda>plaintext. ok_or PlaintextNotUtf8 (from_utf8 plaintext)))"

definition SELF_TEST :: utext where
  "SELF_TEST = ascii ''mizan-encryption-self-test''"

definition self_test ::
  "aead \<Rightarrow> encryption_key \<Rightarrow> byte list \<Rightarrow> byte list \<Rightarrow> encryption_error + unit" where
  "self_test a key nonce nonce2 =
     and_then (encrypt a key nonce SELF_TEST) (\<lambda>blob.
     and_then (decrypt a key blob) (\<lambda>decrypted.
       if decrypted \<noteq> SELF_TEST then Inl SelfTestFailed
       else and_then (encrypt a key nonce2 SELF_TEST) (\<lambda>blob2.
         if blob = blob2 then Inl SelfTestFailed else Inr ())))"

text \<open>What the AEAD package documents: with a key of 32 and a nonce of 12 bytes, decryption
  inverts encryption, and the ciphertext is 16 bytes longer than the plaintext.\<close>

definition aead_laws :: "aead \<Rightarrow> bool" where
  "aead_laws a \<longleftrightarrow>
     (\<forall>k n p c. length k = 32 \<longrightarrow> length n = 12 \<longrightarrow> aead_encrypt a k n p = Some c \<longrightarrow>
        aead_decrypt a k n c = Some p \<and> length c = length p + 16)"

lemma aead_lawsD:
  "aead_laws a \<Longrightarrow> length k = 32 \<Longrightarrow> length n = 12 \<Longrightarrow> aead_encrypt a k n p = Some c \<Longrightarrow>
     aead_decrypt a k n c = Some p \<and> length c = length p + 16"
  unfolding aead_laws_def by blast

lemma from_bytes_Inr: "from_bytes b = Inr k \<longleftrightarrow> length b = 32 \<and> k = \<lparr>key_bytes = b\<rparr>"
  by (auto simp: from_bytes_def KEY_LEN_def)

lemma encrypt_Inr:
  "encrypt a key n t = Inr blob \<longleftrightarrow>
     (\<exists>c. aead_encrypt a (key_bytes key) n (utf8_bytes t) = Some c \<and> blob = n @ c)"
  by (auto simp: encrypt_def and_then_Inr_iff)

lemma decrypt_encrypt:
  assumes "aead_laws a" "length (key_bytes key) = 32" "length n = 12" "list_all scalar_value t"
    and "encrypt a key n t = Inr blob"
  shows "decrypt a key blob = Inr t" "length blob = 28 + length (utf8_bytes t)"
proof -
  from assms(5) obtain c where c: "aead_encrypt a (key_bytes key) n (utf8_bytes t) = Some c" "blob = n @ c"
    by (auto simp: encrypt_Inr)
  from aead_lawsD [OF assms(1-3) c(1)] have
    d: "aead_decrypt a (key_bytes key) n c = Some (utf8_bytes t)" "length c = length (utf8_bytes t) + 16"
    by blast+
  with c(2) assms(3) show "length blob = 28 + length (utf8_bytes t)" by simp
  with d c(2) assms(3,4) show "decrypt a key blob = Inr t"
    by (simp add: decrypt_def NONCE_LEN_def and_then_def ok_or_def)
qed

subsection \<open>The state token\<close>

definition ISSUER :: string where
  "ISSUER = ''mizan-snaptrade-state''"

definition TTL_SECS :: int where
  "TTL_SECS = 600"

definition LEEWAY_SECS :: int where
  "LEEWAY_SECS = 30"

record state_claims =
  sc_sub :: uuid
  sc_nonce :: uuid
  sc_iss :: string
  sc_exp :: int
  sc_iat :: int

record state_validation =
  sv_algorithm :: algorithm
  sv_issuers :: "string list"
  sv_validate_exp :: bool
  sv_leeway :: int
  sv_required :: "string list"

text \<open>The JWT package; \<open>decode\<close> reads the clock (seconds).\<close>

record jwt_env =
  jwt_encode :: "algorithm \<Rightarrow> state_claims \<Rightarrow> byte list \<Rightarrow> string + string"
  jwt_decode :: "int \<Rightarrow> string \<Rightarrow> byte list \<Rightarrow> state_validation \<Rightarrow> string + state_claims"

definition unix_timestamp :: "instant \<Rightarrow> int" where
  "unix_timestamp t = t div 1000000000"

definition issue :: "jwt_env \<Rightarrow> instant \<Rightarrow> uuid \<Rightarrow> uuid \<Rightarrow> string \<Rightarrow> app_error + string" where
  "issue j now nonce uid secret =
     map_err (\<lambda>e. with_source e (internal ''could not issue state token''))
       (jwt_encode j HS256
          \<lparr>sc_sub = uid, sc_nonce = nonce, sc_iss = ISSUER,
           sc_exp = unix_timestamp (now + TTL_SECS * 1000000000), sc_iat = unix_timestamp now\<rparr>
          (utf8_bytes (ascii secret)))"

definition verify_state :: "jwt_env \<Rightarrow> instant \<Rightarrow> string \<Rightarrow> string \<Rightarrow> app_error + state_claims" where
  "verify_state j now token secret =
     map_err (\<lambda>e. with_source e (bad_request ''invalid state token''))
       (jwt_decode j (unix_timestamp now) token (utf8_bytes (ascii secret))
          \<lparr>sv_algorithm = HS256, sv_issuers = [ISSUER], sv_validate_exp = True,
           sv_leeway = LEEWAY_SECS, sv_required = [''exp'', ''iss'']\<rparr>)"

text \<open>What the JWT package documents: a token it issued is decoded with the same secret to its
  claims exactly when the issuer is an accepted one, the expiry, if it is checked, has not passed
  by more than the leeway, and none of the registered claims that are required is one the claims
  of this token do not have; and every token it accepts satisfies these checks.\<close>

definition accepted :: "int \<Rightarrow> state_validation \<Rightarrow> state_claims \<Rightarrow> bool" where
  "accepted now v c \<longleftrightarrow>
     sc_iss c \<in> set (sv_issuers v) \<and> (sv_validate_exp v \<longrightarrow> now - sv_leeway v \<le> sc_exp c) \<and>
     ''aud'' \<notin> set (sv_required v) \<and> ''nbf'' \<notin> set (sv_required v)"

definition jwt_laws :: "jwt_env \<Rightarrow> bool" where
  "jwt_laws j \<longleftrightarrow>
     (\<forall>now tok s v c. jwt_decode j now tok s v = Inr c \<longrightarrow> accepted now v c) \<and>
     (\<forall>now tok s v c. jwt_encode j (sv_algorithm v) c s = Inr tok \<longrightarrow> accepted now v c \<longrightarrow>
        jwt_decode j now tok s v = Inr c) \<and>
     (\<forall>now tok s v c. jwt_encode j (sv_algorithm v) c s = Inr tok \<longrightarrow> \<not> accepted now v c \<longrightarrow>
        (\<exists>e. jwt_decode j now tok s v = Inl e))"

lemma unix_timestamp_add: "unix_timestamp (now + n * 1000000000) = unix_timestamp now + n"
  by (simp add: unix_timestamp_def)

lemma verify_state_issued:
  assumes "jwt_laws j" "issue j now nonce uid secret = Inr tok"
  shows "unix_timestamp later \<le> unix_timestamp now + 630 \<Longrightarrow>
      verify_state j later tok secret =
        Inr \<lparr>sc_sub = uid, sc_nonce = nonce, sc_iss = ISSUER,
             sc_exp = unix_timestamp now + 600, sc_iat = unix_timestamp now\<rparr>"
    and "unix_timestamp now + 630 < unix_timestamp later \<Longrightarrow>
      \<exists>e. verify_state j later tok secret = Inl e \<and> err_code e = BadRequest"
proof -
  define c where "c = \<lparr>sc_sub = uid, sc_nonce = nonce, sc_iss = ISSUER,
                sc_exp = unix_timestamp now + 600, sc_iat = unix_timestamp now\<rparr>"
  define v where "v = \<lparr>sv_algorithm = HS256, sv_issuers = [ISSUER], sv_validate_exp = True,
           sv_leeway = LEEWAY_SECS, sv_required = [''exp'', ''iss'']\<rparr>"
  have e: "jwt_encode j (sv_algorithm v) c (utf8_bytes (ascii secret)) = Inr tok"
    using assms(2) unix_timestamp_add [of now 600] by (simp add: issue_def TTL_SECS_def c_def v_def)
  have a: "accepted (unix_timestamp later) v c \<longleftrightarrow> unix_timestamp later \<le> unix_timestamp now + 630"
    by (auto simp: accepted_def c_def v_def LEEWAY_SECS_def)
  have vs: "verify_state j later tok secret =
      map_err (\<lambda>e. with_source e (bad_request ''invalid state token''))
        (jwt_decode j (unix_timestamp later) tok (utf8_bytes (ascii secret)) v)"
    by (simp add: verify_state_def v_def)
  show "verify_state j later tok secret =
      Inr \<lparr>sc_sub = uid, sc_nonce = nonce, sc_iss = ISSUER,
           sc_exp = unix_timestamp now + 600, sc_iat = unix_timestamp now\<rparr>"
    if "unix_timestamp later \<le> unix_timestamp now + 630"
  proof -
    from a that have "accepted (unix_timestamp later) v c" by simp
    with assms(1) e have "jwt_decode j (unix_timestamp later) tok (utf8_bytes (ascii secret)) v = Inr c"
      unfolding jwt_laws_def by blast
    with vs show ?thesis by (simp add: map_err_def c_def)
  qed
  show "\<exists>e. verify_state j later tok secret = Inl e \<and> err_code e = BadRequest"
    if "unix_timestamp now + 630 < unix_timestamp later"
  proof -
    from a that have "\<not> accepted (unix_timestamp later) v c" by simp
    with assms(1) e obtain m where "jwt_decode j (unix_timestamp later) tok (utf8_bytes (ascii secret)) v = Inl m"
      unfolding jwt_laws_def by blast
    with vs show ?thesis by (simp add: map_err_def err_defs)
  qed
qed

subsection \<open>Request signing\<close>

record sign_input =
  si_path :: string
  si_query :: string
  si_body :: "json option"

record sign_env =
  hmac_sha256 :: "byte list \<Rightarrow> byte list \<Rightarrow> byte list"
  base64_encode :: "byte list \<Rightarrow> string"
  json_to_string :: "json \<Rightarrow> string"

definition is_empty_object :: "json \<Rightarrow> bool" where
  "is_empty_object v \<longleftrightarrow> v = JObj []"

definition signed_content :: "json option \<Rightarrow> json" where
  "signed_content body =
     (case body of
        Some v \<Rightarrow> if v \<noteq> JNull \<and> \<not> is_empty_object v then v else JNull
      | None \<Rightarrow> JNull)"

text \<open>The keys of the object stand in alphabetical order, as the map of the JSON package keeps
  them.\<close>

definition canonical_request :: "sign_input \<Rightarrow> json" where
  "canonical_request input =
     JObj [(''content'', signed_content (si_body input)), (''path'', JStr (si_path input)),
           (''query'', JStr (si_query input))]"

definition canonical_request_json :: "sign_env \<Rightarrow> sign_input \<Rightarrow> string" where
  "canonical_request_json x input = json_to_string x (canonical_request input)"

definition sign :: "sign_env \<Rightarrow> sign_input \<Rightarrow> string \<Rightarrow> string" where
  "sign x input key =
     base64_encode x (hmac_sha256 x (utf8_bytes (ascii key))
       (utf8_bytes (ascii (canonical_request_json x input))))"

lemma canonical_request_eq:
  "canonical_request a = canonical_request b \<longleftrightarrow>
     si_path a = si_path b \<and> si_query a = si_query b \<and>
     signed_content (si_body a) = signed_content (si_body b)"
  by (auto simp: canonical_request_def)

subsection \<open>Properties\<close>

lemma self_test_ok:
  assumes "aead_laws a" "length (key_bytes key) = 32" "length nonce = 12" "length nonce2 = 12"
    and "nonce \<noteq> nonce2" "encrypt a key nonce SELF_TEST = Inr b1" "encrypt a key nonce2 SELF_TEST = Inr b2"
  shows "self_test a key nonce nonce2 = Inr ()"
proof -
  have "decrypt a key b1 = Inr SELF_TEST"
    by (rule decrypt_encrypt [OF assms(1-3) _ assms(6)]) (simp add: SELF_TEST_def)
  moreover from assms have "b1 \<noteq> b2" by (auto simp: encrypt_Inr)
  ultimately show ?thesis using assms(6,7) by (simp add: self_test_def and_then_def)
qed

text \<open>C36: a stored broker secret can be read back.  A blob that was written with a valid key and
  a nonce of 12 bytes decrypts to the very secret, and is the nonce followed by ciphertext and
  tag.  The startup self test accepts such a key as long as its two nonces differ, and a blob too
  short for nonce and tag is rejected before the cipher sees it.\<close>

theorem stored_secret_roundtrip:
  assumes "aead_laws a" "from_bytes bytes = Inr key" "length nonce = 12" "length nonce2 = 12"
    and "list_all scalar_value secret"
  shows "(\<forall>blob. encrypt a key nonce secret = Inr blob \<longrightarrow>
       decrypt a key blob = Inr secret \<and> take 12 blob = nonce \<and>
       length blob = 28 + length (utf8_bytes secret)) \<and>
     (\<forall>b1 b2. nonce \<noteq> nonce2 \<longrightarrow> encrypt a key nonce SELF_TEST = Inr b1 \<longrightarrow>
       encrypt a key nonce2 SELF_TEST = Inr b2 \<longrightarrow> self_test a key nonce nonce2 = Inr ()) \<and>
     (\<forall>blob. length blob < 28 \<longrightarrow> decrypt a key blob = Inl (BlobTooShort (length blob)))"
proof (intro conjI allI impI)
  have k: "length (key_bytes key) = 32" using assms(2) by (simp add: from_bytes_Inr)
  fix blob assume e: "encrypt a key nonce secret = Inr blob"
  note d = decrypt_encrypt [OF assms(1) k assms(3,5) e]
  show "decrypt a key blob = Inr secret" "length blob = 28 + length (utf8_bytes secret)" by (rule d)+
  show "take 12 blob = nonce" using e assms(3) by (auto simp: encrypt_Inr)
next
  have k: "length (key_bytes key) = 32" using assms(2) by (simp add: from_bytes_Inr)
  show "self_test a key nonce nonce2 = Inr ()"
    if "nonce \<noteq> nonce2" "encrypt a key nonce SELF_TEST = Inr b1" "encrypt a key nonce2 SELF_TEST = Inr b2" for b1 b2
    using that by (rule self_test_ok [OF assms(1) k assms(3,4)])
next
  fix blob :: "byte list" assume "length blob < 28"
  then show "decrypt a key blob = Inl (BlobTooShort (length blob))"
    by (simp add: decrypt_def NONCE_LEN_def)
qed

definition sample_aead :: aead where
  "sample_aead =
     \<lparr>aead_encrypt = \<lambda>k n p. Some (p @ replicate 16 0),
      aead_decrypt = \<lambda>k n c. Some (take (length c - 16) c)\<rparr>"

lemma sample_aead_laws: "aead_laws sample_aead"
  by (simp add: aead_laws_def sample_aead_def)

theorem stored_secret_roundtrip_witness:
  "\<exists>key blob. from_bytes (replicate 32 7) = Inr key \<and>
     encrypt sample_aead key (replicate 12 1) (ascii ''s3cret'') = Inr blob \<and>
     decrypt sample_aead key blob = Inr (ascii ''s3cret'') \<and>
     self_test sample_aead key (replicate 12 1) (replicate 12 2) = Inr ()"
proof -
  let ?key = "\<lparr>key_bytes = replicate 32 7\<rparr>"
  have k: "from_bytes (replicate 32 7) = Inr ?key" by (simp add: from_bytes_Inr)
  have e: "encrypt sample_aead ?key n t = Inr (n @ utf8_bytes t @ replicate 16 0)" for n t
    by (simp add: encrypt_Inr sample_aead_def)
  have "replicate 12 (1 :: byte) \<noteq> replicate 12 2" by (simp add: eval_nat_numeral)
  with e stored_secret_roundtrip [OF sample_aead_laws k, of "replicate 12 1" "replicate 12 2" "ascii ''s3cret''"] k
  show ?thesis by (simp del: replicate_eq_replicate)
qed

text \<open>A state token proves who started the connect flow, for ten and a half minutes.  A token
  issued to a user verifies, with the same secret, to claims that name that user up to 630 seconds
  later - ten minutes and the leeway - and is refused as a bad request from then on.\<close>

theorem state_token_roundtrip:
  assumes "jwt_laws j" "issue j now nonce uid secret = Inr tok"
  shows "if unix_timestamp later \<le> unix_timestamp now + 630
     then (\<exists>c. verify_state j later tok secret = Inr c \<and> sc_sub c = uid \<and> sc_iss c = ''mizan-snaptrade-state'')
     else (\<exists>e. verify_state j later tok secret = Inl e \<and> err_code e = BadRequest)"
  using verify_state_issued [OF assms, of later] by (simp add: ISSUER_def)

definition sample_jwt :: "state_claims \<Rightarrow> jwt_env" where
  "sample_jwt c0 =
     \<lparr>jwt_encode = \<lambda>alg c s. if c = c0 then Inr ''tok'' else Inl ''other'',
      jwt_decode = \<lambda>now tok s v. if tok = ''tok'' \<and> accepted now v c0 then Inr c0 else Inl ''bad''\<rparr>"

lemma sample_jwt_laws: "jwt_laws (sample_jwt c0)"
  by (simp add: jwt_laws_def sample_jwt_def)

definition sample_state :: state_claims where
  "sample_state = \<lparr>sc_sub = 1, sc_nonce = 9, sc_iss = ISSUER, sc_exp = 700, sc_iat = 100\<rparr>"

theorem state_token_roundtrip_witness:
  "\<exists>tok c e. issue (sample_jwt sample_state) 100000000000 9 1 ''key'' = Inr tok \<and>
     verify_state (sample_jwt sample_state) 730000000000 tok ''key'' = Inr c \<and> sc_sub c = 1 \<and>
     verify_state (sample_jwt sample_state) 731000000000 tok ''key'' = Inl e \<and> err_code e = BadRequest"
proof -
  have i: "issue (sample_jwt sample_state) 100000000000 9 1 ''key'' = Inr ''tok''"
    by (simp add: issue_def sample_jwt_def sample_state_def unix_timestamp_def TTL_SECS_def map_err_def)
  from state_token_roundtrip [OF sample_jwt_laws i, of 730000000000]
    state_token_roundtrip [OF sample_jwt_laws i, of 731000000000] i
  show ?thesis by (auto simp: unix_timestamp_def)
qed

end
