(* ===== verification/Snaptrade_Client.thy ===== *)
theory Snaptrade_Client
  imports Snaptrade_Crypto "HOL-Library.Countable"
begin

text \<open>
  The SnapTrade client (\<^verbatim>\<open>src/snaptrade/client.rs\<close>), the data it exchanges
  (\<^verbatim>\<open>src/snaptrade/types.rs\<close>) and what a failure becomes (\<^verbatim>\<open>src/snaptrade/errors.rs\<close>).  The HTTP
  exchange, the URL encoding of bytes and the JSON decoders are fields of \<open>st_env\<close>.
\<close>

subsection \<open>Failures\<close>

text \<open>\<open>Transport\<close> says whether the request timed out.\<close>

datatype snaptrade_error =
    Status nat utext | Transport bool string | Decode string | Parse string

definition from_status :: "nat \<Rightarrow> app_error" where
  "from_status st =
     (if st = 401 then internal ''broker integration error''
      else if st = 403 then forbidden ''broker access denied''
      else if st = 404 then not_found ''broker connection or account not found''
      else if st = 429 then new_error TooManyRequests ''upstream rate limit''
      else if 500 \<le> st \<and> st \<le> 599 then service_unavailable ''broker temporarily unavailable''
      else internal ''broker integration error'')"

fun from_snaptrade :: "snaptrade_error \<Rightarrow> app_error" where
  "from_snaptrade (Status st body) = from_status st"
| "from_snaptrade (Transport timeout m) =
     (if timeout then service_unavailable ''broker request timed out''
      else service_unavailable ''broker temporarily unavailable'')"
| "from_snaptrade (Decode m) = internal ''broker integration error''"
| "from_snaptrade (Parse m) = internal ''broker integration error''"

text \<open>What the log shows of a body: all of it up to \<open>n\<close> bytes, else its first \<open>n\<close>
  characters.\<close>

definition truncate_text :: "utext \<Rightarrow> nat \<Rightarrow> utext" where
  "truncate_text s n =
     (if length (utf8_bytes s) \<le> n then s
      else if n < length s then take n s else s)"

lemma utf8_encode_pos: "0 < length (utf8_encode c)"
  by (simp add: utf8_encode_def)

lemma length_utf8_bytes: "length s \<le> length (utf8_bytes s)"
proof (induction s)
  case Nil
  show ?case by simp
next
  case (Cons c s)
  have "length (utf8_bytes (c # s)) = length (utf8_encode c) + length (utf8_bytes s)"
    by (simp add: utf8_bytes_def)
  with Cons utf8_encode_pos [of c] have "length s + 1 \<le> length (utf8_bytes (c # s))" by linarith
  then show ?case by simp
qed

lemma truncate_text_prefix: "truncate_text s n = take n s"
  using length_utf8_bytes [of s] by (auto simp: truncate_text_def)

subsection \<open>Upstream data\<close>

record st_register_response =
  reg_user_id :: string
  reg_user_secret :: utext

record st_login_response =
  login_redirect_uri :: string
  login_session_id :: "string option"

record st_brokerage =
  bk_id :: string
  bk_slug :: string
  bk_name :: string
  bk_display_name :: "string option"
  bk_logo_url :: "string option"
  bk_square_logo_url :: "string option"
  bk_enabled :: "bool option"

record st_authorization =
  au_id :: string
  au_name :: "string option"
  au_type :: "string option"
  au_disabled :: bool
  au_created_date :: "string option"
  au_updated_date :: "string option"
  au_brokerage :: "st_brokerage option"

record st_account =
  ac_id :: string
  ac_brokerage_authorization :: "string option"
  ac_name :: "string option"
  ac_number :: "string option"
  ac_institution_name :: "string option"
  ac_status :: "string option"
  ac_raw_type :: "string option"
  ac_balance :: "json option"
  ac_sync_status :: "json option"
  ac_is_paper :: "bool option"

subsection \<open>Requests\<close>

datatype http_method = GET | POST | DELETE

record http_request =
  hr_method :: http_method
  hr_url :: string
  hr_signature :: string
  hr_body :: "json option"

text \<open>No reply (timed out or not), a reply whose body could not be read, or a reply.\<close>

datatype st_reply = NoReply bool string | BrokenBody string | Reply nat "byte list"

record st_env =
  st_sign :: sign_env
  byte_serialize :: "byte list \<Rightarrow> string"
  header_value :: "string \<Rightarrow> string + string"
  st_http :: "http_request \<Rightarrow> st_reply"
  decode_register :: "byte list \<Rightarrow> string + st_register_response"
  decode_login :: "byte list \<Rightarrow> string + st_login_response"
  decode_authorizations :: "byte list \<Rightarrow> string + st_authorization list"
  decode_accounts :: "byte list \<Rightarrow> string + st_account list"
  decode_value :: "byte list \<Rightarrow> string + json"

record st_client =
  base_url :: string
  st_client_id :: string
  st_consumer_key :: string

definition new_client :: "string \<Rightarrow> string \<Rightarrow> string \<Rightarrow> st_client" where
  "new_client base cid key =
     \<lparr>base_url = trim_end_matches CHR ''/'' base, st_client_id = cid, st_consumer_key = key\<rparr>"

type_synonym query_params = "(string \<times> utext) list"

definition full_signing_path :: "string \<Rightarrow> string" where
  "full_signing_path relative =
     (if starts_with ''/api/'' relative then relative
      else if starts_with ''/'' relative then ''/api/v1'' @ relative
      else ''/api/v1/'' @ relative)"

definition query_pair :: "st_env \<Rightarrow> string \<times> utext \<Rightarrow> string" where
  "query_pair x p =
     byte_serialize x (utf8_bytes (ascii (fst p))) @ ''='' @ byte_serialize x (utf8_bytes (snd p))"

definition build_query_string :: "st_env \<Rightarrow> query_params \<Rightarrow> string" where
  "build_query_string x params =
     concat (map (\<lambda>(i, p). (if 0 < i then ''&'' else []) @ query_pair x p) (List.enumerate 0 params))"

definition all_params :: "st_client \<Rightarrow> instant \<Rightarrow> query_params \<Rightarrow> query_params" where
  "all_params c now params =
     params @ [(''clientId'', ascii (st_client_id c)),
               (''timestamp'', ascii (show_int (unix_timestamp now)))]"

text \<open>What is signed, and what goes on the wire.\<close>

definition signing_input ::
  "st_env \<Rightarrow> st_client \<Rightarrow> instant \<Rightarrow> string \<Rightarrow> query_params \<Rightarrow> json option \<Rightarrow> sign_input" where
  "signing_input x c now path params body =
     \<lparr>si_path = full_signing_path path, si_query = build_query_string x (all_params c now params),
      si_body = body\<rparr>"

definition request_of ::
  "st_env \<Rightarrow> st_client \<Rightarrow> instant \<Rightarrow> http_method \<Rightarrow> string \<Rightarrow> query_params \<Rightarrow> json option \<Rightarrow> http_request" where
  "request_of x c now m path params body =
     \<lparr>hr_method = m,
      hr_url = base_url c @ path @ ''?'' @ build_query_string x (all_params c now params),
      hr_signature = sign (st_sign x) (signing_input x c now path params body) (st_consumer_key c),
      hr_body = body\<rparr>"

definition read_reply :: "(byte list \<Rightarrow> string + 'r) \<Rightarrow> st_reply \<Rightarrow> snaptrade_error + 'r" where
  "read_reply decode reply =
     (case reply of
        NoReply timeout m \<Rightarrow> Inl (Transport timeout m)
      | BrokenBody m \<Rightarrow> Inl (Decode m)
      | Reply st bytes \<Rightarrow>
          if \<not> is_success st then Inl (Status st (from_utf8_lossy (map unat bytes)))
          else if bytes = [] then
            map_err (\<lambda>e. Parse (''empty-body: '' @ e)) (decode (utf8_bytes (ascii ''null'')))
          else map_err (\<lambda>e. Parse (''decode response: '' @ e)) (decode bytes))"

definition send_signed ::
  "st_env \<Rightarrow> st_client \<Rightarrow> instant \<Rightarrow> http_method \<Rightarrow> string \<Rightarrow> query_params \<Rightarrow> json option \<Rightarrow>
   (byte list \<Rightarrow> string + 'r) \<Rightarrow> snaptrade_error + 'r" where
  "send_signed x c now m path params body decode =
     (let req = request_of x c now m path params body in
      and_then (map_err (\<lambda>e. Parse (''signature header: '' @ e)) (header_value x (hr_signature req)))
        (\<lambda>_. read_reply decode (st_http x req)))"

subsection \<open>Operations\<close>

definition user_params :: "string \<Rightarrow> utext \<Rightarrow> query_params" where
  "user_params uid secret = [(''userId'', ascii uid), (''userSecret'', secret)]"

definition register_user ::
  "st_env \<Rightarrow> st_client \<Rightarrow> instant \<Rightarrow> string \<Rightarrow> snaptrade_error + st_register_response" where
  "register_user x c now uid =
     send_signed x c now POST ''/snapTrade/registerUser'' []
       (Some (JObj [(''userId'', JStr uid)])) (decode_register x)"

definition login_body :: "string \<Rightarrow> json" where
  "login_body redirect =
     JObj [(''connectionPortalVersion'', JStr ''v4''), (''connectionType'', JStr ''read''),
           (''customRedirect'', JStr redirect)]"

definition login_user ::
  "st_env \<Rightarrow> st_client \<Rightarrow> instant \<Rightarrow> string \<Rightarrow> utext \<Rightarrow> string \<Rightarrow> snaptrade_error + st_login_response" where
  "login_user x c now uid secret redirect =
     send_signed x c now POST ''/snapTrade/login'' (user_params uid secret)
       (Some (login_body redirect)) (decode_login x)"

definition list_authorizations ::
  "st_env \<Rightarrow> st_client \<Rightarrow> instant \<Rightarrow> string \<Rightarrow> utext \<Rightarrow> snaptrade_error + st_authorization list" where
  "list_authorizations x c now uid secret =
     send_signed x c now GET ''/authorizations'' (user_params uid secret) None (decode_authorizations x)"

definition list_accounts ::
  "st_env \<Rightarrow> st_client \<Rightarrow> instant \<Rightarrow> string \<Rightarrow> utext \<Rightarrow> snaptrade_error + st_account list" where
  "list_accounts x c now uid secret =
     send_signed x c now GET ''/accounts'' (user_params uid secret) None (decode_accounts x)"

definition holdings_path :: "string \<Rightarrow> string" where
  "holdings_path account = ''/accounts/'' @ account @ ''/holdings''"

definition account_holdings ::
  "st_env \<Rightarrow> st_client \<Rightarrow> instant \<Rightarrow> string \<Rightarrow> utext \<Rightarrow> string \<Rightarrow> snaptrade_error + json" where
  "account_holdings x c now uid secret account =
     send_signed x c now GET (holdings_path account) (user_params uid secret) None (decode_value x)"

definition account_activities ::
  "st_env \<Rightarrow> st_client \<Rightarrow> instant \<Rightarrow> string \<Rightarrow> utext \<Rightarrow> string \<Rightarrow> query_params \<Rightarrow>
   snaptrade_error + json" where
  "account_activities x c now uid secret account extra =
     send_signed x c now GET (''/accounts/'' @ account @ ''/activities'')
       (user_params uid secret @ extra) None (decode_value x)"

definition refresh_authorization ::
  "st_env \<Rightarrow> st_client \<Rightarrow> instant \<Rightarrow> string \<Rightarrow> utext \<Rightarrow> string \<Rightarrow> snaptrade_error + json" where
  "refresh_authorization x c now uid secret auth =
     send_signed x c now POST (''/authorizations/'' @ auth @ ''/refresh'')
       (user_params uid secret) None (decode_value x)"

definition remove_authorization ::
  "st_env \<Rightarrow> st_client \<Rightarrow> instant \<Rightarrow> string \<Rightarrow> utext \<Rightarrow> string \<Rightarrow> snaptrade_error + unit" where
  "remove_authorization x c now uid secret auth =
     (case send_signed x c now DELETE (''/authorizations/'' @ auth) (user_params uid secret) None
             (decode_value x) of
        Inr _ \<Rightarrow> Inr ()
      | Inl (Status st body) \<Rightarrow> if st = 404 then Inr () else Inl (Status st body)
      | Inl other \<Rightarrow> Inl other)"

subsection \<open>Query strings\<close>

text \<open>What the URL package documents of its encoder: distinct byte strings have distinct
  encodings, none of which contains a separator; and the JSON printer is injective.\<close>

definition encoder_laws :: "st_env \<Rightarrow> bool" where
  "encoder_laws x \<longleftrightarrow>
     inj (byte_serialize x) \<and>
     (\<forall>b. CHR ''&'' \<notin> set (byte_serialize x b) \<and> CHR ''='' \<notin> set (byte_serialize x b)) \<and>
     inj (json_to_string (st_sign x))"

definition well_encoded :: "query_params \<Rightarrow> bool" where
  "well_encoded ps \<longleftrightarrow> (\<forall>p\<in>set ps. list_all scalar_value (snd p))"

lemma query_pair_inj:
  assumes "encoder_laws x" "list_all scalar_value (snd p)" "list_all scalar_value (snd q)"
    and "query_pair x p = query_pair x q"
  shows "p = q"
proof -
  let ?e = "byte_serialize x"
  have n: "CHR ''='' \<notin> set (?e b)" for b using assms(1) by (simp add: encoder_laws_def)
  have "splitn2 CHR ''='' (query_pair x r) = (?e (utf8_bytes (ascii (fst r))), Some (?e (utf8_bytes (snd r))))" for r
    using splitn2_append [OF n] by (simp add: query_pair_def)
  with assms(4) have e: "?e (utf8_bytes (ascii (fst p))) = ?e (utf8_bytes (ascii (fst q)))"
    "?e (utf8_bytes (snd p)) = ?e (utf8_bytes (snd q))"
    by (metis prod.inject option.inject)+
  have "inj ?e" using assms(1) by (simp add: encoder_laws_def)
  from injD [OF this e(1)] injD [OF this e(2)] assms(2,3)
  have "ascii (fst p) = ascii (fst q)" "snd p = snd q" by (blast intro: utf8_bytes_inj scalar_value_ascii)+
  then show ?thesis by (simp add: ascii_inj prod_eq_iff)
qed

text \<open>Joined by ampersands, the pairs can be split again.\<close>

fun join_amp :: "string list \<Rightarrow> string" where
  "join_amp [] = []"
| "join_amp [s] = s"
| "join_amp (s # t # ss) = s @ ''&'' @ join_amp (t # ss)"

lemma join_later:
  "0 < n \<Longrightarrow> concat (map (\<lambda>(i, p). (if 0 < i then ''&'' else []) @ f p) (List.enumerate n ps)) =
     concat (map (\<lambda>p. ''&'' @ f p) ps)"
  by (induction ps arbitrary: n) simp_all

lemma join_amp_Cons: "join_amp (s # ss) = s @ concat (map (\<lambda>t. ''&'' @ t) ss)"
  by (induction ss arbitrary: s) simp_all

lemma build_query_string_join: "build_query_string x ps = join_amp (map (query_pair x) ps)"
  by (cases ps) (simp_all add: build_query_string_def join_later join_amp_Cons comp_def)

lemma split_join_amp:
  "ss \<noteq> [] \<Longrightarrow> \<forall>s\<in>set ss. CHR ''&'' \<notin> set s \<Longrightarrow> split_char CHR ''&'' (join_amp ss) = ss"
proof (induction ss rule: join_amp.induct)
  case (2 s)
  then show ?case by (simp add: split_char_no_sep)
next
  case (3 s t ss)
  then show ?case using split_char_append [of "CHR ''&''" s] by simp
qed simp

lemma build_query_string_inj:
  assumes "encoder_laws x" "well_encoded ps" "well_encoded qs" "ps \<noteq> []" "qs \<noteq> []"
    and "build_query_string x ps = build_query_string x qs"
  shows "ps = qs"
proof -
  have "CHR ''&'' \<notin> set (query_pair x p)" for p
    using assms(1) by (auto simp: query_pair_def encoder_laws_def)
  then have "split_char CHR ''&'' (build_query_string x rs) = map (query_pair x) rs" if "rs \<noteq> []" for rs
    using that by (simp add: build_query_string_join split_join_amp)
  with assms(4-6) have "map (query_pair x) ps = map (query_pair x) qs" by metis
  moreover have "inj_on (query_pair x) (set ps \<union> set qs)"
    using assms(1-3) by (auto simp: inj_on_def well_encoded_def dest: query_pair_inj)
  ultimately show ?thesis by (simp add: inj_on_map_eq_map)
qed

lemma all_params_eq:
  "all_params c now ps = all_params c' now' qs \<longleftrightarrow>
     ps = qs \<and> st_client_id c = st_client_id c' \<and> show_int (unix_timestamp now) = show_int (unix_timestamp now')"
  by (simp add: all_params_def ascii_inj)

lemma well_encoded_all: "well_encoded (all_params c now ps) = well_encoded ps"
  by (auto simp: well_encoded_def all_params_def)

definition client_path :: "string \<Rightarrow> bool" where
  "client_path p \<longleftrightarrow> starts_with ''/'' p \<and> \<not> starts_with ''/api/'' p"

lemma full_signing_path_inj:
  "client_path p \<Longrightarrow> client_path q \<Longrightarrow> full_signing_path p = full_signing_path q \<Longrightarrow> p = q"
  by (simp add: client_path_def full_signing_path_def)

lemma read_reply_Status:
  "read_reply decode r = Inl (Status st body) \<longleftrightarrow>
     (\<exists>bytes. r = Reply st bytes \<and> \<not> is_success st \<and> body = from_utf8_lossy (map unat bytes))"
  by (auto simp: read_reply_def map_err_def split: st_reply.splits if_splits sum.splits)

lemma signing_input_eq:
  assumes "encoder_laws x" "well_encoded ps" "well_encoded qs" "client_path p" "client_path q"
    and "canonical_request_json (st_sign x) (signing_input x c now p ps b) =
         canonical_request_json (st_sign x) (signing_input x c' now' q qs b')"
  shows "p = q \<and> ps = qs \<and> st_client_id c = st_client_id c' \<and>
     unix_timestamp now = unix_timestamp now' \<and> signed_content b = signed_content b'"
proof -
  have "inj (json_to_string (st_sign x))" using assms(1) by (simp add: encoder_laws_def)
  from injD [OF this] assms(6)
  have e: "canonical_request (signing_input x c now p ps b) = canonical_request (signing_input x c' now' q qs b')"
    by (simp add: canonical_request_json_def)
  then have "full_signing_path p = full_signing_path q"
    "build_query_string x (all_params c now ps) = build_query_string x (all_params c' now' qs)"
    and s: "signed_content b = signed_content b'"
    by (simp_all add: canonical_request_eq signing_input_def)
  with full_signing_path_inj [OF assms(4,5)]
    build_query_string_inj [OF assms(1), of "all_params c now ps" "all_params c' now' qs"] assms(2,3)
  have "p = q" "all_params c now ps = all_params c' now' qs"
    by (simp_all add: well_encoded_all) (simp add: all_params_def)
  with s show ?thesis by (simp add: all_params_eq show_int_inj)
qed

lemma signing_input_content:
  "signed_content b = signed_content b' \<Longrightarrow> unix_timestamp now = unix_timestamp now' \<Longrightarrow>
   st_client_id c = st_client_id c' \<Longrightarrow>
     canonical_request_json (st_sign x) (signing_input x c now p ps b) =
     canonical_request_json (st_sign x) (signing_input x c' now' p ps b')"
  unfolding canonical_request_json_def
  by (rule arg_cong [where f = "json_to_string (st_sign x)"])
     (simp add: canonical_request_eq signing_input_def all_params_def)

subsection \<open>Properties\<close>


instance json :: countable
  by countable_datatype

text \<open>An environment for the witnesses: texts are printed as the number of the value in an
  enumeration of its type, the upstream answers every request with an empty success.\<close>

definition sample_sign :: sign_env where
  "sample_sign = \<lparr>hmac_sha256 = \<lambda>k m. k @ m, base64_encode = \<lambda>_. ''sig'',
     json_to_string = \<lambda>j. show_nat (to_nat j)\<rparr>"

definition sample_st :: "(http_request \<Rightarrow> st_reply) \<Rightarrow> st_authorization list \<Rightarrow> st_env" where
  "sample_st http auths = \<lparr>st_sign = sample_sign, byte_serialize = \<lambda>b. show_nat (to_nat (map unat b)),
     header_value = Inr, st_http = http,
     decode_register = \<lambda>_. Inr \<lparr>reg_user_id = ''st-1'', reg_user_secret = ascii ''s''\<rparr>,
     decode_login = \<lambda>_. Inr \<lparr>login_redirect_uri = ''https://portal'', login_session_id = None\<rparr>,
     decode_authorizations = \<lambda>_. Inr auths, decode_accounts = \<lambda>_. Inr [],
     decode_value = \<lambda>_. Inr JNull\<rparr>"

lemma show_nat_separators: "CHR ''&'' \<notin> set (show_nat n)" "CHR ''='' \<notin> set (show_nat n)"
proof -
  have "char_digit (digit_char d) = Some d" if "d < 10" for d using that by simp
  moreover have "char_digit CHR ''&'' = None" "char_digit CHR ''='' = None"
    by (simp_all add: char_digit_def Let_def)
  ultimately show "CHR ''&'' \<notin> set (show_nat n)" "CHR ''='' \<notin> set (show_nat n)"
    by (metis option.distinct(1) set_show_nat)+
qed

lemma unat_inj: "inj (unat :: byte \<Rightarrow> nat)"
  by (simp add: inj_on_def word_unat_eq_iff)

lemma sample_st_laws: "encoder_laws (sample_st http auths)"
  by (auto simp: encoder_laws_def sample_st_def sample_sign_def inj_on_def show_nat_inj show_nat_separators
      inj_map_eq_map [OF unat_inj])


text \<open>The account id of a holdings request goes into the path as it is: one with a question mark
  makes the path on the wire differ from the one that was signed.\<close>

lemma account_id_unescaped:
  assumes "CHR ''?'' \<notin> set (base_url c)"
  shows "splitn2 CHR ''?'' (hr_url (request_of x c now GET (holdings_path ''a?b'') ps None)) =
       (base_url c @ ''/accounts/a'', Some (''b/holdings?'' @ build_query_string x (all_params c now ps))) \<and>
     si_path (signing_input x c now (holdings_path ''a?b'') ps None) = ''/api/v1/accounts/a?b/holdings''"
  using assms splitn2_append [of "CHR ''?''" "base_url c @ ''/accounts/a''"]
  by (simp add: request_of_def signing_input_def holdings_path_def full_signing_path_def starts_with_def)

end
