(* ===== verification/Snaptrade_Connections.thy ===== *)
theory Snaptrade_Connections
  imports Database Machines "HOL-Library.Option_ord"
begin

text \<open>
  The audit log (\<^verbatim>\<open>src/audit/repository.rs\<close>) and the statements on the broker connections
  (\<^verbatim>\<open>src/snaptrade/repository.rs\<close>), with the two unique indexes of migration 0002.  Every row of the
  service has the connection type \<open>snaptrade\<close>, which is left out.
\<close>

subsection \<open>Audit events\<close>

record audit_event =
  ev_user_id :: "uuid option"
  ev_event_type :: string
  ev_event_data :: "json option"
  ev_ip_address :: "string option"
  ev_user_agent :: "string option"

definition new_event :: "string \<Rightarrow> audit_event" where
  "new_event ty = \<lparr>ev_user_id = None, ev_event_type = ty, ev_event_data = None,
     ev_ip_address = None, ev_user_agent = None\<rparr>"

definition event_user :: "uuid \<Rightarrow> audit_event \<Rightarrow> audit_event" where
  "event_user uid e = e\<lparr>ev_user_id := Some uid\<rparr>"

definition event_data :: "json \<Rightarrow> audit_event \<Rightarrow> audit_event" where
  "event_data v e = e\<lparr>ev_event_data := Some v\<rparr>"

definition event_ip :: "string \<Rightarrow> audit_event \<Rightarrow> audit_event" where
  "event_ip ip e = e\<lparr>ev_ip_address := Some ip\<rparr>"

definition event_user_agent :: "string \<Rightarrow> audit_event \<Rightarrow> audit_event" where
  "event_user_agent ua e = e\<lparr>ev_user_agent := Some ua\<rparr>"

lemmas event_defs = new_event_def event_user_def event_data_def event_ip_def event_user_agent_def

definition audit_row_of :: "instant \<Rightarrow> audit_event \<Rightarrow> audit_row" where
  "audit_row_of now e =
     \<lparr>a_user_id = ev_user_id e, a_event_type = ev_event_type e, a_event_data = ev_event_data e,
      a_ip_address = ev_ip_address e, a_user_agent = ev_user_agent e, a_created_at = now\<rparr>"

text \<open>The serial number of the new row, which no caller looks at, is left out.\<close>

definition audit_sql :: "instant \<Rightarrow> audit_event \<Rightarrow> database \<Rightarrow> (sqlx_error + unit) \<times> database" where
  "audit_sql now e d =
     (if (case ev_user_id e of None \<Rightarrow> False | Some uid \<Rightarrow> \<not> user_exists d uid)
      then (Inl (Database ForeignKeyViolation), d)
      else (Inr (), d\<lparr>audit_log := audit_log d @ [audit_row_of now e]\<rparr>))"

definition record_event :: "instant \<Rightarrow> audit_event \<Rightarrow> (sqlx_error, unit) action" where
  "record_event now e = query (audit_sql now e)"

subsection \<open>Connections\<close>

definition active_key :: "connection \<Rightarrow> uuid option" where
  "active_key c = (if c_is_active c then Some (c_user_id c) else None)"

definition connection_indexes :: "connection list \<Rightarrow> bool" where
  "connection_indexes cs \<longleftrightarrow>
     unique_on (\<lambda>c. Some (c_id c)) cs \<and> unique_on active_key cs \<and>
     unique_on (\<lambda>c. Some (c_snaptrade_user_id c)) cs"

definition pending_connection :: "uuid \<Rightarrow> instant \<Rightarrow> uuid \<Rightarrow> string \<Rightarrow> byte list \<Rightarrow> connection" where
  "pending_connection row_id now uid st_uid blob =
     \<lparr>c_id = row_id, c_user_id = uid, c_snaptrade_user_id = st_uid, c_secret_encrypted = blob,
      c_authorization_id = None, c_broker_slug = None, c_institution_name = None,
      c_is_active = False, c_disabled = False, c_created_at = now, c_updated_at = now\<rparr>"

definition insert_pending_sql ::
  "uuid \<Rightarrow> instant \<Rightarrow> uuid \<Rightarrow> string \<Rightarrow> byte list \<Rightarrow> database \<Rightarrow> (sqlx_error + uuid) \<times> database" where
  "insert_pending_sql row_id now uid st_uid blob d =
     (let cs = broker_connections d @ [pending_connection row_id now uid st_uid blob] in
      if \<not> connection_indexes cs then (Inl (Database UniqueViolation), d)
      else if \<not> user_exists d uid then (Inl (Database ForeignKeyViolation), d)
      else (Inr row_id, d\<lparr>broker_connections := cs\<rparr>))"

definition insert_pending ::
  "uuid \<Rightarrow> instant \<Rightarrow> uuid \<Rightarrow> string \<Rightarrow> byte list \<Rightarrow> (app_error, uuid) action" where
  "insert_pending row_id now uid st_uid blob =
     map_errM from_sqlx (query (insert_pending_sql row_id now uid st_uid blob))"

definition active_connection :: "database \<Rightarrow> uuid \<Rightarrow> connection option" where
  "active_connection d uid = find (\<lambda>c. c_user_id c = uid \<and> c_is_active c) (broker_connections d)"

definition fetch_active_for_user :: "uuid \<Rightarrow> (app_error, connection option) action" where
  "fetch_active_for_user uid = map_errM from_sqlx (select (\<lambda>d. active_connection d uid))"

definition newest_connection :: "database \<Rightarrow> uuid \<Rightarrow> connection option" where
  "newest_connection d uid =
     first_max c_created_at (filter (\<lambda>c. c_user_id c = uid) (broker_connections d))"

definition fetch_any_for_user :: "uuid \<Rightarrow> (app_error, connection option) action" where
  "fetch_any_for_user uid = map_errM from_sqlx (select (\<lambda>d. newest_connection d uid))"

definition fetch_by_snaptrade_user :: "string \<Rightarrow> (app_error, connection option) action" where
  "fetch_by_snaptrade_user st_uid =
     map_errM from_sqlx (select (\<lambda>d. find (\<lambda>c. c_snaptrade_user_id c = st_uid) (broker_connections d)))"

definition completed_connection ::
  "instant \<Rightarrow> string \<Rightarrow> string option \<Rightarrow> string option \<Rightarrow> connection \<Rightarrow> connection" where
  "completed_connection now auth slug institution c =
     c\<lparr>c_authorization_id := Some auth,
       c_broker_slug := (case slug of None \<Rightarrow> c_broker_slug c | Some s \<Rightarrow> Some s),
       c_institution_name := (case institution of None \<Rightarrow> c_institution_name c | Some s \<Rightarrow> Some s),
       c_is_active := True, c_disabled := False, c_updated_at := now\<rparr>"

definition mark_completed_sql ::
  "instant \<Rightarrow> uuid \<Rightarrow> string \<Rightarrow> string option \<Rightarrow> string option \<Rightarrow> database \<Rightarrow>
   (sqlx_error + unit) \<times> database" where
  "mark_completed_sql now cid auth slug institution d =
     (let cs = map (\<lambda>c. if c_id c = cid then completed_connection now auth slug institution c else c)
                 (broker_connections d) in
      if connection_indexes cs then (Inr (), d\<lparr>broker_connections := cs\<rparr>)
      else (Inl (Database UniqueViolation), d))"

definition mark_completed ::
  "instant \<Rightarrow> uuid \<Rightarrow> string \<Rightarrow> string option \<Rightarrow> string option \<Rightarrow> (app_error, unit) action" where
  "mark_completed now cid auth slug institution =
     map_errM from_sqlx (query (mark_completed_sql now cid auth slug institution))"

definition deleted_connection :: "instant \<Rightarrow> connection \<Rightarrow> connection" where
  "deleted_connection now c = c\<lparr>c_is_active := False, c_disabled := True, c_updated_at := now\<rparr>"

definition soft_delete_sql ::
  "instant \<Rightarrow> uuid \<Rightarrow> uuid \<Rightarrow> database \<Rightarrow> (sqlx_error + nat) \<times> database" where
  "soft_delete_sql now uid cid d =
     (Inr (length (filter (\<lambda>c. c_id c = cid \<and> c_user_id c = uid) (broker_connections d))),
      d\<lparr>broker_connections :=
          map (\<lambda>c. if c_id c = cid \<and> c_user_id c = uid then deleted_connection now c else c)
            (broker_connections d)\<rparr>)"

definition soft_delete :: "instant \<Rightarrow> uuid \<Rightarrow> uuid \<Rightarrow> (app_error, nat) action" where
  "soft_delete now uid cid = map_errM from_sqlx (query (soft_delete_sql now uid cid))"

definition fetch_by_id_for_user :: "uuid \<Rightarrow> uuid \<Rightarrow> (app_error, connection option) action" where
  "fetch_by_id_for_user uid cid =
     map_errM from_sqlx (select (\<lambda>d. find (\<lambda>c. c_id c = cid \<and> c_user_id c = uid) (broker_connections d)))"

definition linked_connection :: "database \<Rightarrow> uuid \<Rightarrow> string \<Rightarrow> connection option" where
  "linked_connection d uid auth =
     find (\<lambda>c. c_authorization_id c = Some auth \<and> c_user_id c = uid) (broker_connections d)"

definition fetch_by_authorization_id_for_user ::
  "uuid \<Rightarrow> string \<Rightarrow> (app_error, connection option) action" where
  "fetch_by_authorization_id_for_user uid auth =
     map_errM from_sqlx (select (\<lambda>d. linked_connection d uid auth))"

subsection \<open>The invariant\<close>

definition connection_ok :: "database \<Rightarrow> connection \<Rightarrow> bool" where
  "connection_ok d c \<longleftrightarrow>
     user_exists d (c_user_id c) \<and>
     (c_is_active c \<longrightarrow> \<not> c_disabled c \<and> c_authorization_id c \<noteq> None)"

definition connections_inv :: "database \<Rightarrow> bool" where
  "connections_inv d \<longleftrightarrow>
     connection_indexes (broker_connections d) \<and> (\<forall>c\<in>set (broker_connections d). connection_ok d c)"

lemma unique_on_map_fewer:
  assumes "unique_on key rows" "\<And>x. x \<in> set rows \<Longrightarrow> key (f x) = key x \<or> key (f x) = None"
  shows "unique_on key (map f rows)"
proof -
  have "set (List.map_filter key (map f xs)) \<subseteq> set (List.map_filter key xs) \<and>
      (distinct (List.map_filter key xs) \<longrightarrow> distinct (List.map_filter key (map f xs)))"
    if "set xs \<subseteq> set rows" for xs
    using that
  proof (induction xs)
    case Nil
    show ?case by simp
  next
    case (Cons x xs)
    with assms(2) [of x] show ?case by (auto simp: map_filter_Cons split: option.splits)
  qed
  with assms(1) show ?thesis by (simp add: unique_on_def)
qed

lemma user_exists_upd [simp]:
  "user_exists (d\<lparr>broker_connections := cs\<rparr>) uid = user_exists d uid"
  "user_exists (d\<lparr>audit_log := as\<rparr>) uid = user_exists d uid"
  by (simp_all add: user_exists_def)

lemma audit_sql_keeps: "connections_inv d \<Longrightarrow> connections_inv (snd (audit_sql now e d))"
  by (auto simp: audit_sql_def connections_inv_def connection_ok_def)

lemma insert_pending_sql_keeps:
  "connections_inv d \<Longrightarrow> connections_inv (snd (insert_pending_sql row_id now uid st_uid blob d))"
  by (auto simp: insert_pending_sql_def Let_def connections_inv_def connection_ok_def pending_connection_def)

lemma mark_completed_sql_keeps:
  "connections_inv d \<Longrightarrow> connections_inv (snd (mark_completed_sql now cid auth slug inst d))"
  by (auto simp: mark_completed_sql_def Let_def connections_inv_def connection_ok_def completed_connection_def)

lemma deleted_connection_sel [simp]:
  "c_id (deleted_connection now c) = c_id c" "c_user_id (deleted_connection now c) = c_user_id c"
  "c_snaptrade_user_id (deleted_connection now c) = c_snaptrade_user_id c"
  "c_is_active (deleted_connection now c) = False" "c_disabled (deleted_connection now c) = True"
  "c_authorization_id (deleted_connection now c) = c_authorization_id c"
  "c_secret_encrypted (deleted_connection now c) = c_secret_encrypted c"
  by (simp_all add: deleted_connection_def)

lemma soft_delete_indexes:
  assumes "connection_indexes cs"
  shows "connection_indexes (map (\<lambda>c. if P c then deleted_connection now c else c) cs)"
proof -
  from assms have "unique_on active_key cs" by (simp add: connection_indexes_def)
  then have "unique_on active_key (map (\<lambda>c. if P c then deleted_connection now c else c) cs)"
    by (rule unique_on_map_fewer) (auto simp: active_key_def)
  with assms show ?thesis by (simp add: connection_indexes_def unique_on_map_same)
qed

lemma soft_delete_sql_keeps:
  assumes "connections_inv d"
  shows "connections_inv (snd (soft_delete_sql now uid cid d))"
  using assms soft_delete_indexes [of "broker_connections d" "\<lambda>c. c_id c = cid \<and> c_user_id c = uid" now]
  by (auto simp: soft_delete_sql_def connections_inv_def connection_ok_def)

lemma keeps_record_event [keeps_intros]: "keeps connections_inv (record_event now e)"
  unfolding record_event_def by (intro keeps_intros audit_sql_keeps)

lemma keeps_insert_pending [keeps_intros]: "keeps connections_inv (insert_pending r now uid s b)"
  unfolding insert_pending_def by (intro keeps_intros insert_pending_sql_keeps)

lemma keeps_mark_completed [keeps_intros]: "keeps connections_inv (mark_completed now cid a s i)"
  unfolding mark_completed_def by (intro keeps_intros mark_completed_sql_keeps)

lemma keeps_soft_delete [keeps_intros]: "keeps connections_inv (soft_delete now uid cid)"
  unfolding soft_delete_def by (intro keeps_intros soft_delete_sql_keeps)

lemma keeps_fetch [keeps_intros]:
  "keeps P (fetch_any_for_user uid)" "keeps P (fetch_active_for_user uid)"
  "keeps P (fetch_by_authorization_id_for_user uid a)"
  unfolding fetch_any_for_user_def fetch_active_for_user_def fetch_by_authorization_id_for_user_def
  by (intro keeps_intros)+

subsection \<open>Runs of statements\<close>

text \<open>Requests run concurrently, so what they do to the table is any sequence of the statements.\<close>

inductive connection_step :: "database \<Rightarrow> database \<Rightarrow> bool" where
  conn_insert: "connection_step d (snd (insert_pending_sql row_id now uid st_uid blob d))"
| conn_complete: "connection_step d (snd (mark_completed_sql now cid auth slug inst d))"
| conn_delete: "connection_step d (snd (soft_delete_sql now uid cid d))"
| conn_audit: "connection_step d (snd (audit_sql now e d))"

text \<open>What stays of a connection: its row, its owner and the credentials.\<close>

definition same_credentials :: "connection \<Rightarrow> connection \<Rightarrow> bool" where
  "same_credentials a b \<longleftrightarrow>
     c_id a = c_id b \<and> c_user_id a = c_user_id b \<and> c_snaptrade_user_id a = c_snaptrade_user_id b \<and>
     c_secret_encrypted a = c_secret_encrypted b"

definition connections_kept :: "database \<Rightarrow> database \<Rightarrow> bool" where
  "connections_kept d d' \<longleftrightarrow>
     (\<forall>c\<in>set (broker_connections d). \<exists>c'\<in>set (broker_connections d'). same_credentials c c') \<and>
     (\<exists>as. audit_log d' = audit_log d @ as)"

lemma connections_kept_refl: "connections_kept d d"
  by (auto simp: connections_kept_def same_credentials_def)

lemma connections_kept_map:
  "(\<And>c. same_credentials c (f c)) \<Longrightarrow> broker_connections d' = map f (broker_connections d) \<Longrightarrow>
     audit_log d' = audit_log d \<Longrightarrow> connections_kept d d'"
  by (auto simp: connections_kept_def)

lemma connections_kept_step: "connection_step d d' \<Longrightarrow> connections_kept d d'"
proof (induction rule: connection_step.induct)
  case (conn_insert d row_id now uid st_uid blob)
  then show ?case
    by (auto simp: insert_pending_sql_def Let_def connections_kept_def same_credentials_def)
next
  case (conn_complete d now cid auth slug inst)
  show ?case
  proof (cases "fst (mark_completed_sql now cid auth slug inst d)")
    case (Inl e)
    then show ?thesis
      by (auto simp: mark_completed_sql_def Let_def connections_kept_refl split: if_splits)
  next
    case (Inr u)
    then show ?thesis
      by (intro connections_kept_map [where f = "\<lambda>c. if c_id c = cid then completed_connection now auth slug inst c else c"])
         (auto simp: mark_completed_sql_def Let_def same_credentials_def completed_connection_def split: if_splits)
  qed
next
  case (conn_delete d now uid cid)
  show ?case
    by (rule connections_kept_map
        [where f = "\<lambda>c. if c_id c = cid \<and> c_user_id c = uid then deleted_connection now c else c"])
       (auto simp: soft_delete_sql_def same_credentials_def)
next
  case (conn_audit d now e)
  show ?case by (auto simp: audit_sql_def connections_kept_def same_credentials_def)
qed

lemma connection_step_inv: "connection_step d d' \<Longrightarrow> connections_inv d \<Longrightarrow> connections_inv d'"
  by (induction rule: connection_step.induct)
     (auto intro: insert_pending_sql_keeps mark_completed_sql_keeps soft_delete_sql_keeps audit_sql_keeps)

lemma same_credentials_trans: "same_credentials a b \<Longrightarrow> same_credentials b c \<Longrightarrow> same_credentials a c"
  by (simp add: same_credentials_def)

lemma connections_kept_trans:
  assumes "connections_kept d e" "connections_kept e f"
  shows "connections_kept d f"
  unfolding connections_kept_def
proof (intro conjI ballI)
  fix c assume "c \<in> set (broker_connections d)"
  then obtain c1 where "c1 \<in> set (broker_connections e)" "same_credentials c c1"
    using assms(1) by (auto simp: connections_kept_def)
  moreover from this(1) obtain c2 where "c2 \<in> set (broker_connections f)" "same_credentials c1 c2"
    using assms(2) by (auto simp: connections_kept_def)
  ultimately show "\<exists>c'\<in>set (broker_connections f). same_credentials c c'"
    by (blast intro: same_credentials_trans)
next
  show "\<exists>as. audit_log f = audit_log d @ as" using assms by (auto simp: connections_kept_def)
qed

interpretation connections: progress_system connections_inv connection_step connections_inv connections_kept
  by unfold_locales
     (auto intro: connection_step_inv connections_kept_refl connections_kept_trans connections_kept_step)

lemma active_unique:
  assumes "connections_inv d" "a \<in> set (broker_connections d)" "b \<in> set (broker_connections d)"
    "c_is_active a" "c_is_active b" "c_user_id a = c_user_id b"
  shows "a = b"
  using assms unique_onD [of active_key "broker_connections d" a b "c_user_id a"]
  by (simp add: connections_inv_def connection_indexes_def active_key_def)

lemma connection_by_id:
  assumes "connections_inv d" "a \<in> set (broker_connections d)" "b \<in> set (broker_connections d)" "c_id a = c_id b"
  shows "a = b"
proof -
  from assms(1) have "unique_on (\<lambda>c. Some (c_id c)) (broker_connections d)"
    by (simp add: connections_inv_def connection_indexes_def)
  from unique_onD [OF this assms(2,3), of "c_id b"] assms(4) show ?thesis by simp
qed

lemma newest_connection_in:
  "newest_connection d uid = Some c \<Longrightarrow> c \<in> set (broker_connections d) \<and> c_user_id c = uid"
  by (auto simp: newest_connection_def dest: first_max_in)

lemma linked_connection_in:
  "linked_connection d uid a = Some c \<Longrightarrow>
     c \<in> set (broker_connections d) \<and> c_user_id c = uid \<and> c_authorization_id c = Some a"
  by (auto simp: linked_connection_def dest: find_Some_iff_set)

end
