(* ===== verification/Login_Limiter.thy ===== *)
theory Login_Limiter
  imports Rust_Prelude Machines
begin

text \<open>
  The per-user limit on login-portal requests (\<^verbatim>\<open>src/snaptrade/rate_limit.rs\<close>): a map from users to
  the times of their admitted calls of the last hour.  The mutex makes a call one step, so a run
  of the limiter is a sequence of calls.  Their times are assumed not to run backwards: the code
  reads the clock before it takes the mutex, so two calls that race for it at the same moment may
  enter it in the other order, which the theorems leave out.
\<close>

definition WINDOW :: int where
  "WINDOW = 3600 * 1000000000"

definition MAX_PER_WINDOW :: nat where
  "MAX_PER_WINDOW = 10"

type_synonym limiter = "uuid \<Rightarrow> instant list option"

definition slots_of :: "limiter \<Rightarrow> uuid \<Rightarrow> instant list" where
  "slots_of m uid = (case m uid of None \<Rightarrow> [] | Some ts \<Rightarrow> ts)"

definition retain_after :: "instant \<Rightarrow> instant list \<Rightarrow> instant list" where
  "retain_after cutoff ts = filter (\<lambda>t. cutoff < t) ts"

text \<open>\<open>Err\<close> carries the time until the next slot frees up.\<close>

definition check_limit :: "instant \<Rightarrow> uuid \<Rightarrow> limiter \<Rightarrow> (int + unit) \<times> limiter" where
  "check_limit now uid m =
     (let slots = retain_after (now - WINDOW) (slots_of m uid) in
      if MAX_PER_WINDOW \<le> length slots then
        (let oldest = (case slots of [] \<Rightarrow> now | t # _ \<Rightarrow> t) in
         (Inl (max (oldest + WINDOW - now) 0), m(uid \<mapsto> slots)))
      else (Inr (), m(uid \<mapsto> slots @ [now])))"

definition sweep :: "instant \<Rightarrow> limiter \<Rightarrow> limiter" where
  "sweep now m uid =
     (case m uid of
        None \<Rightarrow> None
      | Some ts \<Rightarrow>
          (let slots = retain_after (now - WINDOW) ts in if slots = [] then None else Some slots))"

subsection \<open>Runs\<close>

datatype limiter_op = Check (op_time: instant) uuid | Sweep (op_time: instant)

fun run_limiter :: "limiter_op list \<Rightarrow> limiter \<Rightarrow> (int + unit) list \<times> limiter" where
  "run_limiter [] m = ([], m)"
| "run_limiter (Check now uid # ops) m =
     (case check_limit now uid m of (r, m1) \<Rightarrow>
        (case run_limiter ops m1 of (rs, m2) \<Rightarrow> (r # rs, m2)))"
| "run_limiter (Sweep now # ops) m = run_limiter ops (sweep now m)"

text \<open>The specification remembers every admitted call and never forgets one.\<close>

type_synonym call_history = "(uuid \<times> instant) list"

definition times_of :: "call_history \<Rightarrow> uuid \<Rightarrow> instant list" where
  "times_of h uid = map snd (filter (\<lambda>(u, t). u = uid) h)"

definition spec_check :: "instant \<Rightarrow> uuid \<Rightarrow> call_history \<Rightarrow> (int + unit) \<times> call_history" where
  "spec_check now uid h =
     (let recent = filter (\<lambda>t. now - WINDOW < t) (times_of h uid) in
      if length recent < 10 then (Inr (), h @ [(uid, now)])
      else (Inl (hd recent + WINDOW - now), h))"

fun run_spec :: "limiter_op list \<Rightarrow> call_history \<Rightarrow> (int + unit) list \<times> call_history" where
  "run_spec [] h = ([], h)"
| "run_spec (Check now uid # ops) h =
     (case spec_check now uid h of (r, h1) \<Rightarrow>
        (case run_spec ops h1 of (rs, h2) \<Rightarrow> (r # rs, h2)))"
| "run_spec (Sweep now # ops) h = run_spec ops h"

subsection \<open>Simulation\<close>

text \<open>From a time on, the limiter and the history have the same recent calls.\<close>

definition tracks :: "instant \<Rightarrow> limiter \<Rightarrow> call_history \<Rightarrow> bool" where
  "tracks t0 m h \<longleftrightarrow>
     (\<forall>uid c. t0 - WINDOW \<le> c \<longrightarrow> retain_after c (slots_of m uid) = retain_after c (times_of h uid))"

lemma times_of_snoc: "times_of (h @ [(u, t)]) uid = times_of h uid @ (if u = uid then [t] else [])"
  by (simp add: times_of_def)

lemma retain_after_append [simp]: "retain_after c (xs @ ys) = retain_after c xs @ retain_after c ys"
  by (simp add: retain_after_def)

lemma retain_after_Nil [simp]: "retain_after c [] = []"
  by (simp add: retain_after_def)

lemma retain_after_twice: "c \<le> c' \<Longrightarrow> retain_after c' (retain_after c ts) = retain_after c' ts"
  unfolding retain_after_def filter_filter by (rule filter_cong) auto

lemma slots_of_upd: "slots_of (m(u \<mapsto> ts)) uid = (if uid = u then ts else slots_of m uid)"
  by (simp add: slots_of_def)

lemma slots_of_sweep: "slots_of (sweep now m) uid = retain_after (now - WINDOW) (slots_of m uid)"
  by (simp add: slots_of_def sweep_def Let_def retain_after_def split: option.splits)

lemma tracks_later: "tracks t0 m h \<Longrightarrow> t0 \<le> now \<Longrightarrow> tracks now m h"
  by (simp add: tracks_def)

lemma tracks_empty: "tracks t0 (\<lambda>_. None) []"
  by (simp add: tracks_def slots_of_def times_of_def)

lemma tracks_sweep: "tracks now m h \<Longrightarrow> tracks now (sweep now m) h"
  by (simp add: tracks_def slots_of_sweep retain_after_twice)

lemma tracks_check:
  assumes "tracks now m h"
  shows "fst (check_limit now uid m) = fst (spec_check now uid h)"
    and "tracks now (snd (check_limit now uid m)) (snd (spec_check now uid h))"
proof -
  let ?s = "retain_after (now - WINDOW) (slots_of m uid)"
  have s: "filter (\<lambda>t. now - WINDOW < t) (times_of h uid) = ?s"
    using assms by (simp add: tracks_def retain_after_def)
  have "0 \<le> hd ?s + WINDOW - now" if "?s \<noteq> []"
    using hd_in_set [OF that] by (simp add: retain_after_def)
  then show "fst (check_limit now uid m) = fst (spec_check now uid h)"
    by (auto simp: check_limit_def spec_check_def s Let_def MAX_PER_WINDOW_def split: list.splits)
  show "tracks now (snd (check_limit now uid m)) (snd (spec_check now uid h))"
    using assms
    by (auto simp: check_limit_def spec_check_def s Let_def MAX_PER_WINDOW_def tracks_def
        slots_of_upd times_of_snoc retain_after_twice)
qed

lemma run_limiter_spec:
  "sorted (map op_time ops) \<Longrightarrow> tracks t0 m h \<Longrightarrow> \<forall>p\<in>set ops. t0 \<le> op_time p \<Longrightarrow>
     fst (run_limiter ops m) = fst (run_spec ops h)"
proof (induction ops arbitrary: t0 m h)
  case Nil
  show ?case by simp
next
  case (Cons p ops)
  then have t: "tracks (op_time p) m h" "sorted (map op_time ops)" "\<forall>q\<in>set ops. op_time p \<le> op_time q"
    by (auto intro: tracks_later)
  show ?case
  proof (cases p)
    case (Check now uid)
    with t tracks_check [of now m h uid]
      Cons.IH [of now "snd (check_limit now uid m)" "snd (spec_check now uid h)"]
    show ?thesis by (simp add: case_prod_beta)
  next
    case (Sweep now)
    with t Cons.IH [of now "sweep now m" h] show ?thesis by (simp add: tracks_sweep)
  qed
qed

subsection \<open>The bound\<close>

definition in_window :: "instant \<Rightarrow> instant \<Rightarrow> bool" where
  "in_window c t \<longleftrightarrow> c < t \<and> t \<le> c + WINDOW"

definition bounded_calls :: "instant \<Rightarrow> call_history \<Rightarrow> bool" where
  "bounded_calls t0 h \<longleftrightarrow>
     (\<forall>(u, t)\<in>set h. t \<le> t0) \<and> (\<forall>uid c. length (filter (in_window c) (times_of h uid)) \<le> 10)"

lemma length_filter_mono: "(\<And>x. x \<in> set xs \<Longrightarrow> P x \<Longrightarrow> Q x) \<Longrightarrow> length (filter P xs) \<le> length (filter Q xs)"
  by (induction xs) auto

lemma bounded_calls_later: "bounded_calls t0 h \<Longrightarrow> t0 \<le> now \<Longrightarrow> bounded_calls now h"
  by (fastforce simp: bounded_calls_def)

lemma bounded_calls_check:
  assumes b: "bounded_calls now h"
  shows "bounded_calls now (snd (spec_check now uid h))"
proof (cases "length (filter (\<lambda>t. now - WINDOW < t) (times_of h uid)) < 10")
  case False
  with b show ?thesis by (simp add: spec_check_def Let_def)
next
  case True
  have "length (filter (in_window c) (times_of (h @ [(uid, now)]) v)) \<le> 10" for v c
  proof (cases "v = uid \<and> in_window c now")
    case in_w: True
    then have "length (filter (in_window c) (times_of h uid)) \<le>
        length (filter (\<lambda>t. now - WINDOW < t) (times_of h uid))"
      by (intro length_filter_mono) (auto simp: in_window_def)
    with True in_w show ?thesis by (simp add: times_of_snoc)
  next
    case False
    with b show ?thesis by (auto simp: times_of_snoc bounded_calls_def)
  qed
  with True b show ?thesis by (auto simp: spec_check_def Let_def bounded_calls_def)
qed

lemma run_spec_bounded:
  "sorted (map op_time ops) \<Longrightarrow> bounded_calls t0 h \<Longrightarrow> \<forall>p\<in>set ops. t0 \<le> op_time p \<Longrightarrow>
     \<exists>t1. bounded_calls t1 (snd (run_spec ops h))"
proof (induction ops arbitrary: t0 h)
  case Nil
  then show ?case by auto
next
  case (Cons p ops)
  then have t: "bounded_calls (op_time p) h" "sorted (map op_time ops)"
    "\<forall>q\<in>set ops. op_time p \<le> op_time q"
    by (auto intro: bounded_calls_later)
  show ?case
  proof (cases p)
    case (Check now uid)
    with t bounded_calls_check [of now h uid] Cons.IH [of now "snd (spec_check now uid h)"]
    show ?thesis by (simp add: case_prod_beta)
  next
    case (Sweep now)
    with t Cons.IH [of now h] show ?thesis by simp
  qed
qed

subsection \<open>Reachable limiters\<close>

text \<open>The state is the limiter with the time of its last use.\<close>

inductive limiter_step :: "instant \<times> limiter \<Rightarrow> instant \<times> limiter \<Rightarrow> bool" where
  step_check: "t0 \<le> now \<Longrightarrow> limiter_step (t0, m) (now, snd (check_limit now uid m))"
| step_sweep: "t0 \<le> now \<Longrightarrow> limiter_step (t0, m) (now, sweep now m)"

text \<open>What the slots of one user satisfy, and that dropping old entries keeps it.\<close>

definition slots_ok :: "instant \<Rightarrow> instant list \<Rightarrow> bool" where
  "slots_ok now ts \<longleftrightarrow> sorted ts \<and> length ts \<le> 10 \<and> (\<forall>t\<in>set ts. t \<le> now)"

lemma slots_ok_retain:
  assumes "slots_ok t0 ts" "t0 \<le> now"
  shows "slots_ok now (retain_after c ts)"
proof -
  have "length (retain_after c ts) \<le> length ts" by (simp add: retain_after_def)
  moreover from assms(1) have "sorted (retain_after c ts)"
    by (simp add: slots_ok_def retain_after_def sorted_wrt_filter)
  moreover have "\<forall>t\<in>set (retain_after c ts). t \<le> now"
    using assms by (auto simp: slots_ok_def retain_after_def)
  ultimately show ?thesis using assms(1) by (simp add: slots_ok_def)
qed

lemma slots_ok_push: "slots_ok now ts \<Longrightarrow> length ts < 10 \<Longrightarrow> slots_ok now (ts @ [now])"
  by (auto simp: slots_ok_def sorted_append)

lemma slots_ok_later: "slots_ok t0 ts \<Longrightarrow> t0 \<le> now \<Longrightarrow> slots_ok now ts"
  by (auto simp: slots_ok_def)

definition limiter_inv :: "instant \<times> limiter \<Rightarrow> bool" where
  "limiter_inv s \<longleftrightarrow> (\<forall>uid. slots_ok (fst s) (slots_of (snd s) uid))"

lemma limiter_inv_check:
  assumes "limiter_inv (t0, m)" "t0 \<le> now"
  shows "limiter_inv (now, snd (check_limit now uid m))"
proof -
  from assms have s: "slots_ok now (retain_after (now - WINDOW) (slots_of m v))"
    "slots_ok now (slots_of m v)" for v
    by (auto simp: limiter_inv_def intro: slots_ok_retain slots_ok_later)
  with slots_ok_push [OF s(1)] show ?thesis
    by (simp add: limiter_inv_def check_limit_def Let_def slots_of_upd MAX_PER_WINDOW_def)
qed

lemma limiter_inv_sweep: "limiter_inv (t0, m) \<Longrightarrow> t0 \<le> now \<Longrightarrow> limiter_inv (now, sweep now m)"
  by (auto simp: limiter_inv_def slots_of_sweep intro: slots_ok_retain)

interpretation login_limits: invariant_system "\<lambda>s. snd s = (\<lambda>_. None)" limiter_step limiter_inv
proof
  show "limiter_inv s" if "snd s = (\<lambda>_. None)" for s using that by (simp add: limiter_inv_def slots_of_def slots_ok_def)
  show "limiter_inv t" if "limiter_inv s" "limiter_step s t" for s t
    using that(2,1) by (induction rule: limiter_step.induct) (auto intro: limiter_inv_check limiter_inv_sweep)
qed

lemma retain_nonempty_hd:
  assumes "slots_ok now ts" "ts = t # us"
  shows "retain_after c ts = (if c < t then ts else retain_after c us)"
proof (cases "c < t")
  case True
  with assms have "\<forall>x\<in>set ts. c < x" by (auto simp: slots_ok_def)
  with True show ?thesis by (simp add: retain_after_def)
next
  case False
  with assms(2) show ?thesis by (simp add: retain_after_def)
qed

text \<open>A refused call leaves exactly ten calls in the window.\<close>

lemma check_refused:
  assumes "limiter_inv (t0, m)" "t0 \<le> now" "check_limit now uid m = (Inl d, m')"
  obtains t us where "slots_of m' uid = t # us" "length us = 9" "d = t + WINDOW - now" "0 < d"
    "slots_ok now (t # us)"
proof -
  define ts where "ts = retain_after (now - WINDOW) (slots_of m uid)"
  have ok: "slots_ok now ts"
    using assms(1,2) unfolding ts_def limiter_inv_def by (auto intro: slots_ok_retain)
  have big: "10 \<le> length ts" "slots_of m' uid = ts"
    "d = max ((case ts of [] \<Rightarrow> now | t # _ \<Rightarrow> t) + WINDOW - now) 0"
    using assms(3) unfolding ts_def
    by (auto simp: check_limit_def Let_def MAX_PER_WINDOW_def slots_of_upd split: if_splits)
  with ok obtain t us where ts: "ts = t # us" "length us = 9"
    by (cases ts) (auto simp: slots_ok_def)
  then have "t \<in> set ts" by simp
  then have "now - WINDOW < t" unfolding ts_def by (simp add: retain_after_def)
  with big ts ok that show thesis by simp
qed

subsection \<open>Properties\<close>

text \<open>C31: the login-portal limit is exactly ten per rolling hour and user.  Over any run of calls
  and sweeps the limiter answers what a limiter with an unbounded memory answers - a call is
  admitted if and only if fewer than ten calls of the same user were admitted in the hour before
  it - and no user ever has more than ten admitted calls in any hour.\<close>

theorem login_limiter_window:
  assumes "sorted (map op_time ops)"
  shows "fst (run_limiter ops (\<lambda>_. None)) = fst (run_spec ops []) \<and>
     (\<forall>uid c. length (filter (in_window c) (times_of (snd (run_spec ops [])) uid)) \<le> 10)"
proof (cases ops)
  case Nil
  then show ?thesis by (simp add: times_of_def)
next
  case (Cons p ps)
  with assms have t: "\<forall>q\<in>set ops. op_time p \<le> op_time q" by auto
  have "bounded_calls (op_time p) []" by (simp add: bounded_calls_def times_of_def)
  from run_spec_bounded [OF assms this t] run_limiter_spec [OF assms tracks_empty t]
  show ?thesis by (auto simp: bounded_calls_def)
qed

theorem login_limiter_window_witness:
  "fst (run_limiter (replicate 11 (Check 5 1) @ [Check 6 2, Sweep 7, Check 3600000000005 1]) (\<lambda>_. None)) =
     replicate 10 (Inr ()) @ [Inl 3600000000000, Inr (), Inr ()]"
proof -
  let ?ops = "replicate 11 (Check 5 1) @ [Check 6 2, Sweep 7, Check 3600000000005 1]"
  have "sorted (map op_time ?ops)" by (simp add: sorted_append)
  from login_limiter_window [OF this]
  have "fst (run_limiter ?ops (\<lambda>_. None)) = fst (run_spec ?ops [])" by blast
  also have "\<dots> = replicate 10 (Inr ()) @ [Inl 3600000000000, Inr (), Inr ()]"
    by (simp add: eval_nat_numeral spec_check_def times_of_def WINDOW_def)
  finally show ?thesis .
qed

text \<open>The retry time is exact.  A refused user, who makes no other call, is refused at every
  instant before the announced delay has passed, and admitted from then on; the delay is never
  zero.\<close>

theorem login_limiter_retry_exact:
  assumes "reachable (\<lambda>s. snd s = (\<lambda>_. None)) limiter_step (t0, m)" "t0 \<le> now"
    and "check_limit now uid m = (Inl d, m')" "now \<le> later"
  shows "0 < d \<and> (fst (check_limit later uid m') = Inr () \<longleftrightarrow> now + d \<le> later)"
proof -
  obtain t us where s: "slots_of m' uid = t # us" "length us = 9" "d = t + WINDOW - now" "0 < d"
    "slots_ok now (t # us)"
    using check_refused [OF login_limits.reachable_inv [OF assms(1)] assms(2,3)] by blast
  have "length (retain_after c us) < 10" for c
    using s(2) length_filter_le [of "\<lambda>t. c < t" us] by (simp add: retain_after_def)
  then have "length (retain_after (later - WINDOW) (t # us)) < 10 \<longleftrightarrow> now + d \<le> later"
    unfolding retain_nonempty_hd [OF s(5) refl] using s(2,3) by auto
  with s(1,4) show ?thesis by (auto simp: check_limit_def Let_def MAX_PER_WINDOW_def)
qed

text \<open>Ten calls at one instant fill the window.\<close>

lemma ten_calls:
  "run_limiter (replicate 10 (Check 5 1)) (\<lambda>_. None) =
     (replicate 10 (Inr ()), (\<lambda>_. None)(1 \<mapsto> replicate 10 5))"
  by (simp add: eval_nat_numeral check_limit_def slots_of_def retain_after_def MAX_PER_WINDOW_def WINDOW_def)

lemma run_limiter_reachable:
  "reachable init limiter_step (now, m) \<Longrightarrow>
     reachable init limiter_step (now, snd (run_limiter (replicate n (Check now uid)) m))"
proof (induction n arbitrary: m)
  case 0
  then show ?case by simp
next
  case (Suc n)
  then have "reachable init limiter_step (now, snd (check_limit now uid m))"
    by (blast intro: reach_step step_check)
  from Suc.IH [OF this] show ?case by (simp add: case_prod_beta)
qed

theorem login_limiter_retry_exact_witness:
  "\<exists>m m'. check_limit 6 1 m = (Inl 3599999999999, m') \<and>
     fst (check_limit 3600000000004 1 m') \<noteq> Inr () \<and> fst (check_limit 3600000000005 1 m') = Inr ()"
proof -
  let ?m = "(\<lambda>_. None)(1 \<mapsto> replicate 10 5) :: limiter"
  have "reachable (\<lambda>s. snd s = (\<lambda>_. None)) limiter_step (5, ?m)"
    using run_limiter_reachable [of _ 5 "\<lambda>_. None" 10 1] by (simp add: ten_calls reach_init)
  moreover have "check_limit 6 1 ?m = (Inl 3599999999999, ?m)"
    by (simp add: eval_nat_numeral check_limit_def slots_of_def retain_after_def MAX_PER_WINDOW_def WINDOW_def)
  ultimately show ?thesis
    using login_limiter_retry_exact [of 5 ?m 6 1 3599999999999 ?m 3600000000004]
      login_limiter_retry_exact [of 5 ?m 6 1 3599999999999 ?m 3600000000005] by auto
qed

end
