(* ===== verification/Snaptrade_Handlers.thy ===== *)
theory Snaptrade_Handlers
  imports Snaptrade_Client Snaptrade_Connections Login_Limiter
begin

text \<open>
  The brokerage endpoints (\<^verbatim>\<open>src/snaptrade/handlers.rs\<close>): the login portal, the public callback, and
  the list, refresh and delete operations.  What the handlers take from the application state and
  from other packages (URL editing, date parsing, the text of a UUID) is in \<open>broker_env\<close>; the random
  values a request draws are arguments.  A failure event that the callback spawns is written at
  once.
\<close>

record broker_env =
  be_st :: st_env
  be_client :: st_client
  be_aead :: aead
  be_key :: encryption_key
  be_jwt :: jwt_env
  be_state_secret :: string
  be_redirect_uri :: string
  be_with_state :: "string \<Rightarrow> string \<Rightarrow> string option"
  be_parse_date :: "string \<Rightarrow> instant option"
  be_uuid_text :: "uuid \<Rightarrow> string"

definition from_encryption :: "encryption_error \<Rightarrow> app_error" where
  "from_encryption e = internal ''broker integration error''"

definition PORTAL_TTL_MINUTES :: int where
  "PORTAL_TTL_MINUTES = 5"

definition ACTIVITIES_DEFAULT_LIMIT :: nat where
  "ACTIVITIES_DEFAULT_LIMIT = 25"

definition ACTIVITIES_MAX_LIMIT :: nat where
  "ACTIVITIES_MAX_LIMIT = 100"

subsection \<open>The login portal\<close>

record login_portal_response =
  lp_url :: string
  lp_expires_at :: instant

definition secret_of :: "broker_env \<Rightarrow> connection \<Rightarrow> app_error + utext" where
  "secret_of x row = map_err from_encryption (decrypt (be_aead x) (be_key x) (c_secret_encrypted row))"

definition initiated_event :: "uuid \<Rightarrow> string \<Rightarrow> audit_event" where
  "initiated_event uid st_uid =
     event_data (JObj [(''snaptrade_user_id'', JStr st_uid)])
       (event_user uid (new_event ''broker.connect.initiated''))"

definition register_and_store ::
  "broker_env \<Rightarrow> instant \<Rightarrow> byte list \<Rightarrow> uuid \<Rightarrow> user \<Rightarrow> (app_error, string \<times> utext) action" where
  "register_and_store x now nonce row_id u =
     bindM (of_result (map_err from_snaptrade
              (register_user (be_st x) (be_client x) now (be_uuid_text x (u_id u))))) (\<lambda>resp.
     bindM (discard (record_event now (initiated_event (u_id u) (reg_user_id resp)))) (\<lambda>_.
     bindM (of_result (map_err from_encryption
              (encrypt (be_aead x) (be_key x) nonce (reg_user_secret resp)))) (\<lambda>blob.
     bindM (insert_pending row_id now (u_id u) (reg_user_id resp) blob) (\<lambda>_.
       pure (reg_user_id resp, reg_user_secret resp)))))"

definition portal_credentials ::
  "broker_env \<Rightarrow> instant \<Rightarrow> byte list \<Rightarrow> uuid \<Rightarrow> user \<Rightarrow> (app_error, string \<times> utext) action" where
  "portal_credentials x now nonce row_id u =
     bindM (fetch_any_for_user (u_id u)) (\<lambda>stored.
       case stored of
         Some row \<Rightarrow> bindM (of_result (secret_of x row)) (\<lambda>s. pure (c_snaptrade_user_id row, s))
       | None \<Rightarrow> register_and_store x now nonce row_id u)"

definition portal_url ::
  "broker_env \<Rightarrow> instant \<Rightarrow> uuid \<Rightarrow> user \<Rightarrow> string \<times> utext \<Rightarrow> app_error + login_portal_response" where
  "portal_url x now token_nonce u cred =
     and_then (issue (be_jwt x) now token_nonce (u_id u) (be_state_secret x)) (\<lambda>tok.
     and_then (ok_or (internal ''broker integration misconfigured'')
                 (be_with_state x (be_redirect_uri x) tok)) (\<lambda>redirect.
     and_then (map_err from_snaptrade
                 (login_user (be_st x) (be_client x) now (fst cred) (snd cred) redirect)) (\<lambda>login.
       Inr \<lparr>lp_url = login_redirect_uri login,
            lp_expires_at = now + PORTAL_TTL_MINUTES * 60 * 1000000000\<rparr>)))"

definition open_portal ::
  "broker_env \<Rightarrow> instant \<Rightarrow> byte list \<Rightarrow> uuid \<Rightarrow> uuid \<Rightarrow> user \<Rightarrow>
   (app_error, login_portal_response) action" where
  "open_portal x now nonce token_nonce row_id u =
     bindM (portal_credentials x now nonce row_id u) (\<lambda>cred.
       of_result (portal_url x now token_nonce u cred))"

text \<open>The limiter is a part of the application state next to the database.\<close>

definition login_portal ::
  "broker_env \<Rightarrow> instant \<Rightarrow> byte list \<Rightarrow> uuid \<Rightarrow> uuid \<Rightarrow> user \<Rightarrow> limiter \<Rightarrow> world \<Rightarrow>
   ((app_error + login_portal_response) \<times> world) \<times> limiter" where
  "login_portal x now nonce token_nonce row_id u m w =
     (case check_limit now (u_id u) m of
        (Inl retry_after, m') \<Rightarrow>
          (throw (new_error TooManyRequests ''too many login-portal requests; try again later'') w, m')
      | (Inr _, m') \<Rightarrow> (open_portal x now nonce token_nonce row_id u w, m'))"

subsection \<open>The callback\<close>

record callback_query =
  cb_state :: "string option"
  cb_user_id :: "string option"

datatype page = Success_Html | Connection_Failed_Html

definition failure_event :: "uuid option \<Rightarrow> string \<Rightarrow> nat option \<Rightarrow> audit_event" where
  "failure_event uid code status =
     (let data = JObj ([(''error_code'', JStr code)] @
              (case status of None \<Rightarrow> [] | Some s \<Rightarrow> [(''snaptrade_status'', JInt (int s))]));
          e = new_event ''broker.connect.failed'' in
      case uid of Some i \<Rightarrow> event_data data (event_user i e) | None \<Rightarrow> event_data data e)"

definition record_failure_locked ::
  "instant \<Rightarrow> uuid option \<Rightarrow> string \<Rightarrow> nat option \<Rightarrow> ('e, unit) action" where
  "record_failure_locked now uid code status = discard (record_event now (failure_event uid code status))"

definition fail_with :: "instant \<Rightarrow> uuid option \<Rightarrow> string \<Rightarrow> app_error \<Rightarrow> (app_error, 'a) action" where
  "fail_with now uid code e = bindM (record_failure_locked now uid code None) (\<lambda>_. throw e)"

definition callback_user :: "broker_env \<Rightarrow> instant \<Rightarrow> callback_query \<Rightarrow> (app_error, uuid) action" where
  "callback_user x now q =
     (case cb_state q of
        None \<Rightarrow> fail_with now None ''missing_state'' (bad_request ''missing state token'')
      | Some tok \<Rightarrow>
          (case verify_state (be_jwt x) now tok (be_state_secret x) of
             Inl e \<Rightarrow> fail_with now None ''bad_state'' e
           | Inr claims \<Rightarrow> pure (sc_sub claims)))"

definition callback_row ::
  "instant \<Rightarrow> callback_query \<Rightarrow> uuid \<Rightarrow> (app_error, connection) action" where
  "callback_row now q uid =
     bindM (fetch_any_for_user uid) (\<lambda>found.
       case found of
         None \<Rightarrow> fail_with now (Some uid) ''no_pending_connection''
                   (bad_request ''no pending connection for this user'')
       | Some row \<Rightarrow>
           (case cb_user_id q of
              None \<Rightarrow> pure row
            | Some returned \<Rightarrow>
                if returned \<noteq> c_snaptrade_user_id row
                then fail_with now (Some uid) ''user_id_mismatch'' (bad_request ''snaptrade userId mismatch'')
                else pure row))"

definition callback_authorizations ::
  "broker_env \<Rightarrow> instant \<Rightarrow> uuid \<Rightarrow> connection \<Rightarrow> (app_error, st_authorization list) action" where
  "callback_authorizations x now uid row =
     bindM (of_result (secret_of x row)) (\<lambda>secret.
       case list_authorizations (be_st x) (be_client x) now (c_snaptrade_user_id row) secret of
         Inl e \<Rightarrow> fail_with now (Some uid) ''list_authorizations_failed'' (from_snaptrade e)
       | Inr auths \<Rightarrow> pure auths)"

definition created_at :: "(string \<Rightarrow> instant option) \<Rightarrow> st_authorization \<Rightarrow> instant option" where
  "created_at parse a = Option.bind (au_created_date a) parse"

definition pick_newest_authorization ::
  "(string \<Rightarrow> instant option) \<Rightarrow> st_authorization list \<Rightarrow> string option \<Rightarrow> st_authorization option" where
  "pick_newest_authorization parse auths existing_id =
     map_option snd (first_max (\<lambda>(i, a). (created_at parse a, i))
       (filter (\<lambda>(_, a). case existing_id of None \<Rightarrow> True | Some e \<Rightarrow> au_id a \<noteq> e)
          (List.enumerate 0 auths)))"

definition completed_event :: "uuid \<Rightarrow> string \<Rightarrow> string option \<Rightarrow> audit_event" where
  "completed_event uid auth slug =
     event_data (JObj [(''authorization_id'', JStr auth),
         (''broker_slug'', case slug of None \<Rightarrow> JNull | Some s \<Rightarrow> JStr s)])
       (event_user uid (new_event ''broker.connect.completed''))"

definition institution_of :: "st_authorization \<Rightarrow> string option" where
  "institution_of a =
     (case au_brokerage a of
        None \<Rightarrow> None
      | Some b \<Rightarrow> (case bk_display_name b of None \<Rightarrow> Some (bk_name b) | Some n \<Rightarrow> Some n))"

definition callback_finish ::
  "broker_env \<Rightarrow> instant \<Rightarrow> uuid \<Rightarrow> connection \<Rightarrow> st_authorization list \<Rightarrow> (app_error, page) action" where
  "callback_finish x now uid row auths =
     (case pick_newest_authorization (be_parse_date x) auths (c_authorization_id row) of
        None \<Rightarrow>
          if c_authorization_id row \<noteq> None then pure Success_Html
          else bindM (record_failure_locked now (Some uid) ''no_new_authorization'' None)
                 (\<lambda>_. pure Connection_Failed_Html)
      | Some a \<Rightarrow>
          (let slug = map_option bk_slug (au_brokerage a) in
           bindM (mark_completed now (c_id row) (au_id a) slug (institution_of a)) (\<lambda>_.
           bindM (discard (record_event now (completed_event uid (au_id a) slug))) (\<lambda>_.
             pure Success_Html))))"

definition snaptrade_callback ::
  "broker_env \<Rightarrow> instant \<Rightarrow> callback_query \<Rightarrow> (app_error, page) action" where
  "snaptrade_callback x now q =
     bindM (callback_user x now q) (\<lambda>uid.
     bindM (callback_row now q uid) (\<lambda>row.
     bindM (callback_authorizations x now uid row) (\<lambda>auths.
       callback_finish x now uid row auths)))"

subsection \<open>Lists\<close>

record brokerage_dto =
  bd_id :: string
  bd_slug :: string
  bd_name :: string
  bd_display_name :: "string option"
  bd_logo_url :: "string option"
  bd_square_logo_url :: "string option"

record broker_connection_dto =
  bc_id :: string
  bc_name :: "string option"
  bc_type :: "string option"
  bc_disabled :: bool
  bc_status :: string
  bc_brokerage :: "brokerage_dto option"
  bc_created_date :: "string option"
  bc_updated_date :: "string option"

record broker_account_dto =
  ba_id :: string
  ba_brokerage_authorization :: "string option"
  ba_name :: "string option"
  ba_number :: "string option"
  ba_institution_name :: "string option"
  ba_status :: "string option"
  ba_raw_type :: "string option"
  ba_balance :: "json option"
  ba_sync_status :: "json option"
  ba_is_paper :: bool

definition map_brokerage :: "st_brokerage \<Rightarrow> brokerage_dto" where
  "map_brokerage b =
     \<lparr>bd_id = bk_id b, bd_slug = bk_slug b, bd_name = bk_name b, bd_display_name = bk_display_name b,
      bd_logo_url = bk_logo_url b, bd_square_logo_url = bk_square_logo_url b\<rparr>"

definition map_authorization :: "st_authorization \<Rightarrow> broker_connection_dto" where
  "map_authorization a =
     \<lparr>bc_id = au_id a, bc_name = au_name a, bc_type = au_type a, bc_disabled = au_disabled a,
      bc_status = (if au_disabled a then ''disconnected'' else ''connected''),
      bc_brokerage = map_option map_brokerage (au_brokerage a),
      bc_created_date = au_created_date a, bc_updated_date = au_updated_date a\<rparr>"

definition map_account :: "st_account \<Rightarrow> broker_account_dto" where
  "map_account a =
     \<lparr>ba_id = ac_id a, ba_brokerage_authorization = ac_brokerage_authorization a, ba_name = ac_name a,
      ba_number = ac_number a, ba_institution_name = ac_institution_name a, ba_status = ac_status a,
      ba_raw_type = ac_raw_type a, ba_balance = ac_balance a, ba_sync_status = ac_sync_status a,
      ba_is_paper = unwrap_or False (ac_is_paper a)\<rparr>"

definition list_connections :: "broker_env \<Rightarrow> instant \<Rightarrow> user \<Rightarrow> (app_error, broker_connection_dto list) action" where
  "list_connections x now u =
     bindM (fetch_active_for_user (u_id u)) (\<lambda>found.
       case found of
         None \<Rightarrow> pure []
       | Some row \<Rightarrow>
           bindM (of_result (secret_of x row)) (\<lambda>secret.
           bindM (of_result (map_err from_snaptrade
                    (list_authorizations (be_st x) (be_client x) now (c_snaptrade_user_id row) secret)))
             (\<lambda>auths. pure (map map_authorization auths))))"

definition list_accounts_handler :: "broker_env \<Rightarrow> instant \<Rightarrow> user \<Rightarrow> (app_error, broker_account_dto list) action" where
  "list_accounts_handler x now u =
     bindM (fetch_active_for_user (u_id u)) (\<lambda>found.
       case found of
         None \<Rightarrow> pure []
       | Some row \<Rightarrow>
           bindM (of_result (secret_of x row)) (\<lambda>secret.
           bindM (of_result (map_err from_snaptrade
                    (list_accounts (be_st x) (be_client x) now (c_snaptrade_user_id row) secret)))
             (\<lambda>accts. pure (map map_account accts))))"

definition account_holdings_handler ::
  "broker_env \<Rightarrow> instant \<Rightarrow> user \<Rightarrow> string \<Rightarrow> (app_error, json) action" where
  "account_holdings_handler x now u account =
     bindM (fetch_active_for_user (u_id u)) (\<lambda>found.
     bindM (of_result (ok_or (not_found ''no active broker connection'') found)) (\<lambda>row.
     bindM (of_result (secret_of x row)) (\<lambda>secret.
       of_result (map_err from_snaptrade
         (account_holdings (be_st x) (be_client x) now (c_snaptrade_user_id row) secret account)))))"

record activities_query =
  aq_cursor :: "string option"
  aq_limit :: "nat option"
  aq_start_date :: "string option"
  aq_end_date :: "string option"

definition activities_limit :: "nat option \<Rightarrow> nat" where
  "activities_limit l = min (max (unwrap_or ACTIVITIES_DEFAULT_LIMIT l) 1) ACTIVITIES_MAX_LIMIT"

definition activities_offset :: "string option \<Rightarrow> nat" where
  "activities_offset cursor = unwrap_or 0 (Option.bind cursor parse_u32)"

definition activities_params :: "activities_query \<Rightarrow> query_params" where
  "activities_params q =
     [(''limit'', ascii (show_nat (activities_limit (aq_limit q)))),
      (''offset'', ascii (show_nat (activities_offset (aq_cursor q))))] @
     (case aq_start_date q of None \<Rightarrow> [] | Some s \<Rightarrow> [(''startDate'', ascii s)]) @
     (case aq_end_date q of None \<Rightarrow> [] | Some s \<Rightarrow> [(''endDate'', ascii s)])"

definition account_activities_handler ::
  "broker_env \<Rightarrow> instant \<Rightarrow> user \<Rightarrow> string \<Rightarrow> activities_query \<Rightarrow> (app_error, json) action" where
  "account_activities_handler x now u account q =
     bindM (fetch_active_for_user (u_id u)) (\<lambda>found.
     bindM (of_result (ok_or (not_found ''no active broker connection'') found)) (\<lambda>row.
     bindM (of_result (secret_of x row)) (\<lambda>secret.
       of_result (map_err from_snaptrade
         (account_activities (be_st x) (be_client x) now (c_snaptrade_user_id row) secret account
            (activities_params q))))))"

subsection \<open>Refresh and disconnect\<close>

definition refresh_event :: "uuid \<Rightarrow> string \<Rightarrow> audit_event" where
  "refresh_event uid auth =
     event_data (JObj [(''authorization_id'', JStr auth)]) (event_user uid (new_event ''broker.refresh''))"

definition refresh_connection ::
  "broker_env \<Rightarrow> instant \<Rightarrow> user \<Rightarrow> string \<Rightarrow> (app_error, bool) action" where
  "refresh_connection x now u auth =
     bindM (fetch_by_authorization_id_for_user (u_id u) auth) (\<lambda>found.
     bindM (of_result (ok_or (not_found ''connection not found'') found)) (\<lambda>row.
     bindM (of_result (ok_or (bad_request ''connection is not yet linked'') (c_authorization_id row))) (\<lambda>auth_id.
     bindM (of_result (secret_of x row)) (\<lambda>secret.
     bindM (of_result (map_err from_snaptrade
              (refresh_authorization (be_st x) (be_client x) now (c_snaptrade_user_id row) secret auth_id))) (\<lambda>_.
     bindM (discard (record_event now (refresh_event (u_id u) auth_id))) (\<lambda>_.
       pure True))))))"

definition disconnect_event :: "uuid \<Rightarrow> string option \<Rightarrow> audit_event" where
  "disconnect_event uid auth =
     event_data (JObj [(''authorization_id'', case auth of None \<Rightarrow> JNull | Some a \<Rightarrow> JStr a)])
       (event_user uid (new_event ''broker.disconnect''))"

text \<open>The upstream removal; a row that is already disabled skips it.\<close>

definition remove_upstream :: "broker_env \<Rightarrow> instant \<Rightarrow> connection \<Rightarrow> app_error + unit" where
  "remove_upstream x now row =
     (if c_disabled row then Inr ()
      else
        (case c_authorization_id row of
           None \<Rightarrow> Inr ()
         | Some auth_id \<Rightarrow>
             and_then (secret_of x row) (\<lambda>secret.
               map_err from_snaptrade
                 (remove_authorization (be_st x) (be_client x) now (c_snaptrade_user_id row) secret auth_id))))"

definition delete_connection ::
  "broker_env \<Rightarrow> instant \<Rightarrow> user \<Rightarrow> string \<Rightarrow> (app_error, bool) action" where
  "delete_connection x now u auth =
     bindM (fetch_by_authorization_id_for_user (u_id u) auth) (\<lambda>found.
     bindM (of_result (ok_or (not_found ''connection not found'') found)) (\<lambda>row.
     bindM (of_result (remove_upstream x now row)) (\<lambda>_.
     bindM (soft_delete now (u_id u) (c_id row)) (\<lambda>_.
     bindM (discard (record_event now (disconnect_event (u_id u) (c_authorization_id row)))) (\<lambda>_.
       pure True)))))"

subsection \<open>The handlers are runs of the statements\<close>

lemmas handler_defs =
  login_portal_def open_portal_def portal_credentials_def register_and_store_def
  snaptrade_callback_def callback_user_def callback_row_def callback_authorizations_def
  callback_finish_def fail_with_def record_failure_locked_def
  list_connections_def list_accounts_handler_def account_holdings_handler_def
  account_activities_handler_def refresh_connection_def delete_connection_def

lemma runs_statements [keeps_intros]:
  "keeps (steps connection_step d0) (record_event now e)"
  "keeps (steps connection_step d0) (insert_pending r now uid s b)"
  "keeps (steps connection_step d0) (mark_completed now cid a sl i)"
  "keeps (steps connection_step d0) (soft_delete now uid cid)"
  unfolding record_event_def insert_pending_def mark_completed_def soft_delete_def
  by (intro keeps_intros; blast intro: steps_step connection_step.intros)+

lemma runs_callback: "keeps (steps connection_step d0) (snaptrade_callback x now q)"
  unfolding handler_defs Let_def by (intro keeps_intros)

lemma runs_portal: "keeps (steps connection_step d0) (open_portal x now nonce tn row_id u)"
  unfolding handler_defs by (intro keeps_intros)

lemma runs_lists:
  "keeps (steps connection_step d0) (list_connections x now u)"
  "keeps (steps connection_step d0) (list_accounts_handler x now u)"
  "keeps (steps connection_step d0) (account_holdings_handler x now u acct)"
  "keeps (steps connection_step d0) (account_activities_handler x now u acct aq)"
  unfolding handler_defs by (intro keeps_intros)+

lemma runs_refresh: "keeps (steps connection_step d0) (refresh_connection x now u a)"
  unfolding handler_defs by (intro keeps_intros)

lemma runs_delete: "keeps (steps connection_step d0) (delete_connection x now u a)"
  unfolding handler_defs by (intro keeps_intros)

lemmas runs_handlers = runs_callback runs_portal runs_lists runs_refresh runs_delete

text \<open>One request of any of the endpoints.\<close>

inductive broker_step :: "broker_env \<Rightarrow> world \<Rightarrow> world \<Rightarrow> bool" for x where
  broker_portal: "broker_step x w (snd (fst (login_portal x now nonce tn row_id u m w)))"
| broker_callback: "broker_step x w (snd (snaptrade_callback x now q w))"
| broker_connections: "broker_step x w (snd (list_connections x now u w))"
| broker_accounts: "broker_step x w (snd (list_accounts_handler x now u w))"
| broker_holdings: "broker_step x w (snd (account_holdings_handler x now u acct w))"
| broker_activities: "broker_step x w (snd (account_activities_handler x now u acct aq w))"
| broker_refresh: "broker_step x w (snd (refresh_connection x now u a w))"
| broker_delete: "broker_step x w (snd (delete_connection x now u a w))"
| broker_faults: "broker_step x w (w\<lparr>faults := fs\<rparr>)"

lemma portal_runs: "steps connection_step (db w) (db (snd (fst (login_portal x now nonce tn row_id u m w))))"
  using keeps_run [OF runs_portal steps_refl, of w x now nonce tn row_id u]
  by (auto simp: login_portal_def throw_def intro: steps_refl split: prod.splits sum.splits)

lemma broker_step_runs: "broker_step x w w' \<Longrightarrow> steps connection_step (db w) (db w')"
  by (induction rule: broker_step.induct)
     (simp_all add: portal_runs keeps_run [OF runs_callback steps_refl] keeps_run [OF runs_lists(1) steps_refl]
       keeps_run [OF runs_lists(2) steps_refl] keeps_run [OF runs_lists(3) steps_refl]
       keeps_run [OF runs_lists(4) steps_refl] keeps_run [OF runs_refresh steps_refl]
       keeps_run [OF runs_delete steps_refl] steps_refl)

lemma broker_steps_run: "steps (broker_step x) w w' \<Longrightarrow> steps connection_step (db w) (db w')"
  by (induction rule: steps.induct) (auto intro: steps_refl steps_trans broker_step_runs)

subsection \<open>The callback, step by step\<close>

lemma record_event_frame [simp]:
  "broker_connections (db (snd (record_event now e w))) = broker_connections (db w)"
proof -
  have "keeps (\<lambda>d. broker_connections d = broker_connections (db w)) (record_event now e)"
    unfolding record_event_def by (rule keeps_query) (simp add: audit_sql_def)
  from keeps_run [OF this refl] show ?thesis .
qed

lemma fail_with_simps [simp]:
  "fst (fail_with now uid code e w) = Inl e"
  "broker_connections (db (snd (fail_with now uid code e w))) = broker_connections (db w)"
  by (simp_all add: fail_with_def record_failure_locked_def act_simps)

lemma fail_with_result:
  "fail_with now uid code e w = (r, w') \<Longrightarrow>
     r = Inl e \<and> broker_connections (db w') = broker_connections (db w)"
  by (metis fail_with_simps fst_conv snd_conv)

lemma fetch_any_Inr:
  "fetch_any_for_user uid w = (Inr found, w') \<Longrightarrow> found = newest_connection (db w) uid \<and> db w' = db w"
  by (auto simp: fetch_any_for_user_def map_errM_Inr dest: select_Inr)

lemma fetch_any_db: "db (snd (fetch_any_for_user uid w)) = db w"
  using reads_onlyD [OF reads_only_select]
  by (auto simp: fetch_any_for_user_def map_errM_def split: prod.splits)

lemma callback_user_Inr:
  "callback_user x now q w = (Inr uid, w') \<Longrightarrow>
     w' = w \<and> (\<exists>tok claims. cb_state q = Some tok \<and>
       verify_state (be_jwt x) now tok (be_state_secret x) = Inr claims \<and> uid = sc_sub claims)"
  by (auto simp: callback_user_def pure_def dest: fail_with_result split: option.splits sum.splits)

lemma callback_user_frame:
  "broker_connections (db (snd (callback_user x now q w))) = broker_connections (db w)"
  by (auto simp: callback_user_def pure_def split: option.splits sum.splits)

lemma callback_row_Inr:
  assumes "callback_row now q uid w = (Inr row, w')"
  shows "db w' = db w \<and> newest_connection (db w) uid = Some row \<and>
     (\<forall>s. cb_user_id q = Some s \<longrightarrow> s = c_snaptrade_user_id row)"
proof -
  from assms obtain found w1 where f: "fetch_any_for_user uid w = (Inr found, w1)"
    and k: "(case found of None \<Rightarrow> fail_with now (Some uid) ''no_pending_connection''
                   (bad_request ''no pending connection for this user'')
       | Some row \<Rightarrow> (case cb_user_id q of None \<Rightarrow> pure row
            | Some returned \<Rightarrow> if returned \<noteq> c_snaptrade_user_id row
                then fail_with now (Some uid) ''user_id_mismatch'' (bad_request ''snaptrade userId mismatch'')
                else pure row)) w1 = (Inr row, w')"
    unfolding callback_row_def bindM_Inr_iff by blast
  from fetch_any_Inr [OF f] k show ?thesis
    by (auto simp: pure_def dest: fail_with_result split: option.splits if_splits)
qed

lemma callback_row_frame:
  "broker_connections (db (snd (callback_row now q uid w))) = broker_connections (db w)"
proof (cases "fetch_any_for_user uid w")
  case (Pair r w1)
  with fetch_any_db [of uid w] have "db w1 = db w" by simp
  with Pair show ?thesis
    by (auto simp: callback_row_def bindM_def pure_def split: sum.splits option.splits)
qed

lemma callback_authorizations_Inr:
  "callback_authorizations x now uid row w = (Inr auths, w') \<Longrightarrow>
     w' = w \<and> (\<exists>secret. secret_of x row = Inr secret \<and>
       list_authorizations (be_st x) (be_client x) now (c_snaptrade_user_id row) secret = Inr auths)"
  by (cases "secret_of x row"; cases "list_authorizations (be_st x) (be_client x) now (c_snaptrade_user_id row)
        (projr (secret_of x row))")
     (auto simp: callback_authorizations_def bindM_def of_result_def pure_def dest: fail_with_result)

lemma callback_authorizations_frame:
  "broker_connections (db (snd (callback_authorizations x now uid row w))) = broker_connections (db w)"
  by (auto simp: callback_authorizations_def bindM_def of_result_def pure_def split: sum.splits)

definition complete_row ::
  "instant \<Rightarrow> connection \<Rightarrow> st_authorization \<Rightarrow> connection list \<Rightarrow> connection list" where
  "complete_row now row a cs =
     map (\<lambda>c. if c_id c = c_id row
       then completed_connection now (au_id a) (map_option bk_slug (au_brokerage a)) (institution_of a) c
       else c) cs"

lemma mark_completed_effect:
  "mark_completed now cid a s i w = (r, w') \<Longrightarrow>
     (case r of
        Inl e \<Rightarrow> db w' = db w
      | Inr _ \<Rightarrow> db w' = (db w)\<lparr>broker_connections :=
          map (\<lambda>c. if c_id c = cid then completed_connection now a s i c else c) (broker_connections (db w))\<rparr>)"
  unfolding mark_completed_def
  by (cases rule: query_cases [of "mark_completed_sql now cid a s i" w])
     (auto simp: map_errM_def mark_completed_sql_def Let_def map_err_def split: if_splits)

lemma callback_finish_effect:
  assumes "callback_finish x now uid row auths w = (r, w')"
  shows "broker_connections (db w') = broker_connections (db w) \<or>
     (\<exists>a. pick_newest_authorization (be_parse_date x) auths (c_authorization_id row) = Some a \<and>
        broker_connections (db w') = complete_row now row a (broker_connections (db w)))"
proof (cases "pick_newest_authorization (be_parse_date x) auths (c_authorization_id row)")
  case None
  with assms show ?thesis
    by (auto simp: callback_finish_def record_failure_locked_def act_simps split: if_splits)
next
  case (Some a)
  let ?s = "map_option bk_slug (au_brokerage a)"
  obtain r1 w1 where m: "mark_completed now (c_id row) (au_id a) ?s (institution_of a) w = (r1, w1)"
    by (cases "mark_completed now (c_id row) (au_id a) ?s (institution_of a) w")
  show ?thesis
  proof (cases r1)
    case (Inl e)
    with m Some assms mark_completed_effect [OF m] show ?thesis
      by (simp add: callback_finish_def bindM_def Let_def)
  next
    case (Inr v)
    with m Some assms have "w' = snd (record_event now (completed_event uid (au_id a) ?s) w1)"
      by (simp add: callback_finish_def act_simps Let_def)
    with mark_completed_effect [OF m] Inr Some show ?thesis by (simp add: complete_row_def)
  qed
qed

text \<open>A request gets to the last step, or leaves the connections alone.\<close>

lemma snaptrade_callback_cases:
  assumes "snaptrade_callback x now q w = (r, w')"
  obtains (early) "broker_connections (db w') = broker_connections (db w)" "\<exists>e. r = Inl e"
  | (late) tok claims row secret auths w1 where
      "cb_state q = Some tok" "verify_state (be_jwt x) now tok (be_state_secret x) = Inr claims"
      "newest_connection (db w) (sc_sub claims) = Some row"
      "\<forall>s. cb_user_id q = Some s \<longrightarrow> s = c_snaptrade_user_id row"
      "secret_of x row = Inr secret"
      "list_authorizations (be_st x) (be_client x) now (c_snaptrade_user_id row) secret = Inr auths"
      "db w1 = db w" "callback_finish x now (sc_sub claims) row auths w1 = (r, w')"
proof (cases "callback_user x now q w")
  case (Pair r1 w1)
  show thesis
  proof (cases r1)
    case (Inl e)
    with Pair assms callback_user_frame [of x now q w] show thesis
      by (intro early) (auto simp: snaptrade_callback_def bindM_def)
  next
    case (Inr uid)
    with callback_user_Inr Pair obtain tok claims where
      c: "w1 = w" "cb_state q = Some tok" "verify_state (be_jwt x) now tok (be_state_secret x) = Inr claims"
        "uid = sc_sub claims" by blast
    show thesis
    proof (cases "callback_row now q uid w")
      case p2: (Pair r2 w2)
      show thesis
      proof (cases r2)
        case (Inl e)
        with Pair p2 c(1) \<open>r1 = Inr uid\<close> assms callback_row_frame [of now q uid w] show thesis
          by (intro early) (auto simp: snaptrade_callback_def bindM_def)
      next
        case r2: (Inr row)
        with callback_row_Inr p2 have d: "db w2 = db w" "newest_connection (db w) uid = Some row"
          "\<forall>s. cb_user_id q = Some s \<longrightarrow> s = c_snaptrade_user_id row" by blast+
        show thesis
        proof (cases "callback_authorizations x now uid row w2")
          case p3: (Pair r3 w3)
          show thesis
          proof (cases r3)
            case (Inl e)
            with Pair p2 p3 r2 c(1) \<open>r1 = Inr uid\<close> d(1) assms
              callback_authorizations_frame [of x now uid row w2] show thesis
              by (intro early) (auto simp: snaptrade_callback_def bindM_def)
          next
            case r3: (Inr auths)
            with callback_authorizations_Inr p3 obtain secret where
              s: "w3 = w2" "secret_of x row = Inr secret"
                "list_authorizations (be_st x) (be_client x) now (c_snaptrade_user_id row) secret = Inr auths"
              by blast
            have "callback_finish x now uid row auths w2 = (r, w')"
              using assms Pair p2 p3 r2 r3 s(1) c(1) \<open>r1 = Inr uid\<close>
              by (simp add: snaptrade_callback_def bindM_def)
            with c d s show thesis by (intro late) simp_all
          qed
        qed
      qed
    qed
  qed
qed

subsection \<open>Choosing the authorization\<close>

lemma pick_newest_None:
  "pick_newest_authorization parse auths e = None \<longleftrightarrow> (\<forall>a\<in>set auths. e = Some (au_id a))"
proof -
  have "pick_newest_authorization parse auths e = None \<longleftrightarrow>
      (\<forall>p\<in>set (List.enumerate 0 auths). e = Some (au_id (snd p)))"
    by (auto simp: pick_newest_authorization_def filter_empty_conv split: option.splits)
  also have "\<dots> \<longleftrightarrow> (\<forall>a\<in>snd ` set (List.enumerate 0 auths). e = Some (au_id a))" by simp
  also have "snd ` set (List.enumerate 0 auths) = set auths"
    by (metis list.set_map map_snd_enumerate)
  finally show ?thesis .
qed

lemma pick_newest_Some:
  assumes "pick_newest_authorization parse auths e = Some a"
  shows "\<exists>i<length auths. a = auths ! i \<and> e \<noteq> Some (au_id a) \<and>
     (\<forall>j<length auths. e \<noteq> Some (au_id (auths ! j)) \<longrightarrow>
        created_at parse (auths ! j) < created_at parse a \<or>
        created_at parse (auths ! j) = created_at parse a \<and> j \<le> i)"
proof -
  let ?cand = "filter (\<lambda>(_, a). case e of None \<Rightarrow> True | Some e \<Rightarrow> au_id a \<noteq> e) (List.enumerate 0 auths)"
  let ?key = "\<lambda>(i, a). (created_at parse a, i)"
  from assms obtain i where m: "first_max ?key ?cand = Some (i, a)"
    by (auto simp: pick_newest_authorization_def)
  have "(i, a) \<in> set ?cand" using first_max_in [OF m] .
  then have i: "i < length auths" "a = auths ! i" "e \<noteq> Some (au_id a)"
    by (auto simp: in_set_enumerate_eq split: option.splits)
  have "created_at parse (auths ! j) < created_at parse a \<or>
        created_at parse (auths ! j) = created_at parse a \<and> j \<le> i"
    if j: "j < length auths" "e \<noteq> Some (au_id (auths ! j))" for j
  proof -
    have "(j, auths ! j) \<in> set ?cand" using j by (auto simp: in_set_enumerate_eq split: option.splits)
    from first_max_ge [OF m this] show ?thesis by (auto simp: less_eq_prod_simp)
  qed
  with i show ?thesis by blast
qed

lemma pick_newest_in: "pick_newest_authorization parse auths e = Some a \<Longrightarrow> a \<in> set auths \<and> e \<noteq> Some (au_id a)"
  using pick_newest_Some nth_mem by blast

subsection \<open>Properties\<close>

text \<open>C32: the callback acts for nobody but the user of the state token.  If it changes the broker
  connections at all, the request carried a state token that verifies, exactly one row changes -
  the newest connection of the user that token was issued to, which is also the one named by the
  userId parameter if there is one - and it becomes linked to an authorization that SnapTrade
  lists for that row's own credentials.\<close>

theorem callback_binds_initiator:
  assumes "snaptrade_callback x now q w = (r, w')"
  shows "broker_connections (db w') = broker_connections (db w) \<or>
     (\<exists>tok claims row secret auths a.
        cb_state q = Some tok \<and> verify_state (be_jwt x) now tok (be_state_secret x) = Inr claims \<and>
        row \<in> set (broker_connections (db w)) \<and> c_user_id row = sc_sub claims \<and>
        newest_connection (db w) (sc_sub claims) = Some row \<and>
        (\<forall>s. cb_user_id q = Some s \<longrightarrow> s = c_snaptrade_user_id row) \<and>
        secret_of x row = Inr secret \<and>
        list_authorizations (be_st x) (be_client x) now (c_snaptrade_user_id row) secret = Inr auths \<and>
        a \<in> set auths \<and> c_authorization_id row \<noteq> Some (au_id a) \<and>
        broker_connections (db w') = complete_row now row a (broker_connections (db w)))"
  using assms
proof (cases rule: snaptrade_callback_cases)
  case early
  then show ?thesis by simp
next
  case (late tok claims row secret auths w1)
  from callback_finish_effect [OF late(8)] show ?thesis
  proof
    assume "broker_connections (db w') = broker_connections (db w1)"
    with late(7) show ?thesis by simp
  next
    assume "\<exists>a. pick_newest_authorization (be_parse_date x) auths (c_authorization_id row) = Some a \<and>
        broker_connections (db w') = complete_row now row a (broker_connections (db w1))"
    then obtain a where "a \<in> set auths" "c_authorization_id row \<noteq> Some (au_id a)"
      "broker_connections (db w') = complete_row now row a (broker_connections (db w))"
      using late(7) pick_newest_in by metis
    with late newest_connection_in [OF late(3)] show ?thesis by blast
  qed
qed

definition sample_broker :: "(http_request \<Rightarrow> st_reply) \<Rightarrow> st_authorization list \<Rightarrow> broker_env" where
  "sample_broker http auths =
     \<lparr>be_st = sample_st http auths, be_client = new_client ''https://h/'' ''cid'' ''key'',
      be_aead = sample_aead, be_key = \<lparr>key_bytes = replicate 32 7\<rparr>, be_jwt = sample_jwt sample_state,
      be_state_secret = ''key'', be_redirect_uri = ''https://cb'',
      be_with_state = \<lambda>u t. Some (u @ ''?state='' @ t), be_parse_date = \<lambda>s. map_option int (read_nat s),
      be_uuid_text = \<lambda>_. ''st-1''\<rparr>"

definition broker_user :: user where
  "broker_user = \<lparr>u_id = 1, u_supabase_user_id = 101, u_email = ''a@b.c'', u_display_name = None,
     u_avatar_url = None, u_created_at = 0, u_updated_at = 0, u_deleted_at = None\<rparr>"

definition sample_connection :: connection where
  "sample_connection = pending_connection 7 0 1 ''st-1''
     (replicate 12 1 @ utf8_bytes (ascii ''s'') @ replicate 16 0)"

definition broker_world :: "connection list \<Rightarrow> world" where
  "broker_world cs = \<lparr>db = (empty_database 6)\<lparr>users := [broker_user], broker_connections := cs\<rparr>, faults = []\<rparr>"

definition sample_authorization :: "string \<Rightarrow> string option \<Rightarrow> st_authorization" where
  "sample_authorization i date = \<lparr>au_id = i, au_name = None, au_type = None, au_disabled = False,
     au_created_date = date, au_updated_date = None, au_brokerage = None\<rparr>"

lemma sample_secret:
  "c_secret_encrypted c = replicate 12 1 @ utf8_bytes (ascii ''s'') @ replicate 16 0 \<Longrightarrow>
     secret_of (sample_broker http auths) c = Inr (ascii ''s'')"
proof -
  assume c: "c_secret_encrypted c = replicate 12 1 @ utf8_bytes (ascii ''s'') @ replicate 16 0"
  have "encrypt sample_aead \<lparr>key_bytes = replicate 32 7\<rparr> (replicate 12 1) (ascii ''s'') =
      Inr (replicate 12 1 @ utf8_bytes (ascii ''s'') @ replicate 16 0)"
    by (simp add: encrypt_Inr sample_aead_def)
  from decrypt_encrypt(1) [OF sample_aead_laws _ _ _ this] c show ?thesis
    by (simp add: secret_of_def sample_broker_def map_err_def)
qed

lemma sample_list:
  "list_authorizations (be_st (sample_broker (\<lambda>_. Reply 200 []) auths)) c now uid secret = Inr auths"
  by (simp add: list_authorizations_def send_signed_def sample_broker_def sample_st_def read_reply_def
      is_success_def result_simps)

lemma callback_state_verify:
  "verify_state (be_jwt (sample_broker http auths)) 500000000000 ''tok''
     (be_state_secret (sample_broker http auths)) = Inr sample_state"
  by (simp add: verify_state_def sample_broker_def sample_jwt_def accepted_def sample_state_def
      unix_timestamp_def LEEWAY_SECS_def map_err_def)

lemma sample_newest: "c_user_id c = 1 \<Longrightarrow> newest_connection (db (broker_world [c])) 1 = Some c"
  by (simp add: newest_connection_def broker_world_def)

lemma sample_callback:
  assumes "c_user_id c = 1" "c_secret_encrypted c = replicate 12 1 @ utf8_bytes (ascii ''s'') @ replicate 16 0"
  shows "snaptrade_callback (sample_broker (\<lambda>_. Reply 200 []) auths) 500000000000
      \<lparr>cb_state = Some ''tok'', cb_user_id = None\<rparr> (broker_world [c]) =
    callback_finish (sample_broker (\<lambda>_. Reply 200 []) auths) 500000000000 1 c auths (broker_world [c])"
proof -
  have "faults (broker_world [c]) = []" by (simp add: broker_world_def)
  moreover have "sc_sub sample_state = 1" by (simp add: sample_state_def)
  ultimately show ?thesis
    using sample_newest [OF assms(1)] sample_secret [OF assms(2)]
    by (simp add: snaptrade_callback_def callback_user_def callback_row_def callback_authorizations_def
        callback_state_verify sample_list fetch_any_for_user_def act_simps map_err_def)
qed

lemma sample_pick:
  "pick_newest_authorization parse [a] e = (if e = Some (au_id a) then None else Some a)"
  by (auto simp: pick_newest_authorization_def split: option.splits)

theorem callback_binds_initiator_witness:
  "\<exists>w' row. snaptrade_callback (sample_broker (\<lambda>_. Reply 200 []) [sample_authorization ''a'' None]) 500000000000
       \<lparr>cb_state = Some ''tok'', cb_user_id = None\<rparr> (broker_world [sample_connection]) = (Inr Success_Html, w') \<and>
     row \<in> set (broker_connections (db w')) \<and> c_user_id row = 1 \<and> c_authorization_id row = Some ''a'' \<and>
     (\<exists>claims. verify_state (sample_jwt sample_state) 500000000000 ''tok'' ''key'' = Inr claims \<and> sc_sub claims = 1)"
proof -
  let ?x = "sample_broker (\<lambda>_. Reply 200 []) [sample_authorization ''a'' None]"
  let ?q = "\<lparr>cb_state = Some ''tok'', cb_user_id = None\<rparr>"
  have ids: "au_id (sample_authorization ''a'' None) = ''a''" "au_brokerage (sample_authorization ''a'' None) = None"
    by (simp_all add: sample_authorization_def)
  let ?done = "completed_connection 500000000000 ''a'' None None sample_connection"
  have "callback_finish ?x 500000000000 1 sample_connection [sample_authorization ''a'' None]
      (broker_world [sample_connection]) =
      (Inr Success_Html, snd (record_event 500000000000 (completed_event 1 ''a'' None) (broker_world [?done])))"
    by (simp add: callback_finish_def sample_pick ids sample_connection_def pending_connection_def
        mark_completed_def mark_completed_sql_def institution_of_def connection_indexes_def unique_on_def
        map_filter_Cons active_key_def broker_world_def act_simps map_err_def completed_connection_def)
  then have run: "snaptrade_callback ?x 500000000000 ?q (broker_world [sample_connection]) =
      (Inr Success_Html, snd (record_event 500000000000 (completed_event 1 ''a'' None) (broker_world [?done])))"
    (is "_ = (_, ?w')")
    using sample_callback [of sample_connection] by (simp add: sample_connection_def pending_connection_def)
  have conns: "broker_connections (db ?w') = [?done]" by (simp add: broker_world_def)
  moreover have "?done \<noteq> sample_connection"
    by (simp add: completed_connection_def sample_connection_def pending_connection_def)
  ultimately have "broker_connections (db ?w') \<noteq> broker_connections (db (broker_world [sample_connection]))"
    by (simp add: broker_world_def)
  with callback_binds_initiator [OF run] obtain tok claims row where
    b: "cb_state ?q = Some tok" "verify_state (be_jwt ?x) 500000000000 tok (be_state_secret ?x) = Inr claims"
      "row \<in> set (broker_connections (db (broker_world [sample_connection])))" "c_user_id row = sc_sub claims"
    by blast
  then have "sc_sub claims = 1"
    by (simp add: broker_world_def sample_connection_def pending_connection_def)
  moreover have "verify_state (sample_jwt sample_state) 500000000000 ''tok'' ''key'' = Inr claims"
    using b(1,2) by (simp add: sample_broker_def)
  moreover have "c_user_id ?done = 1" "c_authorization_id ?done = Some ''a''"
    by (simp_all add: completed_connection_def sample_connection_def pending_connection_def)
  ultimately show ?thesis using run conns by auto
qed

text \<open>The callback links the newest authorization that is not linked yet.  The choice is an
  entry other than the recorded one whose creation date is the latest - an entry without a readable
  date counts as oldest, and of two with the same date the later in the list wins; nothing is chosen
  only if every entry is the recorded one.\<close>

theorem pick_newest_exact:
  "case pick_newest_authorization parse auths e of
     None \<Rightarrow> \<forall>a\<in>set auths. e = Some (au_id a)
   | Some a \<Rightarrow> \<exists>i<length auths. a = auths ! i \<and> e \<noteq> Some (au_id a) \<and>
       (\<forall>j<length auths. e \<noteq> Some (au_id (auths ! j)) \<longrightarrow>
          created_at parse (auths ! j) < created_at parse a \<or>
          created_at parse (auths ! j) = created_at parse a \<and> j \<le> i)"
  using pick_newest_None [of parse auths e] pick_newest_Some [of parse auths e]
  by (auto split: option.splits)

lemma pick_sample:
  "pick_newest_authorization (\<lambda>s. map_option int (read_nat s))
      [sample_authorization ''a'' (Some ''7''), sample_authorization ''b'' (Some ''9''),
       sample_authorization ''c'' None] (Some ''b'') = Some (sample_authorization ''a'' (Some ''7''))"
  by (simp add: pick_newest_authorization_def sample_authorization_def created_at_def
      less_eq_prod_simp read_nat_def char_digit_def Let_def)

theorem pick_newest_exact_witness:
  "\<exists>i<3. sample_authorization ''a'' (Some ''7'') =
     [sample_authorization ''a'' (Some ''7''), sample_authorization ''b'' (Some ''9''),
       sample_authorization ''c'' None] ! i"
  using pick_newest_exact [where parse = "\<lambda>s. map_option int (read_nat s)" and e = "Some ''b''" and
      auths = "[sample_authorization ''a'' (Some ''7''), sample_authorization ''b'' (Some ''9''),
        sample_authorization ''c'' None]"]
  unfolding pick_sample by (auto simp: eval_nat_numeral)

text \<open>A user has at most one active broker connection, however requests interleave.  Over any
  run of requests to the brokerage endpoints, with any faults, two active rows of one user are the
  same row; an active row is linked and not disabled; and no connection is lost or handed over: the
  row stays, with the same owner and the same credentials, and the audit log only grows.\<close>

theorem one_active_connection:
  assumes "connections_inv (db w)" "steps (broker_step x) w w'"
  shows "(\<forall>a\<in>set (broker_connections (db w')). \<forall>b\<in>set (broker_connections (db w')).
        c_is_active a \<longrightarrow> c_is_active b \<longrightarrow> c_user_id a = c_user_id b \<longrightarrow> a = b) \<and>
     (\<forall>a\<in>set (broker_connections (db w')).
        c_is_active a \<longrightarrow> \<not> c_disabled a \<and> c_authorization_id a \<noteq> None) \<and>
     (\<forall>c\<in>set (broker_connections (db w)). \<exists>c'\<in>set (broker_connections (db w')).
        c_id c = c_id c' \<and> c_user_id c = c_user_id c' \<and> c_snaptrade_user_id c = c_snaptrade_user_id c' \<and>
        c_secret_encrypted c = c_secret_encrypted c') \<and>
     (\<exists>as. audit_log (db w') = audit_log (db w) @ as)"
proof -
  have s: "steps connection_step (db w) (db w')" by (rule broker_steps_run [OF assms(2)])
  have i: "connections_inv (db w')" by (rule connections.steps_inv [OF s assms(1)])
  have "connections_kept (db w) (db w')" by (rule connections.steps_rel [OF s assms(1)])
  moreover have "\<forall>a\<in>set (broker_connections (db w')). \<forall>b\<in>set (broker_connections (db w')).
        c_is_active a \<longrightarrow> c_is_active b \<longrightarrow> c_user_id a = c_user_id b \<longrightarrow> a = b"
    using active_unique [OF i] by blast
  moreover have "\<forall>a\<in>set (broker_connections (db w')).
        c_is_active a \<longrightarrow> \<not> c_disabled a \<and> c_authorization_id a \<noteq> None"
    using i unfolding connections_inv_def connection_ok_def by blast
  ultimately show ?thesis unfolding connections_kept_def same_credentials_def by blast
qed

lemma broker_world_inv:
  "c_user_id c = 1 \<Longrightarrow> \<not> c_is_active c \<Longrightarrow> connections_inv (db (broker_world [c]))"
  by (simp add: connections_inv_def connection_indexes_def unique_on_def map_filter_Cons connection_ok_def
      broker_world_def active_key_def user_exists_def broker_user_def)

theorem one_active_connection_witness:
  "\<exists>c'\<in>set (broker_connections (db (snd (snaptrade_callback
       (sample_broker (\<lambda>_. Reply 200 []) [sample_authorization ''a'' None]) 500000000000
       \<lparr>cb_state = Some ''tok'', cb_user_id = None\<rparr> (broker_world [sample_connection]))))).
     c_id c' = 7 \<and> c_user_id c' = 1 \<and> c_snaptrade_user_id c' = ''st-1''"
proof -
  let ?x = "sample_broker (\<lambda>_. Reply 200 []) [sample_authorization ''a'' None]"
  have "connections_inv (db (broker_world [sample_connection]))"
    by (rule broker_world_inv) (simp_all add: sample_connection_def pending_connection_def)
  moreover have "steps (broker_step ?x) (broker_world [sample_connection]) (snd (snaptrade_callback ?x 500000000000
       \<lparr>cb_state = Some ''tok'', cb_user_id = None\<rparr> (broker_world [sample_connection])))"
    by (rule steps_step, rule steps_refl, rule broker_callback)
  moreover have "sample_connection \<in> set (broker_connections (db (broker_world [sample_connection])))"
    by (simp add: broker_world_def)
  ultimately obtain c' where "c' \<in> set (broker_connections (db (snd (snaptrade_callback ?x 500000000000
       \<lparr>cb_state = Some ''tok'', cb_user_id = None\<rparr> (broker_world [sample_connection])))))"
    "c_id sample_connection = c_id c'" "c_user_id sample_connection = c_user_id c'"
    "c_snaptrade_user_id sample_connection = c_snaptrade_user_id c'"
    using one_active_connection [of "broker_world [sample_connection]" ?x] by blast
  then show ?thesis by (intro bexI [of _ c']) (simp_all add: sample_connection_def pending_connection_def)
qed

subsection \<open>Replays\<close>

lemma complete_active_indexes:
  assumes "connections_inv d" "row \<in> set (broker_connections d)" "c_is_active row"
  shows "connection_indexes (complete_row now row a (broker_connections d))"
proof -
  have "active_key (if c_id c = c_id row then completed_connection now b s i c else c) = active_key c"
    if "c \<in> set (broker_connections d)" for c b s i
    using connection_by_id [OF assms(1) that assms(2)] assms(3)
    by (auto simp: active_key_def completed_connection_def)
  with assms(1) show ?thesis
    by (simp add: connections_inv_def connection_indexes_def complete_row_def unique_on_map_same
        completed_connection_def)
qed

lemma callback_ready:
  assumes "faults w = []" "cb_state q = Some tok"
    and "verify_state (be_jwt x) now tok (be_state_secret x) = Inr claims"
    and "newest_connection (db w) (sc_sub claims) = Some row"
    and "\<forall>s. cb_user_id q = Some s \<longrightarrow> s = c_snaptrade_user_id row"
    and "secret_of x row = Inr secret"
    and "list_authorizations (be_st x) (be_client x) now (c_snaptrade_user_id row) secret = Inr auths"
  shows "snaptrade_callback x now q w = callback_finish x now (sc_sub claims) row auths w"
  using assms
  by (auto simp: snaptrade_callback_def callback_user_def callback_row_def callback_authorizations_def
      fetch_any_for_user_def act_simps map_err_def split: option.splits)

lemma callback_finish_active:
  assumes "faults w = []" "connections_inv (db w)" "row \<in> set (broker_connections (db w))" "c_is_active row"
    and "pick_newest_authorization (be_parse_date x) auths (c_authorization_id row) = Some a"
  shows "fst (callback_finish x now uid row auths w) = Inr Success_Html \<and>
     broker_connections (db (snd (callback_finish x now uid row auths w))) =
       complete_row now row a (broker_connections (db w))"
proof -
  let ?s = "map_option bk_slug (au_brokerage a)"
  have "mark_completed now (c_id row) (au_id a) ?s (institution_of a) w =
      (Inr (), w\<lparr>db := (db w)\<lparr>broker_connections := complete_row now row a (broker_connections (db w))\<rparr>\<rparr>)"
    using assms(1) complete_active_indexes [OF assms(2-4), of now a]
    by (simp add: mark_completed_def mark_completed_sql_def complete_row_def map_errM_def map_err_def)
  with assms(5) show ?thesis by (simp add: callback_finish_def act_simps Let_def)
qed

text \<open>C35: a replayed callback is harmless only while SnapTrade lists no other authorization.  When
  the user's connection is active and every listed authorization is the recorded one, a second
  callback answers with the success page and changes nothing, not even the audit log.  As soon as
  another authorization is listed, a replay of the same link replaces the recorded one.\<close>

theorem callback_replay:
  assumes "faults w = []" "connections_inv (db w)" "cb_state q = Some tok"
    and "verify_state (be_jwt x) now tok (be_state_secret x) = Inr claims"
    and "newest_connection (db w) (sc_sub claims) = Some row" "c_is_active row"
    and "\<forall>s. cb_user_id q = Some s \<longrightarrow> s = c_snaptrade_user_id row"
    and "secret_of x row = Inr secret"
    and "list_authorizations (be_st x) (be_client x) now (c_snaptrade_user_id row) secret = Inr auths"
  shows "if \<forall>a\<in>set auths. c_authorization_id row = Some (au_id a)
     then snaptrade_callback x now q w = (Inr Success_Html, w)
     else \<exists>c\<in>set (broker_connections (db (snd (snaptrade_callback x now q w)))).
            c_id c = c_id row \<and> c_authorization_id c \<noteq> c_authorization_id row"
proof (cases "pick_newest_authorization (be_parse_date x) auths (c_authorization_id row)")
  case None
  have "c_authorization_id row \<noteq> None"
    using assms(2,6) newest_connection_in [OF assms(5)] by (auto simp: connections_inv_def connection_ok_def)
  with None have "callback_finish x now (sc_sub claims) row auths w = (Inr Success_Html, w)"
    by (simp add: callback_finish_def pure_def)
  moreover have "\<forall>a\<in>set auths. c_authorization_id row = Some (au_id a)"
    using None by (rule pick_newest_None [THEN iffD1])
  ultimately show ?thesis using callback_ready [OF assms(1,3-5,7-9)] by simp
next
  case (Some a)
  have row: "row \<in> set (broker_connections (db w))" using newest_connection_in [OF assms(5)] by blast
  let ?c = "completed_connection now (au_id a) (map_option bk_slug (au_brokerage a)) (institution_of a) row"
  have "?c \<in> set (complete_row now row a (broker_connections (db w)))"
    using row by (auto simp: complete_row_def)
  moreover have "c_id ?c = c_id row" "c_authorization_id ?c = Some (au_id a)"
    by (simp_all add: completed_connection_def)
  ultimately have "\<exists>c\<in>set (broker_connections (db (snd (snaptrade_callback x now q w)))).
            c_id c = c_id row \<and> c_authorization_id c \<noteq> c_authorization_id row"
    using callback_finish_active [where x = x, OF assms(1,2) row assms(6) Some, of now "sc_sub claims"]
      callback_ready [OF assms(1,3-5,7-9)] pick_newest_in [OF Some] by auto
  with Some pick_newest_None [of "be_parse_date x" auths "c_authorization_id row"] show ?thesis by auto
qed

text \<open>Two authorizations, of which the newest is recorded: a replay takes the other one.\<close>

definition linked_sample :: "string \<Rightarrow> connection" where
  "linked_sample a = completed_connection 1 a None None sample_connection"

lemma linked_world_inv: "connections_inv (db (broker_world [linked_sample a]))"
  by (simp add: connections_inv_def connection_indexes_def unique_on_def map_filter_Cons connection_ok_def
      broker_world_def active_key_def user_exists_def broker_user_def linked_sample_def completed_connection_def
      sample_connection_def pending_connection_def)

theorem callback_replay_witness:
  "\<exists>c\<in>set (broker_connections (db (snd (snaptrade_callback
       (sample_broker (\<lambda>_. Reply 200 []) [sample_authorization ''old'' None, sample_authorization ''new'' (Some ''9'')])
       500000000000 \<lparr>cb_state = Some ''tok'', cb_user_id = None\<rparr> (broker_world [linked_sample ''new'']))))).
     c_authorization_id c \<noteq> Some ''new''"
proof -
  let ?as = "[sample_authorization ''old'' None, sample_authorization ''new'' (Some ''9'')]"
  let ?x = "sample_broker (\<lambda>_. Reply 200 []) ?as"
  let ?q = "\<lparr>cb_state = Some ''tok'', cb_user_id = None\<rparr>"
  let ?w = "broker_world [linked_sample ''new'']"
  have row: "c_user_id (linked_sample ''new'') = 1" "c_is_active (linked_sample ''new'')"
    "c_authorization_id (linked_sample ''new'') = Some ''new''"
    "c_secret_encrypted (linked_sample ''new'') = replicate 12 1 @ utf8_bytes (ascii ''s'') @ replicate 16 0"
    by (simp_all add: linked_sample_def completed_connection_def sample_connection_def pending_connection_def)
  have "sc_sub sample_state = 1" by (simp add: sample_state_def)
  then have n: "newest_connection (db ?w) (sc_sub sample_state) = Some (linked_sample ''new'')"
    using sample_newest row(1) by simp
  have f: "faults ?w = []" by (simp add: broker_world_def)
  have ids: "au_id (sample_authorization i d) = i" for i d by (simp add: sample_authorization_def)
  from callback_replay [OF f linked_world_inv _ callback_state_verify n row(2) _ sample_secret [OF row(4)] sample_list,
      of ?q ?as] row(3)
  show ?thesis by (auto simp: ids)
qed

end
