(* ===== verification/Snaptrade_Flows.thy ===== *)
theory Snaptrade_Flows
  imports Snaptrade_Handlers
begin

text \<open>
  The two flows through the brokerage endpoints: connecting (the portal and the callback that
  follows it) and disconnecting.
\<close>

subsection \<open>Connecting\<close>

lemma send_signed_Inr: "send_signed x c now m path ps body decode = Inr v \<Longrightarrow> \<exists>b. decode b = Inr v"
  by (auto simp: send_signed_def Let_def and_then_Inr_iff read_reply_def
      split: st_reply.splits if_splits)

lemma register_user_Inr: "register_user x c now uid = Inr resp \<Longrightarrow> \<exists>b. decode_register x b = Inr resp"
  unfolding register_user_def by (rule send_signed_Inr)

lemma insert_pending_effect:
  "insert_pending row_id now uid s b w = (Inr i, w') \<Longrightarrow>
     db w' = (db w)\<lparr>broker_connections := broker_connections (db w) @ [pending_connection row_id now uid s b]\<rparr>"
  unfolding insert_pending_def map_errM_Inr
  by (cases rule: query_cases [of "insert_pending_sql row_id now uid s b" w])
     (auto simp: insert_pending_sql_def Let_def split: if_splits)

lemma register_and_store_Inr:
  assumes "register_and_store x now nonce row_id u w = (Inr (i, s), w')"
  shows "\<exists>blob b resp. decode_register (be_st x) b = Inr resp \<and> i = reg_user_id resp \<and> s = reg_user_secret resp \<and>
     encrypt (be_aead x) (be_key x) nonce s = Inr blob \<and>
     broker_connections (db w') = broker_connections (db w) @ [pending_connection row_id now (u_id u) i blob]"
proof -
  from assms obtain resp w1 v w2 blob w3 j w4 where
    o: "of_result (map_err from_snaptrade
          (register_user (be_st x) (be_client x) now (be_uuid_text x (u_id u)))) w = (Inr resp, w1)"
      "discard (record_event now (initiated_event (u_id u) (reg_user_id resp))) w1 = (Inr v :: app_error + unit, w2)"
      "of_result (map_err from_encryption
          (encrypt (be_aead x) (be_key x) nonce (reg_user_secret resp))) w2 = (Inr blob, w3)"
    and p0: "insert_pending row_id now (u_id u) (reg_user_id resp) blob w3 = (Inr j, w4)"
    and vals0: "(Inr (reg_user_id resp, reg_user_secret resp), w4) = (Inr (i, s), w')"
    unfolding register_and_store_def bindM_Inr_iff pure_def by blast
  then have vals: "i = reg_user_id resp" "s = reg_user_secret resp" "w4 = w'" by simp_all
  from o have r: "register_user (be_st x) (be_client x) now (be_uuid_text x (u_id u)) = Inr resp"
    and e: "encrypt (be_aead x) (be_key x) nonce (reg_user_secret resp) = Inr blob"
    and a: "discard (record_event now (initiated_event (u_id u) (reg_user_id resp))) w = (Inr () :: app_error + unit, w2)"
    and p: "insert_pending row_id now (u_id u) (reg_user_id resp) blob w2 = (Inr j, w')"
    using p0 vals(3) by (simp_all add: of_result_def)
  have "broker_connections (db w2) = broker_connections (db w)"
    using a by (auto simp: discard_def)
  with register_user_Inr [OF r] e insert_pending_effect [OF p] vals show ?thesis by auto
qed

lemma newest_after_first:
  assumes "newest_connection d uid = None" "broker_connections d' = broker_connections d @ [c]" "c_user_id c = uid"
  shows "newest_connection d' uid = Some c"
proof -
  from assms(1) have "filter (\<lambda>c. c_user_id c = uid) (broker_connections d) = []"
    by (simp add: newest_connection_def)
  with assms(2,3) show ?thesis by (simp add: newest_connection_def)
qed

text \<open>What the JSON package promises: a decoded secret is a string, that is, a sequence of Unicode
  scalar values.\<close>

definition decodes_text :: "st_env \<Rightarrow> bool" where
  "decodes_text x \<longleftrightarrow>
     (\<forall>b resp. decode_register x b = Inr resp \<longrightarrow> list_all scalar_value (reg_user_secret resp))"

lemma portal_credentials_Inr:
  assumes laws: "aead_laws (be_aead x)" "length (key_bytes (be_key x)) = 32" "length nonce = 12"
    and scalar: "decodes_text (be_st x)"
    and run: "portal_credentials x now nonce row_id u w = (Inr (i, s), w')"
  shows "\<exists>row. newest_connection (db w') (u_id u) = Some row \<and> c_snaptrade_user_id row = i \<and> secret_of x row = Inr s"
proof -
  from run obtain stored w1 where f: "fetch_any_for_user (u_id u) w = (Inr stored, w1)"
    and k: "(case stored of
         Some row \<Rightarrow> bindM (of_result (secret_of x row)) (\<lambda>s. pure (c_snaptrade_user_id row, s))
       | None \<Rightarrow> register_and_store x now nonce row_id u) w1 = (Inr (i, s), w')"
    unfolding portal_credentials_def bindM_Inr_iff by blast
  note d = fetch_any_Inr [OF f]
  show ?thesis
  proof (cases stored)
    case (Some row)
    with k have "secret_of x row = Inr s" "c_snaptrade_user_id row = i" "w' = w1"
      by (auto simp: bindM_Inr_iff of_result_def pure_def)
    moreover from d Some this(3) have "newest_connection (db w') (u_id u) = Some row" by simp
    ultimately show ?thesis by blast
  next
    case None
    with k have "register_and_store x now nonce row_id u w1 = (Inr (i, s), w')" by simp
    from register_and_store_Inr [OF this] obtain blob b resp where
      r: "decode_register (be_st x) b = Inr resp" "i = reg_user_id resp" "s = reg_user_secret resp"
        "encrypt (be_aead x) (be_key x) nonce s = Inr blob"
        "broker_connections (db w') = broker_connections (db w1) @ [pending_connection row_id now (u_id u) i blob]"
      by blast
    let ?c = "pending_connection row_id now (u_id u) i blob"
    have "newest_connection (db w') (u_id u) = Some ?c"
      using newest_after_first [of "db w1" "u_id u" "db w'" ?c] d None r(5)
      by (simp add: pending_connection_def)
    moreover have "decrypt (be_aead x) (be_key x) blob = Inr s"
      using decrypt_encrypt(1) [OF laws] scalar r(1,3,4) by (auto simp: decodes_text_def)
    ultimately show ?thesis by (simp add: secret_of_def pending_connection_def map_err_def)
  qed
qed

lemma login_portal_Inr:
  assumes "login_portal x now nonce tn row_id u m w = ((Inr resp, w'), m')"
  obtains i s where "check_limit now (u_id u) m = (Inr (), m')"
    "portal_credentials x now nonce row_id u w = (Inr (i, s), w')" "portal_url x now tn u (i, s) = Inr resp"
proof -
  obtain r m1 where c: "check_limit now (u_id u) m = (r, m1)" by (cases "check_limit now (u_id u) m")
  with assms obtain l where "r = Inr l" by (cases r) (auto simp: login_portal_def throw_def)
  with c assms have "open_portal x now nonce tn row_id u w = (Inr resp, w')" "m1 = m'"
    by (simp_all add: login_portal_def)
  then obtain i s where "portal_credentials x now nonce row_id u w = (Inr (i, s), w')"
    "portal_url x now tn u (i, s) = Inr resp"
    by (auto simp: open_portal_def bindM_Inr_iff of_result_def)
  with that c \<open>r = Inr l\<close> \<open>m1 = m'\<close> show thesis by simp
qed

lemma portal_url_Inr:
  assumes "portal_url x now tn u (i, s) = Inr resp"
  obtains tok redirect l where "issue (be_jwt x) now tn (u_id u) (be_state_secret x) = Inr tok"
    "be_with_state x (be_redirect_uri x) tok = Some redirect"
    "login_user (be_st x) (be_client x) now i s redirect = Inr l" "lp_url resp = login_redirect_uri l"
  using assms by (auto simp: portal_url_def and_then_Inr_iff)

subsection \<open>Disconnecting\<close>

lemma soft_delete_effect:
  "soft_delete now uid cid w = (r, w') \<Longrightarrow>
     (case r of
        Inl e \<Rightarrow> db w' = db w
      | Inr _ \<Rightarrow> db w' = (db w)\<lparr>broker_connections :=
          map (\<lambda>c. if c_id c = cid \<and> c_user_id c = uid then deleted_connection now c else c)
            (broker_connections (db w))\<rparr>)"
  unfolding soft_delete_def
  by (cases rule: query_cases [of "soft_delete_sql now uid cid" w])
     (auto simp: map_errM_def soft_delete_sql_def map_err_def)

lemma record_event_audit:
  "\<exists>as. audit_log (db (snd (record_event now e w))) = audit_log (db w) @ as"
proof -
  have "keeps (\<lambda>d. \<exists>as. audit_log d = audit_log (db w) @ as) (record_event now e)"
    unfolding record_event_def by (rule keeps_query) (auto simp: audit_sql_def)
  from keeps_run [OF this, of w] show ?thesis by simp
qed

lemma remove_upstream_Inr:
  "remove_upstream x now row = Inr v \<Longrightarrow> c_authorization_id row = Some auth \<Longrightarrow>
     c_disabled row \<or> (\<exists>secret. secret_of x row = Inr secret \<and>
       remove_authorization (be_st x) (be_client x) now (c_snaptrade_user_id row) secret auth = Inr ())"
  by (auto simp: remove_upstream_def and_then_Inr_iff split: if_splits)

lemma delete_connection_cases:
  assumes "delete_connection x now u auth w = (r, w')"
  obtains (failed) e where "r = Inl e" "db w' = db w"
  | (deleted) row w1 where "r = Inr True" "linked_connection (db w) (u_id u) auth = Some row"
      "remove_upstream x now row = Inr ()"
      "db w1 = (db w)\<lparr>broker_connections :=
          map (\<lambda>c. if c_id c = c_id row \<and> c_user_id c = u_id u then deleted_connection now c else c)
            (broker_connections (db w))\<rparr>"
      "w' = snd (record_event now (disconnect_event (u_id u) (c_authorization_id row)) w1)"
proof -
  obtain rf w0 where f: "fetch_by_authorization_id_for_user (u_id u) auth w = (rf, w0)"
    by (cases "fetch_by_authorization_id_for_user (u_id u) auth w")
  have d0: "db w0 = db w" and found: "\<And>c. rf = Inr c \<Longrightarrow> c = linked_connection (db w) (u_id u) auth"
    using f by (auto simp: fetch_by_authorization_id_for_user_def map_errM_def map_err_def
        dest: select_Inr reads_onlyD [OF reads_only_select] split: prod.splits sum.splits)
  show thesis
  proof (cases "rf = Inr None \<or> (\<exists>e. rf = Inl e) \<or> (\<exists>row e. rf = Inr (Some row) \<and> remove_upstream x now row = Inl e)")
    case True
    with f d0 assms failed show thesis
      by (auto simp: delete_connection_def bindM_def of_result_def ok_or_def)
  next
    case False
    then obtain row where row: "rf = Inr (Some row)" "remove_upstream x now row = Inr ()"
      by (metis not_None_eq old.sum.exhaust old.unit.exhaust)
    obtain rd w1 where s: "soft_delete now (u_id u) (c_id row) w0 = (rd, w1)"
      by (cases "soft_delete now (u_id u) (c_id row) w0")
    show thesis
    proof (cases rd)
      case (Inl e)
      with f row s d0 assms failed soft_delete_effect [OF s] show thesis
        by (auto simp: delete_connection_def bindM_def of_result_def ok_or_def)
    next
      case (Inr n)
      with f row s assms have "r = Inr True"
        "w' = snd (record_event now (disconnect_event (u_id u) (c_authorization_id row)) w1)"
        by (auto simp: delete_connection_def bindM_def of_result_def ok_or_def discard_def pure_def)
      with found [OF row(1)] row(2) soft_delete_effect [OF s] Inr d0 deleted [of row w1] show thesis by simp
    qed
  qed
qed

text \<open>Without database faults.\<close>

lemma delete_connection_done:
  assumes "faults w = []" "linked_connection (db w) (u_id u) auth = Some row" "remove_upstream x now row = Inr ()"
  shows "fst (delete_connection x now u auth w) = Inr True"
  using assms
  by (simp add: delete_connection_def fetch_by_authorization_id_for_user_def soft_delete_def soft_delete_sql_def
      act_simps result_simps)

lemma delete_connection_error:
  assumes "faults w = []" "fst (delete_connection x now u auth w) = Inl e"
  shows "linked_connection (db w) (u_id u) auth = None \<and> err_code e = NotFound \<or>
     (\<exists>row. linked_connection (db w) (u_id u) auth = Some row \<and> remove_upstream x now row = Inl e)"
proof (cases "linked_connection (db w) (u_id u) auth")
  case None
  with assms show ?thesis
    by (auto simp: delete_connection_def fetch_by_authorization_id_for_user_def act_simps result_simps err_defs)
next
  case (Some row)
  show ?thesis
  proof (cases "remove_upstream x now row")
    case (Inl e')
    with assms Some show ?thesis
      by (simp add: delete_connection_def fetch_by_authorization_id_for_user_def act_simps result_simps)
  next
    case (Inr v)
    with assms Some delete_connection_done [of w u auth row x now] show ?thesis by simp
  qed
qed

lemma removed_already:
  assumes "secret_of x row = Inr secret" "\<forall>h. header_value (be_st x) h = Inr h"
    "\<forall>req. st_http (be_st x) req = Reply 404 reply"
  shows "remove_upstream x now row = Inr ()"
  using assms
  by (simp add: remove_upstream_def remove_authorization_def send_signed_def read_reply_def is_success_def
      Let_def result_simps split: option.splits)

subsection \<open>Properties\<close>

text \<open>C33: the portal and the callback fit together.  When a portal is opened, the caller was within
  the limit, the redirect that SnapTrade is given carries a state token that the callback accepts
  for this very caller for the next ten and a half minutes, and the connection the callback will
  find is one whose stored secret decrypts to the credentials the portal was opened with - whether
  they were already there or have just been registered.\<close>

theorem portal_then_callback:
  assumes "jwt_laws (be_jwt x)" "aead_laws (be_aead x)" "length (key_bytes (be_key x)) = 32" "length nonce = 12"
    and "decodes_text (be_st x)"
    and "login_portal x now nonce tn row_id u m w = ((Inr resp, w'), m')"
  shows "fst (check_limit now (u_id u) m) = Inr () \<and>
     (\<exists>tok redirect row secret l.
        be_with_state x (be_redirect_uri x) tok = Some redirect \<and>
        newest_connection (db w') (u_id u) = Some row \<and> secret_of x row = Inr secret \<and>
        login_user (be_st x) (be_client x) now (c_snaptrade_user_id row) secret redirect = Inr l \<and>
        lp_url resp = login_redirect_uri l \<and>
        (\<forall>later q w2. cb_state q = Some tok \<longrightarrow> unix_timestamp later \<le> unix_timestamp now + 630 \<longrightarrow>
           callback_user x later q w2 = (Inr (u_id u), w2)))"
proof -
  from login_portal_Inr [OF assms(6)] obtain i s where
    p: "check_limit now (u_id u) m = (Inr (), m')"
      "portal_credentials x now nonce row_id u w = (Inr (i, s), w')" "portal_url x now tn u (i, s) = Inr resp" .
  from portal_url_Inr [OF p(3)] obtain tok redirect l where
    t: "issue (be_jwt x) now tn (u_id u) (be_state_secret x) = Inr tok"
      "be_with_state x (be_redirect_uri x) tok = Some redirect"
      "login_user (be_st x) (be_client x) now i s redirect = Inr l" "lp_url resp = login_redirect_uri l" .
  have cb: "callback_user x later q w2 = (Inr (u_id u), w2)"
    if "cb_state q = Some tok" "unix_timestamp later \<le> unix_timestamp now + 630" for later q w2
    using verify_state_issued(1) [OF assms(1) t(1) that(2)] that(1) by (simp add: callback_user_def pure_def)
  have "\<exists>row. newest_connection (db w') (u_id u) = Some row \<and> c_snaptrade_user_id row = i \<and> secret_of x row = Inr s"
    by (rule portal_credentials_Inr [OF assms(2-5) p(2)])
  then obtain row where "newest_connection (db w') (u_id u) = Some row" "c_snaptrade_user_id row = i"
    "secret_of x row = Inr s" by blast
  moreover from p(1) have "fst (check_limit now (u_id u) m) = Inr ()" by simp
  ultimately show ?thesis using t cb by blast
qed

theorem portal_then_callback_witness:
  "\<exists>resp w' m'. login_portal (sample_broker (\<lambda>_. Reply 200 []) []) 100000000000 (replicate 12 1) 9 7 broker_user
      (\<lambda>_. None) (broker_world []) = ((Inr resp, w'), m') \<and>
     (\<exists>row. newest_connection (db w') 1 = Some row) \<and>
     (\<exists>tok. callback_user (sample_broker (\<lambda>_. Reply 200 []) []) 730000000000
        \<lparr>cb_state = Some tok, cb_user_id = None\<rparr> w' = (Inr 1, w'))"
proof -
  let ?x = "sample_broker (\<lambda>_. Reply 200 []) []"
  have id: "u_id broker_user = 1" by (simp add: broker_user_def)
  have laws: "jwt_laws (be_jwt ?x)" "aead_laws (be_aead ?x)" "length (key_bytes (be_key ?x)) = 32"
    by (simp_all add: sample_broker_def sample_jwt_laws sample_aead_laws)
  have dec: "decodes_text (be_st ?x)" by (auto simp: decodes_text_def sample_broker_def sample_st_def)
  have iss: "issue (be_jwt ?x) 100000000000 9 1 (be_state_secret ?x) = Inr ''tok''"
    by (simp add: issue_def sample_broker_def sample_jwt_def sample_state_def unix_timestamp_def TTL_SECS_def map_err_def)
  obtain r w' m' where run: "login_portal ?x 100000000000 (replicate 12 1) 9 7 broker_user (\<lambda>_. None) (broker_world [])
      = ((r, w'), m')" by (metis surj_pair)
  have ins: "connection_indexes [pending_connection 7 100000000000 1 ''st-1'' b]" for b
    by (simp add: connection_indexes_def unique_on_def map_filter_Cons active_key_def pending_connection_def)
  have "\<exists>resp. r = Inr resp"
    using run iss ins
    by (auto simp: login_portal_def check_limit_def slots_of_def retain_after_def MAX_PER_WINDOW_def id open_portal_def
        portal_credentials_def register_and_store_def portal_url_def fetch_any_for_user_def newest_connection_def
        broker_world_def sample_broker_def sample_st_def register_user_def login_user_def send_signed_def Let_def
        read_reply_def is_success_def result_simps act_simps encrypt_def sample_aead_def insert_pending_def
        insert_pending_sql_def empty_database_def user_exists_def record_event_def audit_sql_def initiated_event_def
        event_defs broker_user_def)
  then obtain resp where r: "r = Inr resp" by blast
  have "length (replicate 12 (1 :: byte)) = 12" by simp
  from portal_then_callback [OF laws this dec run [unfolded r]] obtain tok row where
    "newest_connection (db w') (u_id broker_user) = Some row"
    "\<forall>later q w2. cb_state q = Some tok \<longrightarrow> unix_timestamp later \<le> unix_timestamp 100000000000 + 630 \<longrightarrow>
           callback_user ?x later q w2 = (Inr (u_id broker_user), w2)" by blast
  then have "newest_connection (db w') 1 = Some row"
    "callback_user ?x 730000000000 \<lparr>cb_state = Some tok, cb_user_id = None\<rparr> w' = (Inr 1, w')"
    by (auto simp: id unix_timestamp_def)
  with run r show ?thesis by blast
qed


lemma linked_sample_delete:
  "delete_connection (sample_broker (\<lambda>_. Reply 404 []) []) 60 broker_user ''a'' (broker_world [linked_sample ''a'']) =
     (Inr True, snd (record_event 60 (disconnect_event 1 (Some ''a''))
        (broker_world [deleted_connection 60 (linked_sample ''a'')])))"
proof -
  have row: "c_user_id (linked_sample ''a'') = 1" "c_id (linked_sample ''a'') = 7" "\<not> c_disabled (linked_sample ''a'')"
    "c_authorization_id (linked_sample ''a'') = Some ''a''"
    "c_secret_encrypted (linked_sample ''a'') = replicate 12 1 @ utf8_bytes (ascii ''s'') @ replicate 16 0"
    by (simp_all add: linked_sample_def completed_connection_def sample_connection_def pending_connection_def)
  have "remove_upstream (sample_broker (\<lambda>_. Reply 404 []) []) 60 (linked_sample ''a'') = Inr ()"
    using sample_secret [OF row(5)] row(3,4)
    by (simp add: remove_upstream_def remove_authorization_def send_signed_def sample_broker_def sample_st_def
        read_reply_def is_success_def Let_def result_simps)
  with row show ?thesis
    by (simp add: delete_connection_def fetch_by_authorization_id_for_user_def linked_connection_def soft_delete_def
        soft_delete_sql_def broker_world_def broker_user_def act_simps result_simps)
qed

text \<open>SnapTrade removes the authorization, then the update fails.\<close>

lemma linked_sample_half_deleted:
  "remove_upstream (sample_broker (\<lambda>_. Reply 200 []) []) 60 (linked_sample ''a'') = Inr ()"
  "\<exists>e w'. delete_connection (sample_broker (\<lambda>_. Reply 200 []) []) 60 broker_user ''a''
     ((broker_world [linked_sample ''a''])\<lparr>faults := [False, True]\<rparr>) = (Inl e, w')"
proof -
  have row: "c_user_id (linked_sample ''a'') = 1" "\<not> c_disabled (linked_sample ''a'')"
    "c_authorization_id (linked_sample ''a'') = Some ''a''"
    "c_secret_encrypted (linked_sample ''a'') = replicate 12 1 @ utf8_bytes (ascii ''s'') @ replicate 16 0"
    by (simp_all add: linked_sample_def completed_connection_def sample_connection_def pending_connection_def)
  show r: "remove_upstream (sample_broker (\<lambda>_. Reply 200 []) []) 60 (linked_sample ''a'') = Inr ()"
    using sample_secret [OF row(4)] row(2,3)
    by (simp add: remove_upstream_def remove_authorization_def send_signed_def sample_broker_def sample_st_def
        read_reply_def is_success_def Let_def result_simps)
  show "\<exists>e w'. delete_connection (sample_broker (\<lambda>_. Reply 200 []) []) 60 broker_user ''a''
     ((broker_world [linked_sample ''a''])\<lparr>faults := [False, True]\<rparr>) = (Inl e, w')"
    using r row
    by (simp add: delete_connection_def fetch_by_authorization_id_for_user_def linked_connection_def soft_delete_def
        query_def select_def broker_world_def broker_user_def act_simps result_simps)
qed


text \<open>A repeated request on a disabled row talks to nobody, but is audited once more.\<close>

lemma repeated_disconnect_audited:
  assumes "faults w = []" "linked_connection (db w) (u_id u) auth = Some row" "c_disabled row"
    and "user_exists (db w) (u_id u)"
  shows "fst (delete_connection x now u auth w) = Inr True \<and>
     audit_log (db (snd (delete_connection x now u auth w))) =
       audit_log (db w) @ [audit_row_of now (disconnect_event (u_id u) (Some auth))]"
  using assms linked_connection_in [OF assms(2)]
  by (simp add: delete_connection_def fetch_by_authorization_id_for_user_def remove_upstream_def soft_delete_def
      soft_delete_sql_def record_event_def audit_sql_def disconnect_event_def event_defs act_simps result_simps)

end
