(* ===== verification/Service.thy ===== *)
theory Service
  imports Teams Monthly_Reports Snaptrade_Flows
begin

text \<open>
  The service as a whole: every request handler, background job and database fault as one step
  relation, the statements they are made of as another, and what all of them keep of the
  database: the indexes and constraints of every table, the references between the tables, and
  the append-only logs.
\<close>

subsection \<open>Statements\<close>

text \<open>Every statement of the service that writes.\<close>

inductive sql_step :: "database \<Rightarrow> database \<Rightarrow> bool" where
  sql_user: "sql_step d (snd (upsert_user_sql sid a d))"
| sql_name: "sql_step d (snd (update_display_name_sql now uid name d))"
| sql_stub: "sql_step d (snd (customer_stub_sql row_id uid cid now d))"
| sql_webhook: "sql_step d (snd (webhook_sql row_id now p d))"
| sql_reset: "sql_step d (snd (update_subscriptions (\<lambda>s. s_subscription_id s = Some sub_id)
     (\<lambda>s. s\<lparr>s_credits_used := 0, s_credits_period_start := Some period_start, s_updated_at := now\<rparr>) d))"
| sql_usage: "sql_step d (snd (usage_sql now uid metric units cost model kind d))"
| sql_credits: "sql_step d (snd (add_credits_sql now uid credits d))"
| sql_event: "sql_step d (snd (record_event_sql now ty eid d))"
| sql_enqueue: "sql_step d (snd (enqueue_sql row_id now uid start end_day d))"
| sql_succeeded: "sql_step d (snd (update_report rid (succeeded_row now md model 0) d))"
| sql_failed: "sql_step d (snd (update_report rid (failed_row now reason) d))"
| sql_invite: "i_redeemed_by i = None \<Longrightarrow> sql_step d (snd (insert_invite_sql i d))"
| sql_member: "sql_step d (snd (upsert_member_sql k m d))"
| sql_redeem: "sql_step d (snd (redeem_sql now uid token d))"
| sql_connection: "connection_step d d' \<Longrightarrow> sql_step d d'"

subsection \<open>The invariant\<close>

text \<open>The foreign keys, and the \<open>NOT NULL\<close> that 0005 puts on \<open>subscriptions.team_id\<close>.\<close>

definition subscription_refs :: "database \<Rightarrow> subscription \<Rightarrow> bool" where
  "subscription_refs d s \<longleftrightarrow>
     user_exists d (s_user_id s) \<and> team_known d (s_team_id s) \<and> (team_id_required d \<longrightarrow> s_team_id s \<noteq> None)"

definition invite_refs :: "database \<Rightarrow> team_invite \<Rightarrow> bool" where
  "invite_refs d i \<longleftrightarrow>
     team_exists d (i_team_id i) \<and> user_exists d (i_invited_by i) \<and>
     (\<forall>uid. i_redeemed_by i = Some uid \<longrightarrow> user_exists d uid)"

definition references_ok :: "database \<Rightarrow> bool" where
  "references_ok d \<longleftrightarrow>
     (\<forall>s\<in>set (subscriptions d). subscription_refs d s) \<and>
     (\<forall>t\<in>set (teams d). user_exists d (t_owner_user_id t)) \<and>
     (\<forall>l\<in>set (usage_ledger d). user_exists d (l_user_id l)) \<and>
     (\<forall>r\<in>set (monthly_reports d). user_exists d (r_user_id r)) \<and>
     (\<forall>m\<in>set (team_members d). team_exists d (m_team_id m) \<and> user_exists d (m_user_id m)) \<and>
     (\<forall>i\<in>set (team_invites d). invite_refs d i) \<and>
     (\<forall>a\<in>set (audit_log d). \<forall>uid. a_user_id a = Some uid \<longrightarrow> user_exists d uid)"

definition service_inv :: "database \<Rightarrow> bool" where
  "service_inv d \<longleftrightarrow>
     users_inv d \<and> billing_inv d \<and> reports_inv d \<and> teams_inv d \<and> connections_inv d \<and> references_ok d"

lemmas service_inv_defs = service_inv_def users_inv_def billing_inv_def reports_inv_def teams_inv_def
  connections_inv_def connection_ok_def references_ok_def subscription_refs_def invite_refs_def
  team_known_iff team_id_required_def user_exists_def team_exists_def

text \<open>A statement writes one table; what is left to show is about that table.\<close>

lemma service_inv_users:
  assumes "service_inv d" "d' = d\<lparr>users := us\<rparr>" "users_inv d'" "\<And>uid. user_exists d uid \<Longrightarrow> user_exists d' uid"
  shows "service_inv d'"
proof -
  have "team_exists d' = team_exists d" by (simp add: fun_eq_iff team_exists_def assms(2))
  with assms show ?thesis
    unfolding service_inv_def references_ok_def connections_inv_def connection_ok_def subscription_refs_def
      invite_refs_def team_known_iff team_id_required_def
    by (auto simp: billing_inv_def reports_inv_def teams_inv_def)
qed

lemma service_inv_subscriptions:
  assumes "service_inv d" "d' = d\<lparr>subscriptions := ss\<rparr>" "billing_inv d'"
    "\<And>s. s \<in> set ss \<Longrightarrow> subscription_refs d s"
  shows "service_inv d'"
  using assms by (simp add: service_inv_defs)

lemma service_inv_ledger:
  assumes "service_inv d" "d' = d\<lparr>usage_ledger := ls\<rparr>" "billing_inv d'"
    "\<And>l. l \<in> set ls \<Longrightarrow> user_exists d (l_user_id l)"
  shows "service_inv d'"
  using assms by (simp add: service_inv_defs)

lemma service_inv_events:
  assumes "service_inv d" "d' = d\<lparr>stripe_events := es\<rparr>" "billing_inv d'"
  shows "service_inv d'"
  using assms by (simp add: service_inv_defs)

lemma service_inv_reports:
  assumes "service_inv d" "d' = d\<lparr>monthly_reports := rs\<rparr>" "reports_inv d'"
    "\<And>r. r \<in> set rs \<Longrightarrow> user_exists d (r_user_id r)"
  shows "service_inv d'"
  using assms by (simp add: service_inv_defs)

lemma service_inv_members:
  assumes "service_inv d" "d' = d\<lparr>team_members := ms\<rparr>" "teams_inv d'"
    "\<And>m. m \<in> set ms \<Longrightarrow> team_exists d (m_team_id m) \<and> user_exists d (m_user_id m)"
  shows "service_inv d'"
  using assms by (simp add: service_inv_defs)

lemma service_inv_invites:
  assumes "service_inv d" "d' = d\<lparr>team_invites := js\<rparr>" "teams_inv d'"
    "\<And>i. i \<in> set js \<Longrightarrow> invite_refs d i"
  shows "service_inv d'"
  using assms by (simp add: service_inv_defs)

lemma service_inv_connections:
  assumes "service_inv d" "d' = d\<lparr>broker_connections := cs\<rparr>" "connections_inv d'"
  shows "service_inv d'"
  using assms by (simp add: service_inv_defs)

lemma service_inv_audit:
  assumes "service_inv d" "d' = d\<lparr>audit_log := audit_log d @ as\<rparr>"
    "\<And>a uid. a \<in> set as \<Longrightarrow> a_user_id a = Some uid \<Longrightarrow> user_exists d uid"
  shows "service_inv d'"
  using assms by (auto simp: service_inv_defs)

lemma keeps_queryD:
  assumes "keeps P (query q)" "P d"
  shows "P (snd (q d))"
proof -
  have "P (db (snd (query q \<lparr>db = d, faults = []\<rparr>)))"
    by (rule keeps_run [OF assms(1)]) (simp add: assms(2))
  then show ?thesis by (simp add: query_def split: prod.splits)
qed

lemmas billing_statements =
  keeps_queryD [OF keeps_upsert_customer_stub [unfolded upsert_customer_stub_def]]
  keeps_queryD [OF keeps_upsert_from_webhook [unfolded upsert_from_webhook_def]]
  keeps_queryD [OF keeps_reset_ai_credits [unfolded reset_ai_credits_def]]
  keeps_queryD [OF keeps_record_usage [unfolded record_usage_def]]
  keeps_queryD [OF keeps_add_ai_credits_used [unfolded add_ai_credits_used_def]]
  keeps_queryD [OF keeps_try_record_stripe_event [unfolded try_record_stripe_event_def]]

lemmas report_statements =
  keeps_queryD [OF keeps_enqueue_pending [unfolded enqueue_pending_def]]
  keeps_queryD [OF keeps_mark_succeeded [unfolded mark_succeeded_def]]
  keeps_queryD [OF keeps_mark_failed [unfolded mark_failed_def]]

text \<open>A write to the subscriptions keeps what the rows refer to.\<close>

definition writes_subscriptions :: "database \<Rightarrow> database \<Rightarrow> bool" where
  "writes_subscriptions d d' \<longleftrightarrow>
     d' = d\<lparr>subscriptions := subscriptions d'\<rparr> \<and>
     (\<forall>x\<in>set (subscriptions d'). subscription_refs d x \<or>
        (\<exists>y\<in>set (subscriptions d). s_user_id x = s_user_id y \<and> s_team_id x = s_team_id y))"

lemma writes_update_subscriptions:
  assumes "\<And>s. s_user_id (upd s) = s_user_id s \<and> s_team_id (upd s) = s_team_id s"
  shows "writes_subscriptions d (snd (update_subscriptions sel upd d))"
  using assms by (fastforce simp: writes_subscriptions_def update_subscriptions_def Let_def)

lemma writes_insert_subscription:
  "proposed_row_error d s = None \<Longrightarrow> writes_subscriptions d (snd (insert_subscription s d))"
  by (auto simp: writes_subscriptions_def insert_subscription_def subscription_refs_def proposed_row_error_def
      split: if_splits)

lemma writes_nothing: "writes_subscriptions d d"
  by (auto simp: writes_subscriptions_def)

lemma writes_statements:
  "writes_subscriptions d (snd (customer_stub_sql row_id uid cid now d))"
  "writes_subscriptions d (snd (webhook_sql row_id now p d))"
  by (auto simp: customer_stub_sql_def webhook_sql_def Let_def
      intro: writes_nothing writes_insert_subscription writes_update_subscriptions split: option.splits)

lemma writes_add_credits: "writes_subscriptions d (snd (add_credits_sql now uid credits d))"
  by (fastforce simp: writes_subscriptions_def add_credits_sql_def split: list.splits)

lemma service_inv_writes:
  assumes "service_inv d" "writes_subscriptions d d'" "billing_inv d'"
  shows "service_inv d'"
proof (rule service_inv_subscriptions [OF assms(1) _ assms(3)])
  show "d' = d\<lparr>subscriptions := subscriptions d'\<rparr>" using assms(2) by (simp add: writes_subscriptions_def)
  show "subscription_refs d s" if "s \<in> set (subscriptions d')" for s
    using assms(1,2) that
    by (fastforce simp: writes_subscriptions_def service_inv_def references_ok_def subscription_refs_def)
qed

lemma service_invD:
  assumes "service_inv d"
  shows "users_inv d" "billing_inv d" "reports_inv d" "teams_inv d" "connections_inv d" "references_ok d"
  using assms by (simp_all add: service_inv_def)

lemma user_exists_map:
  "(\<And>u. u_id (f u) = u_id u) \<Longrightarrow> user_exists (d\<lparr>users := map f (users d)\<rparr>) i = user_exists d i"
  by (simp add: user_exists_def)

lemma users_kept:
  "user_exists d i \<Longrightarrow> user_exists (snd (upsert_user_sql sid a d)) i"
  "user_exists d i \<Longrightarrow> user_exists (snd (update_display_name_sql now uid name d)) i"
proof -
  show "user_exists d i \<Longrightarrow> user_exists (snd (upsert_user_sql sid a d)) i"
    by (auto simp: upsert_user_sql_def user_exists_map merge_user_keys split: option.splits)
       (simp add: user_exists_def)
  show "user_exists d i \<Longrightarrow> user_exists (snd (update_display_name_sql now uid name d)) i"
    by (simp add: update_display_name_sql_def user_exists_map rename_def split: option.splits)
qed

lemma user_writes:
  "snd (upsert_user_sql sid a d) = d\<lparr>users := users (snd (upsert_user_sql sid a d))\<rparr>"
  "snd (update_display_name_sql now uid name d) = d\<lparr>users := users (snd (update_display_name_sql now uid name d))\<rparr>"
  by (simp_all add: upsert_user_sql_def update_display_name_sql_def split: option.splits)

lemma user_statements:
  assumes "service_inv d"
  shows "service_inv (snd (upsert_user_sql sid a d))" "service_inv (snd (update_display_name_sql now uid name d))"
proof -
  show "service_inv (snd (upsert_user_sql sid a d))"
    by (rule service_inv_users [OF assms user_writes(1) upsert_user_sql_keeps [OF service_invD(1) [OF assms]]])
       (rule users_kept(1))
  show "service_inv (snd (update_display_name_sql now uid name d))"
    by (rule service_inv_users [OF assms user_writes(2) keeps_users_inv_patch [OF service_invD(1) [OF assms]]])
       (rule users_kept(2))
qed

lemma ledger_statements:
  assumes "service_inv d"
  shows "service_inv (snd (usage_sql now uid metric units cost model kind d))" (is "service_inv ?d1")
    and "service_inv (snd (record_event_sql now ty eid d))" (is "service_inv ?d2")
proof -
  have "\<forall>l\<in>set (usage_ledger d). user_exists d (l_user_id l)"
    using assms by (simp add: service_inv_def references_ok_def)
  then have "?d1 = d\<lparr>usage_ledger := usage_ledger ?d1\<rparr>" "\<forall>l\<in>set (usage_ledger ?d1). user_exists d (l_user_id l)"
    by (auto simp: usage_sql_def split: option.splits)
  then show "service_inv ?d1"
    using billing_statements(4) [OF service_invD(2) [OF assms]]
    by (intro service_inv_ledger [OF assms]) auto
  have "?d2 = d\<lparr>stripe_events := stripe_events ?d2\<rparr>"
    by (simp add: record_event_sql_def)
  moreover have "billing_inv ?d2"
    using billing_statements(6) [OF service_invD(2) [OF assms], of now ty eid] by (simp add: case_prod_beta)
  ultimately show "service_inv ?d2" by (rule service_inv_events [OF assms])
qed

lemma report_row_statements:
  assumes "service_inv d"
  shows "service_inv (snd (enqueue_sql row_id now uid start end_day d))" (is "service_inv ?d1")
    and "service_inv (snd (update_report rid (succeeded_row now md model 0) d))"
    and "service_inv (snd (update_report rid (failed_row now reason) d))"
proof -
  have refs: "\<forall>r\<in>set (monthly_reports d). user_exists d (r_user_id r)"
    using assms by (simp add: service_inv_def references_ok_def)
  then have "?d1 = d\<lparr>monthly_reports := monthly_reports ?d1\<rparr>"
    "\<forall>r\<in>set (monthly_reports ?d1). user_exists d (r_user_id r)"
    by (auto simp: enqueue_sql_def pending_row_def)
  then show "service_inv ?d1"
    using report_statements(1) [OF service_invD(3) [OF assms]]
    by (intro service_inv_reports [OF assms]) auto
  show "service_inv (snd (update_report rid (succeeded_row now md model 0) d))"
    using report_statements(2) [OF service_invD(3) [OF assms]] refs
    by (intro service_inv_reports [OF assms]) (auto simp: update_report_def succeeded_row_def)
  show "service_inv (snd (update_report rid (failed_row now reason) d))"
    using report_statements(3) [OF service_invD(3) [OF assms]] refs
    by (intro service_inv_reports [OF assms]) (auto simp: update_report_def failed_row_def)
qed

lemma team_statements:
  assumes "service_inv d"
  shows "i_redeemed_by i = None \<Longrightarrow> service_inv (snd (insert_invite_sql i d))" (is "_ \<Longrightarrow> service_inv ?d1")
    and "service_inv (snd (upsert_member_sql k m d))" (is "service_inv ?d2")
    and "service_inv (snd (redeem_sql now uid token d))" (is "service_inv ?d3")
proof -
  have refs: "\<forall>m\<in>set (team_members d). team_exists d (m_team_id m) \<and> user_exists d (m_user_id m)"
    "\<forall>i\<in>set (team_invites d). invite_refs d i"
    using assms by (simp_all add: service_inv_def references_ok_def)
  show "service_inv ?d1" if "i_redeemed_by i = None"
  proof (rule service_inv_invites [OF assms, where js = "team_invites ?d1"])
    show "?d1 = d\<lparr>team_invites := team_invites ?d1\<rparr>" by (simp add: insert_invite_sql_def)
    show "teams_inv ?d1" by (rule insert_invite_keeps [OF service_invD(4) [OF assms]])
    show "invite_refs d j" if "j \<in> set (team_invites ?d1)" for j
      using that refs(2) \<open>i_redeemed_by i = None\<close> by (auto simp: insert_invite_sql_def invite_refs_def split: if_splits)
  qed
  have "?d2 = d\<lparr>team_members := team_members ?d2\<rparr>"
    "\<forall>m\<in>set (team_members ?d2). team_exists d (m_team_id m) \<and> user_exists d (m_user_id m)"
    using refs by (auto simp: upsert_member_sql_def merge_member_def)
  then show "service_inv ?d2"
    using upsert_member_keeps [OF service_invD(4) [OF assms]] by (intro service_inv_members [OF assms]) auto
  show "service_inv ?d3"
  proof (rule service_inv_invites [OF assms, where js = "team_invites ?d3"])
    show "?d3 = d\<lparr>team_invites := team_invites ?d3\<rparr>" by (simp add: redeem_sql_def)
    show "teams_inv ?d3" by (rule redeem_keeps [OF service_invD(4) [OF assms]])
    show "invite_refs d j" if "j \<in> set (team_invites ?d3)" for j
      using that refs(2) by (auto simp: redeem_sql_def invite_refs_def split: if_splits)
  qed
qed

lemma connection_statements:
  assumes "service_inv d" "connection_step d d'"
  shows "service_inv d'"
  using assms(2)
proof cases
  case (conn_audit now e)
  show ?thesis
  proof (cases "snd (audit_sql now e d) = d")
    case False
    then have "snd (audit_sql now e d) = d\<lparr>audit_log := audit_log d @ [audit_row_of now e]\<rparr>"
      "\<And>uid. ev_user_id e = Some uid \<Longrightarrow> user_exists d uid"
      by (auto simp: audit_sql_def split: option.splits if_splits)
    then show ?thesis unfolding conn_audit
      by (rule service_inv_audit [OF assms(1)]) (auto simp: audit_row_of_def)
  qed (use assms(1) conn_audit in simp)
next
  case (conn_insert row_id now uid st_uid blob)
  have "d' = d\<lparr>broker_connections := broker_connections d'\<rparr>"
    by (simp add: conn_insert insert_pending_sql_def Let_def)
  then show ?thesis
    using connection_step_inv [OF assms(2) service_invD(5) [OF assms(1)]] by (rule service_inv_connections [OF assms(1)])
next
  case (conn_complete now cid auth slug inst)
  have "d' = d\<lparr>broker_connections := broker_connections d'\<rparr>"
    by (simp add: conn_complete mark_completed_sql_def Let_def)
  then show ?thesis
    using connection_step_inv [OF assms(2) service_invD(5) [OF assms(1)]] by (rule service_inv_connections [OF assms(1)])
next
  case (conn_delete now uid cid)
  have "d' = d\<lparr>broker_connections := broker_connections d'\<rparr>"
    by (simp add: conn_delete soft_delete_sql_def)
  then show ?thesis
    using connection_step_inv [OF assms(2) service_invD(5) [OF assms(1)]] by (rule service_inv_connections [OF assms(1)])
qed

lemma sql_step_inv: "sql_step d d' \<Longrightarrow> service_inv d \<Longrightarrow> service_inv d'"
proof (induction rule: sql_step.induct)
  case (sql_stub d row_id uid cid now)
  then show ?case by (intro service_inv_writes [OF _ writes_statements(1)] billing_statements(1) service_invD)
next
  case (sql_webhook d row_id now p)
  then show ?case by (intro service_inv_writes [OF _ writes_statements(2)] billing_statements(2) service_invD)
next
  case (sql_reset d sub_id period_start now)
  show ?case
    by (intro service_inv_writes [OF sql_reset writes_update_subscriptions] billing_statements(3)
        service_invD(2) [OF sql_reset]) simp
next
  case (sql_credits d now uid credits)
  then show ?case by (intro service_inv_writes [OF _ writes_add_credits] billing_statements(5) service_invD)
qed (simp_all add: user_statements ledger_statements report_row_statements team_statements connection_statements)

subsection \<open>The logs\<close>

text \<open>The usage ledger, the processed Stripe events and the audit trail are append-only, and no
  account and no connection disappears.\<close>

definition append_only :: "database \<Rightarrow> database \<Rightarrow> bool" where
  "append_only d d' \<longleftrightarrow>
     (\<exists>ls. usage_ledger d' = usage_ledger d @ ls) \<and>
     (\<exists>es. stripe_events d' = stripe_events d @ es) \<and>
     (\<exists>as. audit_log d' = audit_log d @ as) \<and>
     (\<forall>uid. user_exists d uid \<longrightarrow> user_exists d' uid)"

lemma append_only_trans: "append_only a b \<Longrightarrow> append_only b c \<Longrightarrow> append_only a c"
  by (fastforce simp: append_only_def)

lemma append_only_frame:
  "usage_ledger d' = usage_ledger d \<Longrightarrow> stripe_events d' = stripe_events d \<Longrightarrow> audit_log d' = audit_log d \<Longrightarrow>
   (\<And>uid. user_exists d uid \<Longrightarrow> user_exists d' uid) \<Longrightarrow> append_only d d'"
  by (simp add: append_only_def)

lemma append_only_refl: "append_only d d"
  by (rule append_only_frame) simp_all

lemma append_only_users:
  assumes "d' = d\<lparr>users := us\<rparr>" "\<And>uid. user_exists d uid \<Longrightarrow> user_exists d' uid"
  shows "append_only d d'"
  using assms by (intro append_only_frame) auto

lemma append_only_writes:
  assumes "writes_subscriptions d d'"
  shows "append_only d d'"
proof -
  from assms obtain ss where "d' = d\<lparr>subscriptions := ss\<rparr>" by (auto simp: writes_subscriptions_def)
  then show ?thesis by (intro append_only_frame) (simp_all add: user_exists_def)
qed

lemma append_only_connection: "connection_step d d' \<Longrightarrow> append_only d d'"
  by (induction rule: connection_step.induct)
     (auto simp: append_only_def insert_pending_sql_def mark_completed_sql_def soft_delete_sql_def audit_sql_def Let_def
        split: if_splits)

lemma append_only_tables:
  "append_only d (snd (usage_sql now uid metric units cost model kind d))"
  "append_only d (snd (record_event_sql now ty eid d))"
  "append_only d (snd (enqueue_sql row_id now uid start end_day d))"
  "append_only d (snd (update_report rid upd d))"
  "append_only d (snd (insert_invite_sql i d))"
  "append_only d (snd (upsert_member_sql k m d))"
  "append_only d (snd (redeem_sql now uid token d))"
  by (auto simp: append_only_def usage_sql_def record_event_sql_def enqueue_sql_def update_report_def
      insert_invite_sql_def upsert_member_sql_def redeem_sql_def user_exists_def split: option.splits)

lemma append_only_step: "sql_step d d' \<Longrightarrow> append_only d d'"
proof (induction rule: sql_step.induct)
  case (sql_reset d sub_id period_start now)
  show ?case by (intro append_only_writes writes_update_subscriptions) simp
qed (auto intro: append_only_users [OF user_writes(1) users_kept(1)] append_only_users [OF user_writes(2) users_kept(2)]
    append_only_writes writes_statements writes_add_credits append_only_connection append_only_tables)

interpretation statements: progress_system service_inv sql_step service_inv append_only
  by unfold_locales (auto intro: sql_step_inv append_only_refl append_only_trans append_only_step)

subsection \<open>Requests and jobs\<close>

text \<open>
  One step of the service: a request at any endpoint, with the extractor's upsert as a step of
  its own, the task that streams a chat reply, the two scheduled jobs, or a change of the faults
  the database will have.  The users the handlers are given are arbitrary.
\<close>

inductive service_step :: "'k auth_env \<Rightarrow> broker_env \<Rightarrow> world \<Rightarrow> world \<Rightarrow> bool" for ax bx where
  svc_authenticate: "service_step ax bx w (snd (fst (authenticate ax c now reply row_id header st) w))"
| svc_get_me: "service_step ax bx w (snd (get_me fmt u w))"
| svc_patch_me: "service_step ax bx w (snd (patch_me fmt now u name w))"
| svc_list_for_me: "service_step ax bx w (snd (list_for_me collate fmt u w))"
| svc_list_members: "service_step ax bx w (snd (list_members fmt u tid w))"
| svc_create_invite: "service_step ax bx w (snd (create_invite ix token now u tid req w))"
| svc_get_invite: "service_step ax bx w (snd (get_invite ix now token w))"
| svc_accept_invite: "service_step ax bx w (snd (accept_invite now u token w))"
| svc_checkout: "service_step ax bx w (snd (create_checkout_session_handler billing row_id now u ck w))"
| svc_portal: "service_step ax bx w (snd (create_portal_session billing u w))"
| svc_usage: "service_step ax bx w (snd (record_usage_handler now u us w))"
| svc_chat: "service_step ax bx w (snd (chat upstream billing u cr w))"
| svc_stream: "service_step ax bx w (snd (run_stream aix now chunks client uid model kind w))"
| svc_webhook: "service_step ax bx w (snd (receive_webhook wx billing signature body row_id now w))"
| svc_reports: "service_step ax bx w (snd (list_monthly_reports u limit w))"
| svc_request_report: "service_step ax bx w (snd (request_monthly_report row_id now today u w))"
| svc_enqueue_job: "service_step ax bx w (snd (run_enqueue row_ids now today w))"
| svc_worker_job: "service_step ax bx w (snd (run_worker_tick show_uuid now w))"
| svc_broker: "broker_step bx w w' \<Longrightarrow> service_step ax bx w w'"
| svc_faults: "service_step ax bx w (w\<lparr>faults := fs\<rparr>)"

text \<open>Each of them is a sequence of statements, also when it fails half way.\<close>

lemma runs_sql [keeps_intros]:
  "keeps (steps sql_step d0) (query (upsert_user_sql sid a))"
  "keeps (steps sql_step d0) (update_display_name now uid name)"
  "keeps (steps sql_step d0) (upsert_customer_stub row_id now uid cid)"
  "keeps (steps sql_step d0) (upsert_from_webhook row_id now p)"
  "keeps (steps sql_step d0) (reset_ai_credits now sub_id period_start)"
  "keeps (steps sql_step d0) (record_usage now uid metric units cost model kind)"
  "keeps (steps sql_step d0) (add_ai_credits_used now uid credits)"
  "keeps (steps sql_step d0) (enqueue_pending row_id now uid start end_day)"
  "keeps (steps sql_step d0) (mark_succeeded now rid md mdl 0)"
  "keeps (steps sql_step d0) (mark_failed now rid reason)"
  "keeps (steps sql_step d0) (query (insert_invite_sql (invite_row token tid uid email role now expires)))"
  "keeps (steps sql_step d0) (query (upsert_member_sql k m))"
  "keeps (steps sql_step d0) (query (redeem_sql now uid token))"
  unfolding update_display_name_def upsert_customer_stub_def upsert_from_webhook_def reset_ai_credits_def
    record_usage_def add_ai_credits_used_def enqueue_pending_def mark_succeeded_def mark_failed_def
  by (rule keeps_query; erule steps_step; rule sql_step.intros; simp add: invite_row_def)+

lemma runs_record_event [keeps_intros]:
  "keeps (steps sql_step d0) (try_record_stripe_event now eid ty)"
  unfolding try_record_stripe_event_def
  by (rule keeps_query) (auto intro: steps_step sql_event [of _ now ty eid] simp: case_prod_beta)

lemma keeps_mapM [keeps_intros]: "(\<And>x. keeps P (f x)) \<Longrightarrow> keeps P (mapM f xs)"
  by (induction xs) (auto intro!: keeps_pure keeps_bindM)

lemma runs_service:
  "keeps (steps sql_step d0) (upsert_user_from_claims ax row_id now cl)"
  "keeps (steps sql_step d0) (patch_me fmt now u name)"
  "keeps (steps sql_step d0) (create_invite ix token now u tid req)"
  "keeps (steps sql_step d0) (accept_invite now u token)"
  "keeps (steps sql_step d0) (create_checkout_session_handler billing row_id now u ck)"
  "keeps (steps sql_step d0) (record_usage_handler now u us)"
  "keeps (steps sql_step d0) (charge_reply now uid tu model kind)"
  "keeps (steps sql_step d0) (receive_webhook wx billing signature body row_id now)"
  "keeps (steps sql_step d0) (request_monthly_report row_id now today u)"
  "keeps (steps sql_step d0) (run_enqueue row_ids now today)"
  "keeps (steps sql_step d0) (run_worker_tick show_uuid now)"
  unfolding upsert_user_from_claims_def patch_me_def fetch_active_def invite_phases Let_def
    create_checkout_session_handler_def ensure_customer_def
    fetch_customer_id_def record_usage_handler_def charge_reply_def receive_webhook_def process_event_def
    handle_event_def resolve_user_id_def request_monthly_report_def fetch_one_by_period_def run_enqueue_def
    run_worker_tick_def fetch_pending_def generate_one_def
  by (intro keeps_intros)+

lemma reads_service:
  "keeps P (get_me fmt u)" "keeps P (list_for_me collate fmt u)" "keeps P (list_members fmt u tid)"
  "keeps P (get_invite ix now token)" "keeps P (create_portal_session billing u)"
  "keeps P (list_monthly_reports u limit)"
  unfolding get_me_def fetch_active_def list_for_me_def list_teams_for_user_def role_for_def list_members_def
    list_team_members_def member_dto_def fetch_user_by_id_def get_invite_def create_portal_session_def fetch_customer_id_def
    list_monthly_reports_def list_for_user_def Let_def
  by (intro keeps_intros)+

lemma runs_stream: "keeps (steps sql_step d0) (run_stream aix now chunks client uid model kind)"
  unfolding run_stream_spec Let_def by (intro keeps_intros runs_service)

lemma runs_authenticate: "keeps (steps sql_step d0) (fst (authenticate ax c now reply row_id header st))"
  unfolding authenticate_def
  by (auto split: option.splits sum.splits prod.splits intro: keeps_throw runs_service)

lemma connection_steps_sql: "steps connection_step d d' \<Longrightarrow> steps sql_step d d'"
  by (induction rule: steps.induct) (auto intro: steps.intros sql_connection)

lemmas runs_from_start =
  runs_service [THEN keeps_run, OF steps_refl] runs_stream [THEN keeps_run, OF steps_refl]
  runs_authenticate [THEN keeps_run, OF steps_refl] keeps_chat [where P = "steps sql_step d0" for d0, THEN keeps_run, OF steps_refl]
  reads_service [where P = "steps sql_step d0" for d0, THEN keeps_run, OF steps_refl]

lemma service_step_runs: "service_step ax bx w w' \<Longrightarrow> steps sql_step (db w) (db w')"
  by (induction rule: service_step.induct)
     (auto intro: runs_from_start connection_steps_sql broker_step_runs steps_refl)

interpretation service: progress_system "\<lambda>w. service_inv (db w)" "service_step ax bx" "\<lambda>w. service_inv (db w)"
  "\<lambda>w w'. append_only (db w) (db w')" for ax bx
  by unfold_locales
     (auto intro: append_only_refl append_only_trans statements.steps_inv statements.steps_rel dest!: service_step_runs)

end
