(* ===== verification/Migrations.thy ===== *)
theory Migrations
  imports Service
begin

text \<open>
  The schema migrations (\<^verbatim>\<open>src/migrations\<close>) as \<open>run_migrations\<close> of \<^verbatim>\<open>src/db/pool.rs\<close> applies them at every
  start: those that are not applied yet, in order, each as a whole or not at all, up to the first
  that fails.  (The files 0005 and 0006 carry a \<open>BEGIN\<close> and a \<open>COMMIT\<close> of their own, so that the
  row which records them is written after their commit; a crash between the two is not
  modelled.)  The tables of the model exist from the beginning and are empty until they are created,
  so what is left of a migration are the constraints it puts on existing rows and, in 0005, the
  backfill that gives every account a team of its own.
\<close>

subsection \<open>Migration 0005: teams\<close>

text \<open>\<open>COALESCE(NULLIF(display_name, ''), split_part(email, '@', 1))\<close>\<close>

definition backfill_name :: "user \<Rightarrow> string" where
  "backfill_name u =
     (case u_display_name u of
        Some n \<Rightarrow> if n = [] then fst (splitn2 CHR ''@'' (u_email u)) else n
      | None \<Rightarrow> fst (splitn2 CHR ''@'' (u_email u)))"

definition solo_team :: "user \<Rightarrow> team" where
  "solo_team u =
     \<lparr>t_id = u_id u, t_name = backfill_name u, t_owner_user_id = u_id u, t_branding_logo_url = None,
      t_branding_color = None, t_created_at = u_created_at u, t_updated_at = u_updated_at u,
      t_deleted_at = None\<rparr>"

definition backfill_teams :: "database \<Rightarrow> database" where
  "backfill_teams d =
     d\<lparr>teams := teams d @
        map solo_team (filter (\<lambda>u. u_deleted_at u = None \<and> \<not> team_exists d (u_id u)) (users d))\<rparr>"

definition owner_row :: "team \<Rightarrow> team_member" where
  "owner_row t =
     \<lparr>m_team_id = t_id t, m_user_id = t_owner_user_id t, m_role = ''owner'', m_joined_at = t_created_at t\<rparr>"

definition backfill_members :: "database \<Rightarrow> database" where
  "backfill_members d =
     d\<lparr>team_members := team_members d @
        map owner_row (filter (\<lambda>t. membership d (t_id t, t_owner_user_id t) = None) (teams d))\<rparr>"

text \<open>The update fires the \<open>updated_at\<close> trigger.\<close>

definition backfill_subscription :: "instant \<Rightarrow> subscription \<Rightarrow> subscription" where
  "backfill_subscription now s =
     (if s_team_id s = None then s\<lparr>s_team_id := Some (s_user_id s), s_updated_at := now\<rparr> else s)"

definition backfill_subscriptions :: "instant \<Rightarrow> database \<Rightarrow> database" where
  "backfill_subscriptions now d = d\<lparr>subscriptions := map (backfill_subscription now) (subscriptions d)\<rparr>"

text \<open>The foreign key of the new column, then the unique index.\<close>

definition migrate_0005 :: "instant \<Rightarrow> database \<Rightarrow> db_error + database" where
  "migrate_0005 now d =
     (let d' = backfill_subscriptions now (backfill_members (backfill_teams d)) in
      if \<exists>s\<in>set (subscriptions d'). \<exists>t. s_team_id s = Some t \<and> \<not> team_exists d' t
      then Inl ForeignKeyViolation
      else if \<not> unique_on active_team_key (subscriptions d') then Inl UniqueViolation
      else Inr d')"

subsection \<open>All migrations\<close>

text \<open>0002 builds the unique indexes of the connections on the rows there are, 0003 checks the tiers;
  the others only create.\<close>

definition apply_migration :: "instant \<Rightarrow> nat \<Rightarrow> database \<Rightarrow> db_error + database" where
  "apply_migration now k d =
     (if k = 2 then (if connection_indexes (broker_connections d) then Inr d else Inl UniqueViolation)
      else if k = 3 then (if \<forall>s\<in>set (subscriptions d). s_tier s \<in> set tier_slugs then Inr d else Inl CheckViolation)
      else if k = 5 then migrate_0005 now d
      else Inr d)"

fun migrate_list :: "instant \<Rightarrow> nat list \<Rightarrow> database \<Rightarrow> (db_error + unit) \<times> database" where
  "migrate_list now [] d = (Inr (), d)"
| "migrate_list now (k # ks) d =
     (if k \<le> migrations d then migrate_list now ks d
      else (case apply_migration now k d of
              Inl e \<Rightarrow> (Inl e, d)
            | Inr d' \<Rightarrow> migrate_list now ks (d'\<lparr>migrations := k\<rparr>)))"

definition run_migrations :: "instant \<Rightarrow> database \<Rightarrow> (db_error + unit) \<times> database" where
  "run_migrations now d = migrate_list now [1, 2, 3, 4, 5, 6] d"

subsection \<open>Lemmas\<close>

lemma unique_on_Some: "unique_on (\<lambda>x. Some (k x)) xs \<longleftrightarrow> distinct (map k xs)"
  by (simp add: unique_on_def List.map_filter_def comp_def)

lemma service_inv_migrations: "service_inv d \<Longrightarrow> k < 5 \<or> 5 \<le> migrations d \<Longrightarrow> service_inv (d\<lparr>migrations := k\<rparr>)"
  by (auto simp: service_inv_defs)

lemma service_inv_migrated:
  "service_inv d \<Longrightarrow> \<forall>s\<in>set (subscriptions d). s_team_id s \<noteq> None \<Longrightarrow> service_inv (d\<lparr>migrations := k\<rparr>)"
  by (auto simp: service_inv_defs)

text \<open>Before 0005 there are no teams, members and invites, and the column does not exist.\<close>

definition no_teams_yet :: "database \<Rightarrow> bool" where
  "no_teams_yet d \<longleftrightarrow> teams d = [] \<and> team_members d = [] \<and> team_invites d = [] \<and>
     (\<forall>s\<in>set (subscriptions d). s_team_id s = None)"

text \<open>Every subscription belongs to an account that is not deleted.\<close>

definition live_subscribers :: "database \<Rightarrow> bool" where
  "live_subscribers d \<longleftrightarrow>
     (\<forall>s\<in>set (subscriptions d). \<exists>u\<in>set (users d). u_id u = s_user_id s \<and> u_deleted_at u = None)"

definition teams_backfilled :: "instant \<Rightarrow> database \<Rightarrow> database" where
  "teams_backfilled now d =
     (let us = filter (\<lambda>u. u_deleted_at u = None) (users d) in
      d\<lparr>teams := map solo_team us, team_members := map (\<lambda>u. owner_row (solo_team u)) us,
        subscriptions := map (\<lambda>s. s\<lparr>s_team_id := Some (s_user_id s), s_updated_at := now\<rparr>) (subscriptions d)\<rparr>)"

lemma backfill_eq:
  assumes "no_teams_yet d"
  shows "backfill_subscriptions now (backfill_members (backfill_teams d)) = teams_backfilled now d"
  using assms
  by (simp add: no_teams_yet_def teams_backfilled_def backfill_teams_def backfill_members_def backfill_subscriptions_def
      backfill_subscription_def team_exists_def membership_def Let_def comp_def cong: map_cong)

lemma backfilled_tables [simp]:
  "users (teams_backfilled now d) = users d"
  "usage_ledger (teams_backfilled now d) = usage_ledger d"
  "stripe_events (teams_backfilled now d) = stripe_events d"
  "monthly_reports (teams_backfilled now d) = monthly_reports d"
  "team_invites (teams_backfilled now d) = team_invites d"
  "broker_connections (teams_backfilled now d) = broker_connections d"
  "audit_log (teams_backfilled now d) = audit_log d"
  "subscriptions (teams_backfilled now d) =
     map (\<lambda>s. s\<lparr>s_team_id := Some (s_user_id s), s_updated_at := now\<rparr>) (subscriptions d)"
  by (simp_all add: teams_backfilled_def Let_def)

lemma backfilled_user_exists [simp]: "user_exists (teams_backfilled now d) i = user_exists d i"
  by (simp add: user_exists_def)

lemma backfilled_team_exists:
  "team_exists (teams_backfilled now d) t \<longleftrightarrow> (\<exists>u\<in>set (users d). u_deleted_at u = None \<and> u_id u = t)"
  by (auto simp: team_exists_def teams_backfilled_def solo_team_def Let_def)

lemma backfilled_indexes:
  assumes "subscription_indexes (subscriptions d)"
  shows "subscription_indexes (subscriptions (teams_backfilled now d))"
proof -
  have "unique_on active_team_key (map f xs) = unique_on active_user_key xs"
    if "\<And>s. f s = s\<lparr>s_team_id := Some (s_user_id s), s_updated_at := now\<rparr>" for f xs
  proof -
    have "List.map_filter active_team_key (map f xs) = List.map_filter active_user_key xs"
      by (induction xs) (auto simp: List.map_filter_def active_team_key_def active_user_key_def that)
    then show ?thesis by (simp add: unique_on_def)
  qed
  with assms show ?thesis
    by (simp add: subscription_indexes_def unique_on_map_same active_user_key_def)
qed

lemma backfilled_members:
  assumes "users_inv d"
  shows "unique_on (\<lambda>m. Some (m_team_id m, m_user_id m)) (team_members (teams_backfilled now d))"
    and "unique_on (\<lambda>t. Some (t_id t)) (teams (teams_backfilled now d))"
proof -
  have "distinct (map u_id (filter (\<lambda>u. u_deleted_at u = None) (users d)))"
    using assms by (simp add: users_inv_def unique_on_Some distinct_map_filter)
  then show "unique_on (\<lambda>m. Some (m_team_id m, m_user_id m)) (team_members (teams_backfilled now d))"
    "unique_on (\<lambda>t. Some (t_id t)) (teams (teams_backfilled now d))"
    by (auto simp: teams_backfilled_def unique_on_Some owner_row_def solo_team_def Let_def comp_def distinct_map inj_on_def)
qed

lemma backfilled_inv:
  assumes "service_inv d" "no_teams_yet d" "live_subscribers d"
  shows "service_inv (teams_backfilled now d)"
proof -
  have "users_inv (teams_backfilled now d)" using assms(1) by (simp add: service_inv_def users_inv_def)
  moreover have "billing_inv (teams_backfilled now d)"
    using assms(1) backfilled_indexes [of d now] by (simp add: service_inv_def billing_inv_def)
  moreover have "reports_inv (teams_backfilled now d)" using assms(1) by (simp add: service_inv_def reports_inv_def)
  moreover have "teams_inv (teams_backfilled now d)"
    using assms backfilled_members [OF service_invD(1) [OF assms(1)], of now]
    by (auto simp: service_inv_def teams_inv_def no_teams_yet_def)
       (auto simp: teams_backfilled_def owner_row_def Let_def)
  moreover have "connections_inv (teams_backfilled now d)"
    using assms(1) by (simp add: service_inv_def connections_inv_def connection_ok_def)
  moreover have "references_ok (teams_backfilled now d)"
    using assms
    unfolding references_ok_def subscription_refs_def service_inv_def no_teams_yet_def live_subscribers_def
      team_known_iff backfilled_team_exists
    by (auto simp: teams_backfilled_def owner_row_def solo_team_def user_exists_def Let_def)
  ultimately show ?thesis by (simp add: service_inv_def)
qed

lemma backfilled_owner:
  assumes "users_inv d" "u \<in> set (users d)" "u_deleted_at u = None"
  shows "role_of (teams_backfilled now d) (u_id u) (u_id u) = Some Owner"
proof -
  have "find (\<lambda>m. (m_team_id m, m_user_id m) = (u_id u, u_id u))
      (map (\<lambda>u. owner_row (solo_team u)) us) \<noteq> None" if "u \<in> set us" for us
    using that by (auto simp: find_None_iff owner_row_def solo_team_def)
  then obtain m where m: "membership (teams_backfilled now d) (u_id u, u_id u) = Some m"
    using assms(2,3) by (fastforce simp: membership_def teams_backfilled_def Let_def)
  then have "m_role m = ''owner''"
    by (auto simp: membership_def teams_backfilled_def owner_row_def Let_def dest!: find_Some_iff_set)
  with m show ?thesis by (simp add: role_of_def role_from_str_def unwrap_or_def)
qed

lemma migrate_0005_eq:
  assumes "service_inv d" "no_teams_yet d"
  shows "migrate_0005 now d =
     (if live_subscribers d then Inr (teams_backfilled now d) else Inl ForeignKeyViolation)"
proof -
  have "subscription_indexes (subscriptions (teams_backfilled now d))"
    using assms(1) by (intro backfilled_indexes) (simp add: service_inv_def billing_inv_def)
  then have "unique_on active_team_key (subscriptions (teams_backfilled now d))"
    by (simp add: subscription_indexes_def)
  then show ?thesis
    unfolding migrate_0005_def backfill_eq [OF assms(2)] Let_def backfilled_team_exists
    by (auto simp: live_subscribers_def)
qed

lemma migrate_to_4:
  assumes "service_inv d" "migrations d < 5"
  shows "run_migrations now d = migrate_list now [5, 6] (d\<lparr>migrations := 4\<rparr>)"
proof -
  have ok: "connection_indexes (broker_connections d)" "\<forall>s\<in>set (subscriptions d). s_tier s \<in> set tier_slugs"
    using assms(1) by (auto simp: service_inv_def connections_inv_def billing_inv_def)
  show ?thesis
  proof (cases "migrations d = 4")
    case True
    then have same: "d\<lparr>migrations := 4\<rparr> = d" by simp
    show ?thesis unfolding same using True by (simp add: run_migrations_def)
  next
    case False
    then have "migrations d \<in> {0, 1, 2, 3}" using assms(2) by auto
    with ok show ?thesis by (auto simp: run_migrations_def apply_migration_def)
  qed
qed

lemma run_migrations_eq:
  assumes "service_inv d" "migrations d < 5" "no_teams_yet d"
  shows "run_migrations now d =
     (if live_subscribers d then (Inr (), (teams_backfilled now (d\<lparr>migrations := 4\<rparr>))\<lparr>migrations := 6\<rparr>)
      else (Inl ForeignKeyViolation, d\<lparr>migrations := 4\<rparr>))"
proof -
  have pre: "service_inv (d\<lparr>migrations := 4\<rparr>)" "no_teams_yet (d\<lparr>migrations := 4\<rparr>)"
    "live_subscribers (d\<lparr>migrations := 4\<rparr>) = live_subscribers d"
    using assms service_inv_migrations [of d 4] by (simp_all add: no_teams_yet_def live_subscribers_def)
  show ?thesis
    unfolding migrate_to_4 [OF assms(1,2)]
    by (simp add: apply_migration_def migrate_0005_eq [OF pre(1,2)] pre(3))
qed

lemma migrated_inv:
  assumes "service_inv d" "migrations d < 5" "no_teams_yet d" "live_subscribers d"
  shows "service_inv ((teams_backfilled now (d\<lparr>migrations := 4\<rparr>))\<lparr>migrations := 6\<rparr>)"
proof (rule service_inv_migrated)
  show "service_inv (teams_backfilled now (d\<lparr>migrations := 4\<rparr>))"
    using assms service_inv_migrations [of d 4]
    by (intro backfilled_inv) (simp_all add: no_teams_yet_def live_subscribers_def)
  show "\<forall>s\<in>set (subscriptions (teams_backfilled now (d\<lparr>migrations := 4\<rparr>))). s_team_id s \<noteq> None" by simp
qed

text \<open>A start that gets past the migrations, on a database of before or after the teams.\<close>

lemma run_migrations_ok:
  assumes "service_inv d" "migrations d < 5 \<Longrightarrow> no_teams_yet d" "migrations d \<le> 6"
    "run_migrations now d = (Inr (), d')"
  shows "service_inv d' \<and> deployed d'"
proof (cases "migrations d < 5")
  case True
  with assms have "d' = (teams_backfilled now (d\<lparr>migrations := 4\<rparr>))\<lparr>migrations := 6\<rparr>" "live_subscribers d"
    by (auto simp: run_migrations_eq split: if_splits)
  with migrated_inv [OF assms(1) True] assms(2) True show ?thesis by (simp add: deployed_def)
next
  case False
  then have "d' = d \<and> 6 \<le> migrations d \<or> d' = d\<lparr>migrations := 6\<rparr>"
    using assms(4) by (cases "migrations d = 5") (auto simp: run_migrations_def apply_migration_def)
  with assms(1,3) False show ?thesis by (auto simp: deployed_def intro: service_inv_migrations)
qed

subsection \<open>Properties\<close>

text \<open>C10: the teams migration.  On a consistent database of before the teams, the pending
  migrations succeed exactly if every subscription belongs to an account that is not deleted;
  then all are applied, every constraint and reference still holds, every live account is the
  owner of the team with its own id, and every subscription belongs to the team of its user.
  Otherwise the foreign key of \<open>team_id\<close> stops the deployment at 0004, with the rows as they were.\<close>

theorem migrations_sound:
  assumes "service_inv d" "migrations d < 5" "no_teams_yet d"
  shows "(live_subscribers d \<longrightarrow>
       (\<exists>d'. run_migrations now d = (Inr (), d') \<and> deployed d' \<and> service_inv d' \<and> users d' = users d \<and>
          (\<forall>u\<in>set (users d). u_deleted_at u = None \<longrightarrow> role_of d' (u_id u) (u_id u) = Some Owner) \<and>
          (\<forall>s\<in>set (subscriptions d'). s_team_id s = Some (s_user_id s)))) \<and>
     (\<not> live_subscribers d \<longrightarrow> run_migrations now d = (Inl ForeignKeyViolation, d\<lparr>migrations := 4\<rparr>))"
proof -
  let ?d = "d\<lparr>migrations := 4\<rparr>"
  have pre: "service_inv ?d" "no_teams_yet ?d" "live_subscribers ?d = live_subscribers d"
    using assms service_inv_migrations [of d 4] by (simp_all add: no_teams_yet_def live_subscribers_def)
  note run = run_migrations_eq [OF assms]
  have "role_of ((teams_backfilled now ?d)\<lparr>migrations := 6\<rparr>) (u_id u) (u_id u) = Some Owner"
    if "u \<in> set (users d)" "u_deleted_at u = None" for u
    using backfilled_owner [of ?d u now] that service_invD(1) [OF pre(1)]
    by (simp add: role_of_def membership_def)
  then show ?thesis
    using run migrated_inv [OF assms] by (auto simp: deployed_def)
qed

definition before_teams :: database where
  "before_teams = (empty_database 4)\<lparr>users := [sample_user], subscriptions := [sample_subscription\<lparr>s_team_id := None\<rparr>]\<rparr>"

lemma before_teams_facts:
  "service_inv before_teams" "migrations before_teams < 5" "no_teams_yet before_teams"
  "live_subscribers before_teams" "users before_teams = [sample_user]"
  by (simp_all add: service_inv_defs no_teams_yet_def live_subscribers_def before_teams_def empty_database_def
      subscription_indexes_def connection_indexes_def unique_on_def List.map_filter_def active_user_key_def
      active_team_key_def sample_user_def sample_subscription_def tier_slugs_def i32_range_def)

lemma migrations_before_teams:
  "\<exists>d1. run_migrations now before_teams = (Inr (), d1) \<and> users d1 = users before_teams"
  using before_teams_facts(4) by (simp add: run_migrations_eq [OF before_teams_facts(1-3)])

theorem migrations_sound_witness:
  "\<exists>d'. run_migrations 7 before_teams = (Inr (), d') \<and> deployed d' \<and> role_of d' 1 1 = Some Owner"
  using migrations_sound [OF before_teams_facts(1-3), of 7] before_teams_facts(4,5)
  by (auto simp: sample_user_def)

end
