(* ===== verification/Shutdown.thy ===== *)
theory Shutdown
  imports Rust_Prelude
begin

text \<open>
  How the process ends (\<^verbatim>\<open>src/shutdown.rs\<close>, \<open>serve_with_deadline\<close> of \<^verbatim>\<open>src/main.rs\<close>): a signal wakes the
  server, which stops to accept and drains its requests, and \<open>main\<close>, which gives the drain 25
  seconds.  A future is the time at which it completes, if it does.  The timer and the
  notification of tokio are fields of an environment with their documented laws.
\<close>

subsection \<open>Signals\<close>

definition DRAIN_DEADLINE :: int where
  "DRAIN_DEADLINE = 25 * 1000000000"

text \<open>A signal stream: it could not be installed, or the time of its first signal, if any.\<close>

type_synonym signal_stream = "string + instant option"

text \<open>The first branch ends also when the handler could not be installed; the second is then pending
  for ever.  \<open>t0\<close> is when the task starts to wait.\<close>

definition ctrl_c_branch :: "instant \<Rightarrow> signal_stream \<Rightarrow> instant option" where
  "ctrl_c_branch t0 s = (case s of Inl err \<Rightarrow> Some t0 | Inr d \<Rightarrow> d)"

definition terminate_branch :: "signal_stream \<Rightarrow> instant option" where
  "terminate_branch s = (case s of Inl err \<Rightarrow> None | Inr d \<Rightarrow> d)"

text \<open>\<open>tokio::select!\<close>: the branch that completes first.\<close>

definition select_first :: "instant option \<Rightarrow> instant option \<Rightarrow> instant option" where
  "select_first a b =
     (case (a, b) of
        (Some x, Some y) \<Rightarrow> Some (min x y)
      | (Some x, None) \<Rightarrow> Some x
      | (None, y) \<Rightarrow> y)"

definition wait_for_signal :: "instant \<Rightarrow> signal_stream \<Rightarrow> signal_stream \<Rightarrow> instant option" where
  "wait_for_signal t0 sigint sigterm = select_first (ctrl_c_branch t0 sigint) (terminate_branch sigterm)"

subsection \<open>The drain\<close>

text \<open>How the task of the server ended: a panic, an error of the accept loop, or in order.\<close>

datatype serve_end = Panicked string | ServeError string | Served

record timer_env =
  notify_wakes :: "instant \<Rightarrow> instant \<Rightarrow> bool"
  run_timeout :: "instant \<Rightarrow> int \<Rightarrow> (instant \<times> serve_end) option \<Rightarrow> instant \<times> serve_end option"

text \<open>\<open>notify_waiters\<close> wakes who waits already; nothing is stored for later.  \<open>timeout\<close> returns the value
  of a future that completes in time, and otherwise gives up at the deadline.\<close>

definition timer_laws :: "timer_env \<Rightarrow> bool" where
  "timer_laws x \<longleftrightarrow>
     (\<forall>r t. notify_wakes x r t \<longleftrightarrow> r \<le> t) \<and>
     (\<forall>t d f. run_timeout x t d f =
        (case f of
           Some (c, e) \<Rightarrow> if c \<le> t + d then (max t c, Some e) else (t + d, None)
         | None \<Rightarrow> (t + d, None)))"

text \<open>
  \<open>main_waits\<close> and \<open>server_waits\<close> are when \<open>main\<close> and the server start to wait for the notification;
  \<open>server\<close> is when its task ends, given when it was notified, if it was.  \<open>None\<close>: \<open>main\<close> never returns.
\<close>

definition serve_with_deadline ::
  "timer_env \<Rightarrow> instant \<Rightarrow> instant \<Rightarrow> (instant option \<Rightarrow> (instant \<times> serve_end) option) \<Rightarrow> instant option \<Rightarrow>
   (instant \<times> (string + unit)) option" where
  "serve_with_deadline x main_waits server_waits server signal =
     Option.bind signal (\<lambda>t.
       if \<not> notify_wakes x main_waits t then None
       else
         (case run_timeout x t DRAIN_DEADLINE (server (if notify_wakes x server_waits t then Some t else None)) of
            (t', Some Served) \<Rightarrow> Some (t', Inr ())
          | (t', Some (ServeError e)) \<Rightarrow> Some (t', Inl (''axum::serve: '' @ e))
          | (t', Some (Panicked e)) \<Rightarrow> Some (t', Inl (''server task panicked: '' @ e))
          | (t', None) \<Rightarrow> Some (t', Inr ())))"

text \<open>The task of the server can end with a panic or an error.\<close>

definition server_failed :: "(instant option \<Rightarrow> (instant \<times> serve_end) option) \<Rightarrow> bool" where
  "server_failed server \<longleftrightarrow>
     (\<exists>n c m. server n = Some (c, Panicked m)) \<or> (\<exists>n c m. server n = Some (c, ServeError m))"

subsection \<open>Lemmas\<close>

lemma timer_wakes: "timer_laws x \<Longrightarrow> notify_wakes x r t \<longleftrightarrow> r \<le> t"
  by (simp add: timer_laws_def)

lemma timer_bounded:
  assumes "timer_laws x" "0 \<le> d" "run_timeout x t d f = (t', r)"
  shows "t \<le> t' \<and> t' \<le> t + d \<and> (\<forall>e. r = Some e \<longrightarrow> (\<exists>c. f = Some (c, e) \<and> c \<le> t + d))"
  using assms by (auto simp: timer_laws_def split: option.splits if_splits)

lemma wait_for_signal_first:
  assumes "wait_for_signal t0 sigint sigterm = Some t"
  shows "\<And>d. sigint = Inr (Some d) \<Longrightarrow> t \<le> d" "\<And>d. sigterm = Inr (Some d) \<Longrightarrow> t \<le> d"
    "\<And>e. sigint = Inl e \<Longrightarrow> t \<le> t0"
  using assms
  by (auto simp: wait_for_signal_def ctrl_c_branch_def terminate_branch_def select_first_def
      split: option.splits sum.splits)

lemma wait_for_signal_Some:
  "(\<exists>d. sigint = Inr (Some d)) \<or> (\<exists>d. sigterm = Inr (Some d)) \<or> (\<exists>e. sigint = Inl e) \<longleftrightarrow>
     wait_for_signal t0 sigint sigterm \<noteq> None"
  by (cases sigint; cases sigterm)
     (auto simp: wait_for_signal_def ctrl_c_branch_def terminate_branch_def select_first_def
        split: option.splits)

subsection \<open>Properties\<close>

text \<open>C12: the process ends.  On the first SIGTERM or SIGINT, \<open>main\<close> returns no later than 25 seconds
  after it, whatever the requests in flight do - with an error only if the server task panicked
  or failed.  This holds if \<open>main\<close> waits for the notification by then: a signal before that moment
  is lost, and \<open>main\<close> never returns.  A Ctrl-C handler that cannot be installed counts as a signal
  at the start.\<close>

theorem shutdown_bounded:
  assumes "timer_laws x"
    and "sigterm = Inr (Some d) \<or> sigint = Inr (Some d) \<or> sigint = Inl err \<and> d = t0"
  shows "\<exists>t\<le>d. wait_for_signal t0 sigint sigterm = Some t \<and>
     (main_waits \<le> t \<longrightarrow>
        (\<exists>t' r. serve_with_deadline x main_waits server_waits server (wait_for_signal t0 sigint sigterm) =
             Some (t', r) \<and> t \<le> t' \<and> t' \<le> t + 25 * 1000000000 \<and>
           (\<forall>e. r = Inl e \<longrightarrow> server_failed server))) \<and>
     (t < main_waits \<longrightarrow>
        serve_with_deadline x main_waits server_waits server (wait_for_signal t0 sigint sigterm) = None)"
proof -
  from assms(2) have "wait_for_signal t0 sigint sigterm \<noteq> None"
    using wait_for_signal_Some [of sigint sigterm t0] by blast
  then obtain t where t: "wait_for_signal t0 sigint sigterm = Some t" by blast
  from wait_for_signal_first [OF t] assms(2) have td: "t \<le> d" by blast
  let ?f = "server (if notify_wakes x server_waits t then Some t else None)"
  obtain t' r where run: "run_timeout x t DRAIN_DEADLINE ?f = (t', r)" by (cases "run_timeout x t DRAIN_DEADLINE ?f")
  have b: "t \<le> t'" "t' \<le> t + 25 * 1000000000" "\<forall>e. r = Some e \<longrightarrow> (\<exists>c. ?f = Some (c, e) \<and> c \<le> t + DRAIN_DEADLINE)"
    using timer_bounded [OF assms(1) _ run] by (auto simp: DRAIN_DEADLINE_def)
  have "\<exists>r'. serve_with_deadline x main_waits server_waits server (Some t) = Some (t', r') \<and>
      (\<forall>e. r' = Inl e \<longrightarrow> server_failed server)"
    if "main_waits \<le> t"
    using that b(3) by (auto simp: serve_with_deadline_def server_failed_def timer_wakes [OF assms(1)] run [unfolded timer_wakes [OF assms(1)]]
        split: option.splits serve_end.splits)
  moreover have "serve_with_deadline x main_waits server_waits server (Some t) = None" if "t < main_waits"
    using that by (simp add: serve_with_deadline_def timer_wakes [OF assms(1)])
  ultimately show ?thesis using t td b(1,2) by (intro exI [of _ t]) auto
qed

definition sample_timer :: timer_env where
  "sample_timer =
     \<lparr>notify_wakes = (\<lambda>r t. r \<le> t),
      run_timeout = (\<lambda>t d f. case f of
         Some (c, e) \<Rightarrow> if c \<le> t + d then (max t c, Some e) else (t + d, None)
       | None \<Rightarrow> (t + d, None))\<rparr>"

text \<open>SIGTERM after 40 seconds, and a request that never ends.\<close>

theorem shutdown_bounded_witness:
  "\<exists>t r. serve_with_deadline sample_timer 1 2 (\<lambda>_. None)
       (wait_for_signal 0 (Inr None) (Inr (Some 40000000000))) = Some (t, r) \<and> t \<le> 65000000000"
proof -
  have law: "timer_laws sample_timer" by (simp add: timer_laws_def sample_timer_def)
  have "wait_for_signal 0 (Inr None) (Inr (Some 40000000000)) = Some 40000000000"
    by (simp add: wait_for_signal_def ctrl_c_branch_def terminate_branch_def select_first_def)
  then show ?thesis
    using shutdown_bounded [OF law, where sigterm = "Inr (Some 40000000000)" and sigint = "Inr None"
        and d = 40000000000 and ?t0.0 = 0 and main_waits = 1 and server_waits = 2 and server = "\<lambda>_. None"]
    by auto
qed

text \<open>Without any signal a Ctrl-C handler that fails to install stops the server at once.\<close>

theorem failed_handler_stops_server:
  assumes "timer_laws x" "main_waits \<le> t0"
  shows "\<exists>t' r. serve_with_deadline x main_waits server_waits server
     (wait_for_signal t0 (Inl err) (Inr None)) = Some (t', r) \<and> t' \<le> t0 + DRAIN_DEADLINE"
proof -
  have "wait_for_signal t0 (Inl err) (Inr None) = Some t0"
    by (simp add: wait_for_signal_def ctrl_c_branch_def terminate_branch_def select_first_def)
  then show ?thesis
    using timer_bounded [OF assms(1), of DRAIN_DEADLINE t0] assms(2)
    by (fastforce simp: serve_with_deadline_def timer_wakes [OF assms(1)] DRAIN_DEADLINE_def
        split: option.splits serve_end.splits prod.splits)
qed

end
