(* ===== verification/Boot.thy ===== *)
theory Boot
  imports Server Migrations Shutdown
begin

text \<open>
  Start-up (\<^verbatim>\<open>src/main.rs\<close>, \<^verbatim>\<open>src/state.rs\<close>, \<^verbatim>\<open>src/db/pool.rs\<close>): from the raw environment to the shared
  state, or the error that ends the process before it binds a port, and from there to the end of
  the process.  The database is migrated on the way.  The answers of the key endpoint, of the HTTP
  client builder and of the socket, and the faults of the connection, are arguments.
\<close>

subsection \<open>State\<close>

record 'k app_state =
  as_config :: config
  as_jwks :: "'k cache_state"
  as_snaptrade :: st_client
  as_encryption :: encryption_key
  as_limiter :: limiter
  as_billing :: "billing_context option"

datatype boot_error =
    BadConfig config_error
  | NoDatabase sqlx_error
  | BadMigrations sqlx_error
  | BadKey encryption_error
  | KeyUnusable encryption_error
  | NoHttpClient string
  | NoSocket string

definition new_state ::
  "config \<Rightarrow> 'k cache_state \<Rightarrow> st_client \<Rightarrow> encryption_key \<Rightarrow> billing_context option \<Rightarrow> 'k app_state" where
  "new_state c jwks snaptrade_client encryption billing =
     \<lparr>as_config = c, as_jwks = jwks, as_snaptrade = snaptrade_client, as_encryption = encryption,
      as_limiter = (\<lambda>_. None), as_billing = billing\<rparr>"

text \<open>What stands for the outside during start-up: the connection and the ping of the new pool, the
  migration at which the connection is lost, if it is, the key endpoint, the client builder, the
  nonces the self test draws and the socket.  \<open>bo_stripe\<close> is the transport a Stripe client is made
  with.\<close>

record 'k boot_env =
  bo_auth :: "'k auth_env"
  bo_aead :: aead
  bo_base64 :: "string \<Rightarrow> string + byte list"
  bo_connect :: "string \<Rightarrow> nat \<Rightarrow> sqlx_error + unit"
  bo_ping :: "sqlx_error + unit"
  bo_lost :: "nat option"
  bo_jwks_reply :: "string \<Rightarrow> string + raw_jwk list"
  bo_nonces :: "byte list \<times> byte list"
  bo_http_client :: "string + unit"
  bo_stripe :: "string \<Rightarrow> stripe_client"
  bo_bind :: "string \<times> nat \<Rightarrow> string + unit"

definition connect :: "'k boot_env \<Rightarrow> config \<Rightarrow> sqlx_error + unit" where
  "connect x c =
     and_then (bo_connect x (database_url c) (database_max_connections c)) (\<lambda>_. bo_ping x)"

definition warm :: "'k boot_env \<Rightarrow> instant \<Rightarrow> config \<Rightarrow> 'k cache_state" where
  "warm x now c = snd (refresh (bo_auth x) now (bo_jwks_reply x (jwks_url c)) empty_cache)"

definition prices_of_config :: "billing_prices \<Rightarrow> stripe_prices" where
  "prices_of_config p =
     \<lparr>basic_monthly = bp_basic_monthly p, basic_yearly = bp_basic_yearly p,
      pro_monthly = bp_pro_monthly p, pro_yearly = bp_pro_yearly p,
      enterprise_monthly = bp_enterprise_monthly p, enterprise_yearly = bp_enterprise_yearly p\<rparr>"

definition billing_of_config :: "'k boot_env \<Rightarrow> config \<Rightarrow> billing_context option" where
  "billing_of_config x c =
     map_option (\<lambda>bc. \<lparr>b_stripe = bo_stripe x (stripe_secret_key bc),
       b_prices = prices_of_config (billing_prices_of bc),
       b_webhook_secret = stripe_webhook_secret bc, b_return_url = return_url bc,
       b_openai_key = openai_api_key bc\<rparr>) (cfg_billing c)"

definition load_key :: "'k boot_env \<Rightarrow> config \<Rightarrow> boot_error + encryption_key" where
  "load_key x c =
     and_then (map_err BadKey (from_bytes (broker_secret_encryption_key (snaptrade c)))) (\<lambda>key.
     and_then (map_err KeyUnusable (self_test (bo_aead x) key (fst (bo_nonces x)) (snd (bo_nonces x)))) (\<lambda>_.
       Inr key))"

text \<open>The migrations over the pool: those before the connection is lost are applied.\<close>

definition migrate_pool :: "'k boot_env \<Rightarrow> instant \<Rightarrow> database \<Rightarrow> (sqlx_error + unit) \<times> database" where
  "migrate_pool x now d =
     (case bo_lost x of
        None \<Rightarrow> (case run_migrations now d of (r, d') \<Rightarrow> (map_err Database r, d'))
      | Some n \<Rightarrow>
          (case migrate_list now (take n [1, 2, 3, 4, 5, 6]) d of
             (Inl e, d') \<Rightarrow> (Inl (Database e), d')
           | (Inr _, d') \<Rightarrow> (Inl Io, d')))"

text \<open>\<open>main\<close> from the migrated database to the bound socket; a scheduler that does not start is only
  logged.\<close>

definition boot_state ::
  "('c, 'g) http_env \<Rightarrow> 'k boot_env \<Rightarrow> instant \<Rightarrow> config \<Rightarrow> boot_error + 'k app_state" where
  "boot_state hx x now c =
     and_then (load_key x c) (\<lambda>key.
     and_then (map_err NoHttpClient (bo_http_client x)) (\<lambda>_.
     and_then (map_err NoSocket (bo_bind x (bind_addr hx c))) (\<lambda>_.
       Inr (new_state c (warm x now c)
         (new_client (api_base (snaptrade c)) (client_id (snaptrade c)) (consumer_key (snaptrade c)))
         key (billing_of_config x c)))))"

definition boot ::
  "('c, 'g) http_env \<Rightarrow> 'k boot_env \<Rightarrow> instant \<Rightarrow> raw_config \<Rightarrow> database \<Rightarrow>
   (boot_error + 'k app_state) \<times> database" where
  "boot hx x now raw d =
     (case and_then (map_err BadConfig (load_config (bo_base64 x) raw)) (\<lambda>c.
           and_then (map_err NoDatabase (connect x c)) (\<lambda>_. Inr c)) of
        Inl e \<Rightarrow> (Inl e, d)
      | Inr c \<Rightarrow>
          (case migrate_pool x now d of
             (Inl e, d') \<Rightarrow> (Inl (BadMigrations e), d')
           | (Inr _, d') \<Rightarrow> (boot_state hx x now c, d')))"

text \<open>The process: the error that stopped the start, or when and how serving ended, if it did.\<close>

datatype process_end = NotStarted boot_error | Running | Exited instant "string + unit"

definition run_process ::
  "('c, 'g) http_env \<Rightarrow> 'k boot_env \<Rightarrow> timer_env \<Rightarrow> instant \<Rightarrow> raw_config \<Rightarrow> database \<Rightarrow> instant \<Rightarrow> instant \<Rightarrow>
   ('k app_state \<Rightarrow> instant option \<Rightarrow> (instant \<times> serve_end) option) \<Rightarrow> signal_stream \<Rightarrow> signal_stream \<Rightarrow> process_end" where
  "run_process hx x tx now raw d main_waits server_waits server sigint sigterm =
     (case fst (boot hx x now raw d) of
        Inl e \<Rightarrow> NotStarted e
      | Inr st \<Rightarrow>
          (case serve_with_deadline tx main_waits server_waits (server st) (wait_for_signal now sigint sigterm) of
             None \<Rightarrow> Running
           | Some (t, r) \<Rightarrow> Exited t r))"

subsection \<open>Telemetry\<close>

text \<open>What \<open>init\<close> of \<^verbatim>\<open>src/telemetry.rs\<close> installs: the Sentry client, if there is a DSN that parses (its sampling rate is left out), the
  filter and the format of the log.\<close>

record 'd sentry_options =
  opt_dsn :: 'd
  opt_release :: string
  opt_environment :: string
  opt_send_default_pii :: bool

definition init_sentry :: "(string \<Rightarrow> 'd option) \<Rightarrow> string \<Rightarrow> config \<Rightarrow> 'd sentry_options option" where
  "init_sentry parse_dsn VERSION c =
     Option.bind (dsn (sentry c)) (\<lambda>s. Option.bind (parse_dsn s) (\<lambda>d.
       Some \<lparr>opt_dsn = d, opt_release = ''mizan-connect@'' @ VERSION,
             opt_environment = sentry_environment (sentry c), opt_send_default_pii = False\<rparr>))"

definition env_filter :: "(string \<Rightarrow> 'f option) \<Rightarrow> 'f \<Rightarrow> config \<Rightarrow> 'f" where
  "env_filter try_new info c = unwrap_or info (try_new (log_level c))"

definition init_telemetry ::
  "(string \<Rightarrow> 'd option) \<Rightarrow> (string \<Rightarrow> 'f option) \<Rightarrow> 'f \<Rightarrow> string \<Rightarrow> config \<Rightarrow>
   'd sentry_options option \<times> 'f \<times> log_format" where
  "init_telemetry parse_dsn try_new info VERSION c =
     (init_sentry parse_dsn VERSION c, env_filter try_new info c, cfg_log_format c)"

text \<open>A list that nothing reads.\<close>

definition SENSITIVE_HEADERS :: "string list" where
  "SENSITIVE_HEADERS =
     [''authorization'', ''cookie'', ''set-cookie'', ''x-stripe-signature'', ''x-snaptrade-signature'']"

subsection \<open>Lemmas\<close>

text \<open>No personal data goes to Sentry by default, and a DSN that does not parse disables it.\<close>

lemma init_sentry_Some:
  "init_sentry parse_dsn VERSION c = Some opts \<Longrightarrow>
     \<not> opt_send_default_pii opts \<and> (\<exists>s. dsn (sentry c) = Some s \<and> parse_dsn s = Some (opt_dsn opts))"
  by (auto simp: init_sentry_def split: bind_splits)

lemma load_key_Inr:
  "load_key x c = Inr key \<longleftrightarrow>
     length (broker_secret_encryption_key (snaptrade c)) = 32 \<and>
     key = \<lparr>key_bytes = broker_secret_encryption_key (snaptrade c)\<rparr> \<and>
     self_test (bo_aead x) key (fst (bo_nonces x)) (snd (bo_nonces x)) = Inr ()"
  by (auto simp: load_key_def and_then_Inr_iff from_bytes_Inr)

lemma boot_state_Inr:
  "boot_state hx x now c = Inr st \<longleftrightarrow>
     (\<exists>key. load_key x c = Inr key \<and> bo_http_client x = Inr () \<and> bo_bind x (bind_addr hx c) = Inr () \<and>
        st = new_state c (warm x now c)
          (new_client (api_base (snaptrade c)) (client_id (snaptrade c)) (consumer_key (snaptrade c)))
          key (billing_of_config x c))"
  by (auto simp: boot_state_def and_then_Inr_iff)

lemma boot_state_fields:
  assumes "boot_state hx x now c = Inr st"
  shows "as_config st = c" "load_key x c = Inr (as_encryption st)" "as_billing st = billing_of_config x c"
    "as_jwks st = warm x now c" "as_limiter st = (\<lambda>_. None)"
  using assms by (auto simp: boot_state_Inr new_state_def)

lemma boot_Inr:
  assumes "boot hx x now raw d = (Inr st, d')"
  shows "load_config (bo_base64 x) raw = Inr (as_config st)" "connect x (as_config st) = Inr ()"
    "run_migrations now d = (Inr (), d')" "boot_state hx x now (as_config st) = Inr st"
proof -
  from assms obtain c where c: "load_config (bo_base64 x) raw = Inr c" "connect x c = Inr ()"
    "migrate_pool x now d = (Inr (), d')" "boot_state hx x now c = Inr st"
    by (auto simp: boot_def and_then_Inr_iff split: sum.splits prod.splits)
  then have "as_config st = c" by (simp add: boot_state_fields)
  with c show "load_config (bo_base64 x) raw = Inr (as_config st)" "connect x (as_config st) = Inr ()"
    "boot_state hx x now (as_config st) = Inr st" by simp_all
  from c(3) show "run_migrations now d = (Inr (), d')"
    by (auto simp: migrate_pool_def split: option.splits prod.splits sum.splits)
qed

text \<open>A process that serves has a database that answered and is migrated, a key of 32 bytes that
  passed the self test, in every environment, and billing exactly if it is configured.\<close>

theorem boot_ready:
  assumes "boot hx x now raw d = (Inr st, d')"
  shows "load_config (bo_base64 x) raw = Inr (as_config st) \<and>
     connect x (as_config st) = Inr () \<and> run_migrations now d = (Inr (), d') \<and>
     length (key_bytes (as_encryption st)) = 32 \<and>
     self_test (bo_aead x) (as_encryption st) (fst (bo_nonces x)) (snd (bo_nonces x)) = Inr () \<and>
     (as_billing st = None \<longleftrightarrow> cfg_billing (as_config st) = None)"
  using boot_Inr(1-3) [OF assms] boot_state_fields(2,3) [OF boot_Inr(4) [OF assms]]
  by (auto simp: load_key_Inr billing_of_config_def)

text \<open>The test environment is no exception: a configuration without an encryption key loads there,
  and start-up then stops at the empty key.\<close>

theorem test_without_key_stops:
  assumes "load_config (bo_base64 x) raw = Inr c" "broker_secret_encryption_key (snaptrade c) = []"
    "connect x c = Inr ()" "migrate_pool x now d = (Inr (), d')"
  shows "boot hx x now raw d = (Inl (BadKey (InvalidKeyLength 0)), d')"
  using assms
  by (simp add: boot_def boot_state_def load_key_def from_bytes_def KEY_LEN_def and_then_def map_err_def)

end
