(* ===== verification/Callback_Pages.thy ===== *)
theory Callback_Pages
  imports Snaptrade_Handlers
begin

text \<open>
  The two pages the SnapTrade callback answers a browser with (\<^verbatim>\<open>src/snaptrade/handlers.rs\<close>,
  \<open>success_html\<close> and \<open>connection_failed_html\<close>), as code points.
\<close>

fun html_page :: "utext list \<Rightarrow> utext" where
  "html_page [] = []"
| "html_page [l] = l"
| "html_page (l # ls) = l @ 10 # html_page ls"

definition connection_failed_html :: utext where
  "connection_failed_html = html_page [
      ascii ''<!doctype html>'',
      ascii ''<html lang=\"en\">'',
      ascii ''  <head>'',
      ascii ''    <meta charset=\"utf-8\" />'',
      ascii ''    <meta name=\"robots\" content=\"noindex\" />'',
      ascii ''    <meta name=\"viewport\" content=\"width=device-width,initial-scale=1\" />'',
      ascii ''    <title>Mizan Connect '' @ [8212] @ ascii '' Connection didn'' @ [39] @ ascii ''t complete</title>'',
      ascii ''    <style>'',
      ascii ''      body { margin: 0; font: 16px/1.5 ui-sans-serif, system-ui, sans-serif;'',
      ascii ''             color: #f5e6c8; background: #0a0a0a;'',
      ascii ''             display: grid; place-items: center; min-height: 100vh; }'',
      ascii ''      main { max-width: 28rem; padding: 2rem; text-align: center; }'',
      ascii ''      h1 { font-size: 1.25rem; margin: 0 0 .5rem;'',
      ascii ''           background: linear-gradient(135deg,#F5E6C8 0%,#D4A574 50%,#8B6F47 100%);'',
      ascii ''           -webkit-background-clip: text; background-clip: text; color: transparent; }'',
      ascii ''      p { color: #b8a98a; margin: 0; }'',
      ascii ''      .mark { font-size: 2.5rem; line-height: 1; margin-bottom: 1rem; }'',
      ascii ''    </style>'',
      ascii ''  </head>'',
      ascii ''  <body>'',
      ascii ''    <main>'',
      ascii ''      <div class=\"mark\" aria-hidden=\"true\">!</div>'',
      ascii ''      <h1>Connection didn'' @ [39] @ ascii ''t complete</h1>'',
      ascii ''      <p>Close this window and try again from Mizan.</p>'',
      ascii ''    </main>'',
      ascii ''  </body>'',
      ascii ''</html>'']"

definition success_html :: utext where
  "success_html = html_page [
      ascii ''<!doctype html>'',
      ascii ''<html lang=\"en\">'',
      ascii ''  <head>'',
      ascii ''    <meta charset=\"utf-8\" />'',
      ascii ''    <meta name=\"robots\" content=\"noindex\" />'',
      ascii ''    <meta name=\"viewport\" content=\"width=device-width,initial-scale=1\" />'',
      ascii ''    <title>Mizan Connect '' @ [8212] @ ascii '' Broker linked</title>'',
      ascii ''    <style>'',
      ascii ''      body { margin: 0; font: 16px/1.5 ui-sans-serif, system-ui, sans-serif;'',
      ascii ''             color: #f5e6c8; background: #0a0a0a;'',
      ascii ''             display: grid; place-items: center; min-height: 100vh; }'',
      ascii ''      main { max-width: 28rem; padding: 2rem; text-align: center; }'',
      ascii ''      h1 { font-size: 1.25rem; margin: 0 0 .5rem;'',
      ascii ''           background: linear-gradient(135deg,#F5E6C8 0%,#D4A574 50%,#8B6F47 100%);'',
      ascii ''           -webkit-background-clip: text; background-clip: text; color: transparent; }'',
      ascii ''      p { color: #b8a98a; margin: 0; }'',
      ascii ''      .tick { font-size: 2.5rem; line-height: 1; margin-bottom: 1rem; }'',
      ascii ''    </style>'',
      ascii ''  </head>'',
      ascii ''  <body>'',
      ascii ''    <main>'',
      ascii ''      <div class=\"tick\" aria-hidden=\"true\">'' @ [10003] @ ascii ''</div>'',
      ascii ''      <h1>Broker linked</h1>'',
      ascii ''      <p>You can close this window and return to Mizan.</p>'',
      ascii ''    </main>'',
      ascii ''  </body>'',
      ascii ''</html>'']"

definition page_html :: "page \<Rightarrow> utext" where
  "page_html p = (case p of Success_Html \<Rightarrow> success_html | Connection_Failed_Html \<Rightarrow> connection_failed_html)"

lemma html_page_scalar: "list_all (list_all scalar_value) ls \<Longrightarrow> list_all scalar_value (html_page ls)"
  by (induction ls rule: html_page.induct) (simp_all add: scalar_value_def)

text \<open>The bytes on the wire are UTF-8: the browser reads the very page.\<close>

lemma page_decodes: "from_utf8 (utf8_bytes (page_html p)) = Some (page_html p)"
proof -
  have "list_all scalar_value success_html" "list_all scalar_value connection_failed_html"
    unfolding success_html_def connection_failed_html_def
    by (rule html_page_scalar; simp add: scalar_value_ascii scalar_value_def)+
  then show ?thesis by (cases p) (simp_all add: page_html_def from_utf8_utf8_bytes)
qed

end
