(* ===== verification/Gateway.thy ===== *)
theory Gateway
  imports Boot Callback_Pages
begin

text \<open>
  The handlers behind the router: what each endpoint extracts from a request, which operation of
  its module it runs on the shared state and how the answer goes out.  With it the application of
  \<^verbatim>\<open>src/server.rs\<close> is complete, from the bytes of a request through the layers to the tables.  The
  extractors and the serialiser of axum are fields of an environment.
\<close>

subsection \<open>Extraction and replies\<close>

text \<open>What the handlers answer with, before it is serialised.\<close>

datatype reply =
    HealthReply health_response
  | ReadyReply nat ready_response
  | MeReply me_response
  | TeamsReply "team_summary list"
  | MembersReply uuid "team_member_dto list"
  | InviteReply invite_response
  | InviteInfoReply invite_info
  | AcceptReply uuid string string
  | CheckoutReply string
  | PortalReply string
  | StatusReply nat
  | StreamReply stream_task
  | ReportsReply "monthly_report list"
  | ReportReply nat monthly_report
  | PlansReply "plan_dto list"
  | PageReply page
  | LoginPortalReply login_portal_response
  | ConnectionsReply "broker_connection_dto list"
  | AccountsReply "broker_account_dto list"
  | ValueReply json
  | OkReply bool

fun reply_status :: "reply \<Rightarrow> nat" where
  "reply_status (ReadyReply s _) = s"
| "reply_status (StatusReply s) = s"
| "reply_status (ReportReply s _) = s"
| "reply_status _ = 200"

text \<open>An extractor that does not accept the request answers it; otherwise the handler may fail.\<close>

datatype handler_error = Rejected wire_response | Raised app_error

text \<open>The outside of the handlers: the environments of the modules, then the extractors of axum by the
  type they produce, the serialiser, and what the build bakes in.\<close>

record 'k gateway_env =
  gx_auth :: "'k auth_env"
  gx_st :: st_env
  gx_aead :: aead
  gx_jwt :: jwt_env
  gx_with_state :: "string \<Rightarrow> string \<Rightarrow> string option"
  gx_parse_date :: "string \<Rightarrow> instant option"
  gx_uuid_text :: "uuid \<Rightarrow> string"
  gx_uuid_simple :: "uuid \<Rightarrow> string"
  gx_webhook :: webhook_env
  gx_invite :: invite_env
  gx_upstream :: upstream
  gx_ai :: ai_env
  gx_format_time :: "instant \<Rightarrow> string option"
  gx_collate :: "string \<Rightarrow> int"
  gx_path_uuid :: "wire_request \<Rightarrow> wire_response + uuid"
  gx_path_text :: "wire_request \<Rightarrow> wire_response + string"
  gx_json_patch :: "wire_request \<Rightarrow> wire_response + string option"
  gx_json_invite :: "wire_request \<Rightarrow> wire_response + create_invite_request"
  gx_json_checkout :: "wire_request \<Rightarrow> wire_response + checkout_request"
  gx_json_usage :: "wire_request \<Rightarrow> wire_response + usage_request"
  gx_json_chat :: "wire_request \<Rightarrow> wire_response + ai_chat_request"
  gx_json_portal :: "wire_request \<Rightarrow> wire_response + unit"
  gx_query_limit :: "wire_request \<Rightarrow> wire_response + int option"
  gx_query_callback :: "wire_request \<Rightarrow> wire_response + callback_query"
  gx_query_activities :: "wire_request \<Rightarrow> wire_response + activities_query"
  gx_bytes :: "wire_request \<Rightarrow> wire_response + byte list"
  gx_encode :: "reply \<Rightarrow> header_map \<times> string"
  gx_version :: string
  gx_build_time :: string
  gx_git_commit :: string

text \<open>What one request takes from the clock, the generators and the key endpoint.\<close>

record draws =
  dr_now :: instant
  dr_today :: calendar_date
  dr_jwks_reply :: "string + raw_jwk list"
  dr_account_id :: uuid
  dr_row_id :: uuid
  dr_token_uuids :: "uuid \<times> uuid"
  dr_nonce :: "byte list"
  dr_token_nonce :: uuid
  dr_ping_late :: bool

definition extracted :: "wire_response + 'a \<Rightarrow> (handler_error, 'a) action" where
  "extracted r = of_result (map_err Rejected r)"

definition answer :: "('a \<Rightarrow> reply) \<Rightarrow> (app_error, 'a) action \<Rightarrow> (handler_error, reply) action" where
  "answer f m = bindM (map_errM Raised m) (\<lambda>a. pure (f a))"

subsection \<open>The handlers\<close>

text \<open>The broker environment out of the shared state.\<close>

definition broker_of :: "'k gateway_env \<Rightarrow> 'k app_state \<Rightarrow> broker_env" where
  "broker_of gx st =
     \<lparr>be_st = gx_st gx, be_client = as_snaptrade st, be_aead = gx_aead gx, be_key = as_encryption st,
      be_jwt = gx_jwt gx, be_state_secret = state_secret (snaptrade (as_config st)),
      be_redirect_uri = redirect_uri (snaptrade (as_config st)), be_with_state = gx_with_state gx,
      be_parse_date = gx_parse_date gx, be_uuid_text = gx_uuid_text gx\<rparr>"

text \<open>The readiness probe pings the database with a deadline of two seconds.\<close>

definition ready_handler :: "'k app_state \<Rightarrow> draws \<Rightarrow> (handler_error, reply) action" where
  "ready_handler st dr =
     matchM (select (\<lambda>_. 1 :: int)) (\<lambda>r.
       let p = (if dr_ping_late dr then PingTimeout
                else case r of Inl e \<Rightarrow> PingError (show_sqlx_error e) | Inr _ \<Rightarrow> Pong)
       in pure (case ready (dr_now dr) p (as_jwks st) of (s, body) \<Rightarrow> ReadyReply s body))"

definition webhook_handler ::
  "'k gateway_env \<Rightarrow> 'k app_state \<Rightarrow> draws \<Rightarrow> wire_request \<Rightarrow> (handler_error, reply) action" where
  "webhook_handler gx st dr req =
     bindM (extracted (gx_bytes gx req)) (\<lambda>body.
       answer StatusReply
         (receive_webhook (gx_webhook gx) (as_billing st)
            (Option.bind (header_get (wire_request.rq_headers req) ''stripe-signature'') header_to_str)
            body (dr_row_id dr) (dr_now dr)))"

text \<open>The endpoints that take no user; those that do are not dispatched here.\<close>

fun public_handler ::
  "'k gateway_env \<Rightarrow> 'k app_state \<Rightarrow> draws \<Rightarrow> wire_request \<Rightarrow> endpoint \<Rightarrow> (handler_error, reply) action" where
  "public_handler gx st dr req Health =
     pure (HealthReply (health (gx_version gx) (gx_build_time gx) (gx_git_commit gx)))"
| "public_handler gx st dr req Ready = ready_handler st dr"
| "public_handler gx st dr req GetInvite =
     bindM (extracted (gx_path_text gx req)) (\<lambda>token.
       answer InviteInfoReply (get_invite (gx_invite gx) (dr_now dr) token))"
| "public_handler gx st dr req ReceiveWebhook = webhook_handler gx st dr req"
| "public_handler gx st dr req ListPlans = answer PlansReply (of_result list_plans)"
| "public_handler gx st dr req SnaptradeCallback =
     bindM (extracted (gx_query_callback gx req)) (\<lambda>q.
       answer PageReply (snaptrade_callback (broker_of gx st) (dr_now dr) q))"
| "public_handler gx st dr req _ = throw (Raised (unauthorized []))"

text \<open>The login portal consults the limiter of the shared state.\<close>

definition portal_handler ::
  "'k gateway_env \<Rightarrow> 'k app_state \<Rightarrow> draws \<Rightarrow> user \<Rightarrow> (app_error, login_portal_response) action" where
  "portal_handler gx st dr u w =
     fst (login_portal (broker_of gx st) (dr_now dr) (dr_nonce dr) (dr_token_nonce dr) (dr_row_id dr) u
            (as_limiter st) w)"

fun user_handler ::
  "'k gateway_env \<Rightarrow> 'k app_state \<Rightarrow> draws \<Rightarrow> wire_request \<Rightarrow> user \<Rightarrow> endpoint \<Rightarrow> (handler_error, reply) action" where
  "user_handler gx st dr req u GetMe = answer MeReply (get_me (gx_format_time gx) u)"
| "user_handler gx st dr req u PatchMe =
     bindM (extracted (gx_json_patch gx req)) (\<lambda>name.
       answer MeReply (patch_me (gx_format_time gx) (dr_now dr) u name))"
| "user_handler gx st dr req u ListForMe =
     answer TeamsReply (list_for_me (gx_collate gx) (gx_format_time gx) u)"
| "user_handler gx st dr req u ListMembers =
     bindM (extracted (gx_path_uuid gx req)) (\<lambda>tid.
       answer (\<lambda>(t, ms). MembersReply t ms) (list_members (gx_format_time gx) u tid))"
| "user_handler gx st dr req u CreateInvite =
     bindM (extracted (gx_path_uuid gx req)) (\<lambda>tid.
     bindM (extracted (gx_json_invite gx req)) (\<lambda>ci.
       answer InviteReply (create_invite (gx_invite gx)
         (generate_token (gx_uuid_simple gx) (fst (dr_token_uuids dr)) (snd (dr_token_uuids dr))) (dr_now dr) u tid ci)))"
| "user_handler gx st dr req u AcceptInvite =
     bindM (extracted (gx_path_text gx req)) (\<lambda>token.
       answer (\<lambda>(t, name, role). AcceptReply t name role) (accept_invite (dr_now dr) u token))"
| "user_handler gx st dr req u CreateCheckoutSession =
     bindM (extracted (gx_json_checkout gx req)) (\<lambda>ck.
       answer CheckoutReply (create_checkout_session_handler (as_billing st) (dr_row_id dr) (dr_now dr) u ck))"
| "user_handler gx st dr req u CreatePortalSession =
     answer PortalReply (create_portal_session (as_billing st) u)"
| "user_handler gx st dr req u RecordUsage =
     bindM (extracted (gx_json_usage gx req)) (\<lambda>us.
       answer StatusReply (record_usage_handler (dr_now dr) u us))"
| "user_handler gx st dr req u Chat =
     bindM (extracted (gx_json_chat gx req)) (\<lambda>cr.
       answer StreamReply (chat (gx_upstream gx) (as_billing st) u cr))"
| "user_handler gx st dr req u ListMonthlyReports =
     bindM (extracted (gx_query_limit gx req)) (\<lambda>limit.
       answer ReportsReply (list_monthly_reports u limit))"
| "user_handler gx st dr req u RequestMonthlyReport =
     answer (\<lambda>(s, r). ReportReply s r) (request_monthly_report (dr_row_id dr) (dr_now dr) (dr_today dr) u)"
| "user_handler gx st dr req u LoginPortal =
     bindM (extracted (gx_json_portal gx req)) (\<lambda>_. answer LoginPortalReply (portal_handler gx st dr u))"
| "user_handler gx st dr req u ListConnections =
     answer ConnectionsReply (list_connections (broker_of gx st) (dr_now dr) u)"
| "user_handler gx st dr req u ListAccounts =
     answer AccountsReply (list_accounts_handler (broker_of gx st) (dr_now dr) u)"
| "user_handler gx st dr req u AccountHoldings =
     bindM (extracted (gx_path_text gx req)) (\<lambda>account.
       answer ValueReply (account_holdings_handler (broker_of gx st) (dr_now dr) u account))"
| "user_handler gx st dr req u AccountActivities =
     bindM (extracted (gx_path_text gx req)) (\<lambda>account.
     bindM (extracted (gx_query_activities gx req)) (\<lambda>q.
       answer ValueReply (account_activities_handler (broker_of gx st) (dr_now dr) u account q)))"
| "user_handler gx st dr req u RefreshConnection =
     bindM (extracted (gx_path_text gx req)) (\<lambda>a.
       answer OkReply (refresh_connection (broker_of gx st) (dr_now dr) u a))"
| "user_handler gx st dr req u DeleteConnection =
     bindM (extracted (gx_path_text gx req)) (\<lambda>a.
       answer OkReply (delete_connection (broker_of gx st) (dr_now dr) u a))"
| "user_handler gx st dr req u e = public_handler gx st dr req e"

subsection \<open>The application\<close>

definition reply_response :: "'k gateway_env \<Rightarrow> reply \<Rightarrow> wire_response" where
  "reply_response gx r =
     (case r of
        PageReply p \<Rightarrow>
          \<lparr>rs_status = 200, rs_headers = header_insert ''content-type'' ''text/html; charset=utf-8'' (\<lambda>_. []),
           rs_body = OtherBody (map (\<lambda>b. char_of (unat b)) (utf8_bytes (page_html p)))\<rparr>
      | _ \<Rightarrow>
          \<lparr>rs_status = reply_status r, rs_headers = fst (gx_encode gx r),
           rs_body = OtherBody (snd (gx_encode gx r))\<rparr>)"

definition app_handlers :: "'k gateway_env \<Rightarrow> 'k app_state \<Rightarrow> draws \<Rightarrow> handlers" where
  "app_handlers gx st dr ep u task req w =
     (case (case u of None \<Rightarrow> public_handler gx st dr req ep | Some a \<Rightarrow> user_handler gx st dr req a ep) w of
        (Inl (Rejected r), w') \<Rightarrow> (r, w')
      | (Inl (Raised e), w') \<Rightarrow> (error_response task e, w')
      | (Inr r, w') \<Rightarrow> (reply_response gx r, w'))"

definition app_auth ::
  "'k gateway_env \<Rightarrow> 'k app_state \<Rightarrow> draws \<Rightarrow> string option option \<Rightarrow> (app_error, user) action \<times> 'k cache_state" where
  "app_auth gx st dr header =
     authenticate (gx_auth gx) (as_config st) (dr_now dr) (dr_jwks_reply dr) (dr_account_id dr) header (as_jwks st)"

definition application ::
  "('c, 'g) http_env \<Rightarrow> 'k gateway_env \<Rightarrow> 'k app_state \<Rightarrow> string \<Rightarrow> string \<Rightarrow> draws \<Rightarrow> service option" where
  "application hx gx st fresh fresh2 dr =
     build_app hx (as_config st) fresh fresh2 (\<lambda>h. fst (app_auth gx st dr h)) (app_handlers gx st dr)"

text \<open>What a request that is dispatched leaves of the shared state: the key cache the extractor may have
  filled, and the limiter.\<close>

definition request_state :: "'k gateway_env \<Rightarrow> 'k app_state \<Rightarrow> draws \<Rightarrow> wire_request \<Rightarrow> world \<Rightarrow> 'k app_state" where
  "request_state gx st dr req w =
     (case route_request route_table (rq_verb req) (rq_path req) of
        Inl _ \<Rightarrow> st
      | Inr ep \<Rightarrow>
          if \<not> takes_user ep then st
          else
            (case app_auth gx st dr (map_option header_to_str (header_get (wire_request.rq_headers req) ''authorization'')) of
               (act, jwks) \<Rightarrow>
                 let st' = st\<lparr>as_jwks := jwks\<rparr> in
                 (case act w of
                    (Inr u, w') \<Rightarrow>
                      if ep = LoginPortal \<and> gx_json_portal gx req = Inr ()
                      then st'\<lparr>as_limiter := snd (login_portal (broker_of gx st) (dr_now dr) (dr_nonce dr)
                                  (dr_token_nonce dr) (dr_row_id dr) u (as_limiter st) w')\<rparr>
                      else st'
                  | (Inl _, _) \<Rightarrow> st')))"

subsection \<open>Every request is a run of the service\<close>

definition serves :: "'k auth_env \<Rightarrow> broker_env \<Rightarrow> ('e, 'a) action \<Rightarrow> bool" where
  "serves ax bx m \<longleftrightarrow> (\<forall>w. steps (service_step ax bx) w (snd (m w)))"

lemma serves_pure: "serves ax bx (pure a)"
  by (simp add: serves_def pure_def steps_refl)

lemma serves_throw: "serves ax bx (throw e)"
  by (simp add: serves_def throw_def steps_refl)

lemma serves_extracted: "(\<And>a. serves ax bx (k a)) \<Longrightarrow> serves ax bx (bindM (extracted r) k)"
  by (cases r) (simp_all add: serves_def extracted_def bindM_def of_result_def map_err_def steps_refl)

lemma snd_answer [simp]: "snd (answer f m w) = snd (m w)"
  by (simp add: answer_def bindM_def map_errM_def pure_def map_err_def split: prod.splits sum.splits)

lemma serves_answer: "(\<And>w. service_step ax bx w (snd (m w))) \<Longrightarrow> serves ax bx (answer f m)"
  by (auto simp: serves_def intro: steps_step [OF steps_refl])

lemma serves_ready: "serves ax bx (ready_handler st dr)"
proof -
  have "\<exists>fs. snd (ready_handler st dr w) = w\<lparr>faults := fs\<rparr>" for w
    by (auto simp: ready_handler_def matchM_def select_def query_def pure_def Let_def
        split: list.splits bool.splits prod.splits)
  then show ?thesis unfolding serves_def by (metis steps_refl steps_step svc_faults)
qed

lemma serves_public: "serves ax (broker_of gx st) (public_handler gx st dr req ep)"
proof -
  have plans: "serves ax bx (answer f (of_result list_plans))" for bx and f :: "plan_dto list \<Rightarrow> reply"
    by (simp add: serves_def of_result_def steps_refl)
  show ?thesis
    by (cases ep)
       (auto simp: webhook_handler_def
          intro!: serves_pure serves_throw serves_ready serves_extracted serves_answer plans
          intro: svc_get_invite svc_webhook svc_broker broker_callback)
qed

lemma serves_user: "serves ax (broker_of gx st) (user_handler gx st dr req u ep)"
proof -
  have portal: "service_step ax (broker_of gx st) w (snd (portal_handler gx st dr u w))" for w
    unfolding portal_handler_def by (intro svc_broker broker_portal)
  show ?thesis
    by (cases ep)
       (auto simp del: public_handler.simps intro!: serves_public serves_extracted serves_answer
          intro: portal svc_broker broker_step.intros service_step.intros)
qed

lemma handlers_serve: "steps (service_step ax (broker_of gx st)) w (snd (app_handlers gx st dr ep u task req w))"
proof -
  have "snd (app_handlers gx st dr ep u task req w) =
      snd ((case u of None \<Rightarrow> public_handler gx st dr req ep | Some a \<Rightarrow> user_handler gx st dr req a ep) w)"
    by (simp add: app_handlers_def split: prod.splits sum.splits handler_error.splits)
  moreover have "serves ax (broker_of gx st)
      (case u of None \<Rightarrow> public_handler gx st dr req ep | Some a \<Rightarrow> user_handler gx st dr req a ep)"
    by (cases u) (simp_all add: serves_public serves_user)
  ultimately show ?thesis by (simp add: serves_def)
qed

lemma serve_runs:
  "steps (service_step (gx_auth gx) (broker_of gx st)) w
     (snd (serve hx rs (\<lambda>h. fst (app_auth gx st dr h)) (app_handlers gx st dr) task req w))"
proof (cases "route_request rs (rq_verb req) (rq_path req)")
  case (Inl s)
  then show ?thesis by (simp add: serve_def steps_refl)
next
  case (Inr ep)
  show ?thesis
  proof (cases "takes_user ep")
    case True
    let ?h = "map_option header_to_str (header_get (wire_request.rq_headers req) ''authorization'')"
    obtain r w1 where a: "fst (app_auth gx st dr ?h) w = (r, w1)" by fastforce
    have "service_step (gx_auth gx) (broker_of gx st) w (snd (fst (app_auth gx st dr ?h) w))"
      unfolding app_auth_def by (rule svc_authenticate)
    then have "steps (service_step (gx_auth gx) (broker_of gx st)) w w1"
      using a by (auto intro: steps_step [OF steps_refl])
    then show ?thesis
      using Inr True a by (cases r) (auto simp: serve_def intro: steps_trans [OF handlers_serve])
  qed (use Inr handlers_serve in \<open>simp add: serve_def\<close>)
qed

end
