(* ===== verification/App_Run.thy ===== *)
theory App_Run
  imports Gateway
begin

text \<open>
  The running application: requests through all layers, the tasks that stream replies, the two
  scheduled jobs and the refreshes of the key cache, over the shared state and the database.  Every
  step is a run of the service relation, so what holds of the service holds of the process.
\<close>

subsection \<open>Layers and the database\<close>

text \<open>
  The layers of the libraries hold no pool: what they do to the database, they do by calling the
  service inside, at most once.  A call that is dropped half way, as the timeout does, has made a
  part of its round trips, and leaves the tables as if the others had failed.
\<close>

definition through :: "layer \<Rightarrow> bool" where
  "through l \<longleftrightarrow>
     (\<forall>svc task req w. db (snd (l svc task req w)) = db w \<or>
        (\<exists>task' req' fs. db (snd (l svc task req w)) = db (snd (svc task' req' (w\<lparr>faults := fs\<rparr>)))))"

definition layers_law :: "('c, 'g) http_env \<Rightarrow> bool" where
  "layers_law x \<longleftrightarrow>
     (\<forall>c. through (cors_layer x c)) \<and> (\<forall>g. through (governor_layer x g)) \<and>
     (\<forall>n. through (body_limit_layer x n)) \<and> (\<forall>s n. through (timeout_status_layer x s n)) \<and>
     through (trace_layer x) \<and> through (new_sentry_layer x) \<and> through (sentry_http_layer x) \<and>
     overriding_law x"

lemma through_id: "through (\<lambda>svc. svc)"
  unfolding through_def by (metis (no_types) world.surjective world.update_convs(2))

lemma through_comp:
  assumes "through l" "through m"
  shows "through (\<lambda>svc. l (m svc))"
  unfolding through_def
proof (intro allI)
  fix svc task req w
  let ?r = "db (snd (l (m svc) task req w))"
  consider "?r = db w" | task' req' fs where "?r = db (snd (m svc task' req' (w\<lparr>faults := fs\<rparr>)))"
    using assms(1) unfolding through_def by blast
  then show "?r = db w \<or> (\<exists>task' req' fs. ?r = db (snd (svc task' req' (w\<lparr>faults := fs\<rparr>))))"
  proof cases
    case 2
    have "db (snd (m svc task' req' (w\<lparr>faults := fs\<rparr>))) = db (w\<lparr>faults := fs\<rparr>) \<or>
        (\<exists>t r gs. db (snd (m svc task' req' (w\<lparr>faults := fs\<rparr>))) = db (snd (svc t r (w\<lparr>faults := fs, faults := gs\<rparr>))))"
      using assms(2) unfolding through_def by blast
    with 2 show ?thesis by auto
  qed simp
qed

text \<open>A layer that passes the exchange on with other headers.\<close>

lemma through_headers:
  assumes "\<And>svc task req w. \<exists>task' req'. snd (l svc task req w) = snd (svc task' req' w)"
  shows "through l"
  unfolding through_def
proof (intro allI disjI2)
  fix svc task req and w :: world
  obtain t r where "snd (l svc task req w) = snd (svc t r w)" using assms by blast
  then have "db (snd (l svc task req w)) = db (snd (svc t r (w\<lparr>faults := faults w\<rparr>)))" by simp
  then show "\<exists>task' req' fs. db (snd (l svc task req w)) = db (snd (svc task' req' (w\<lparr>faults := fs\<rparr>)))" by blast
qed

lemma through_overriding: "overriding_law x \<Longrightarrow> through (set_overriding x n v)"
proof (rule through_headers)
  fix svc task req and w :: world
  assume "overriding_law x"
  then have "snd (set_overriding x n v svc task req w) = snd (svc task req w)"
    by (simp add: overriding_law_def split: prod.splits)
  then show "\<exists>task' req'. snd (set_overriding x n v svc task req w) = snd (svc task' req' w)" by blast
qed

lemma through_request_id: "through (request_id_layer fresh fresh2)"
proof (rule through_headers)
  fix svc task req and w :: world
  show "\<exists>task' req'. snd (request_id_layer fresh fresh2 svc task req w) = snd (svc task' req' w)"
    unfolding request_id_layer_def Let_def case_prod_beta snd_conv by blast
qed

lemma through_security:
  assumes "overriding_law x"
  shows "through (security_stack x l)"
proof -
  note o = through_overriding [OF assms]
  note five = through_comp [OF o through_comp [OF o through_comp [OF o through_comp [OF o o]]]]
  show ?thesis
  proof (cases "hsts l")
    case None
    then have "security_stack x l = (\<lambda>svc. set_overriding x (fst (cross_domain l)) (snd (cross_domain l))
        (set_overriding x (fst (permissions l)) (snd (permissions l))
        (set_overriding x (fst (referrer l)) (snd (referrer l))
        (set_overriding x (fst (frame l)) (snd (frame l))
        (set_overriding x (fst (nosniff l)) (snd (nosniff l)) svc)))))"
      by (simp add: fun_eq_iff security_stack_def Let_def)
    then show ?thesis by (simp only: five)
  next
    case (Some h)
    then have "security_stack x l = (\<lambda>svc. set_overriding x (fst h) (snd h)
        (set_overriding x (fst (cross_domain l)) (snd (cross_domain l))
        (set_overriding x (fst (permissions l)) (snd (permissions l))
        (set_overriding x (fst (referrer l)) (snd (referrer l))
        (set_overriding x (fst (frame l)) (snd (frame l))
        (set_overriding x (fst (nosniff l)) (snd (nosniff l)) svc))))))"
      by (simp add: fun_eq_iff security_stack_def Let_def)
    then show ?thesis by (simp only: through_comp [OF o five])
  qed
qed

lemma through_app:
  assumes "layers_law x" "build_app x c fresh fresh2 auth handle = Some app"
  shows "\<exists>l. through l \<and> app = l (serve x route_table auth handle)"
proof -
  from assms(2) obtain g where app: "app = sentry_http_layer x (new_sentry_layer x (trace_layer x
      (request_id_layer fresh fresh2 (inner_app x c g (serve x route_table auth handle)))))"
    by (auto simp: build_app_def app_routes_table split: bind_splits)
  have laws: "through (cors_layer x k)" "through (governor_layer x g)" "through (body_limit_layer x n)"
    "through (timeout_status_layer x s n)" "through (trace_layer x)" "through (new_sentry_layer x)"
    "through (sentry_http_layer x)" "through (security_stack x l)" for k n s l
    using assms(1) by (simp_all add: layers_law_def through_security)
  have "through (\<lambda>svc. sentry_http_layer x (new_sentry_layer x (trace_layer x
      (request_id_layer fresh fresh2 (inner_app x c g svc)))))"
    unfolding inner_app_def timeout_layer_def
    by (rule through_comp [OF laws(7) through_comp [OF laws(6) through_comp [OF laws(5)
          through_comp [OF through_request_id through_comp [OF laws(4) through_comp [OF laws(3)
          through_comp [OF laws(2) through_comp [OF laws(1) laws(8)]]]]]]]])
  with app show ?thesis by blast
qed

subsection \<open>One request\<close>

text \<open>A run of the service relation, up to the schedule of faults.\<close>

definition served :: "'k auth_env \<Rightarrow> broker_env \<Rightarrow> world \<Rightarrow> world \<Rightarrow> bool" where
  "served ax bx w w' \<longleftrightarrow> (\<exists>w2. steps (service_step ax bx) w w2 \<and> db w2 = db w')"

lemma served_step: "service_step ax bx w w' \<Longrightarrow> served ax bx w w'"
  unfolding served_def by (metis steps_refl steps_step)

lemma application_served:
  assumes "layers_law hx" "application hx gx st fresh fresh2 dr = Some app"
  shows "served (gx_auth gx) (broker_of gx st) w (snd (app task req w))"
proof -
  let ?svc = "serve hx route_table (\<lambda>h. fst (app_auth gx st dr h)) (app_handlers gx st dr)"
  obtain l where l: "through l" "app = l ?svc"
    using through_app [OF assms(1)] assms(2) unfolding application_def by blast
  then consider "db (snd (app task req w)) = db w"
    | task' req' fs where "db (snd (app task req w)) = db (snd (?svc task' req' (w\<lparr>faults := fs\<rparr>)))"
    unfolding through_def by blast
  then show ?thesis
  proof cases
    case 1
    then show ?thesis unfolding served_def by (metis steps_refl)
  next
    case 2
    have "steps (service_step (gx_auth gx) (broker_of gx st)) w (w\<lparr>faults := fs\<rparr>)"
      by (intro steps_step [OF steps_refl] svc_faults)
    then have "steps (service_step (gx_auth gx) (broker_of gx st)) w (snd (?svc task' req' (w\<lparr>faults := fs\<rparr>)))"
      by (rule steps_trans [OF serve_runs])
    with 2 show ?thesis unfolding served_def by metis
  qed
qed

subsection \<open>The process\<close>

text \<open>What the process does after start-up.  A request reaches the router or is answered by a layer on the
  way; then it leaves the shared state alone.\<close>

inductive app_step ::
  "('c, 'g) http_env \<Rightarrow> 'k gateway_env \<Rightarrow> 'k app_state \<times> world \<Rightarrow> 'k app_state \<times> world \<Rightarrow> bool" for hx gx where
  app_request: "application hx gx st fresh fresh2 dr = Some app \<Longrightarrow>
     st' = st \<or> (\<exists>req' fs. st' = request_state gx st dr req' (w\<lparr>faults := fs\<rparr>)) \<Longrightarrow>
     app_step hx gx (st, w) (st', snd (app task req w))"
| app_stream: "app_step hx gx (st, w) (st, snd (run_stream (gx_ai gx) now chunks client uid model kind w))"
| app_enqueue: "app_step hx gx (st, w) (st, snd (run_enqueue row_ids now today w))"
| app_worker: "app_step hx gx (st, w) (st, snd (run_worker_tick (gx_uuid_text gx) now w))"
| app_refresh: "app_step hx gx (st, w) (st\<lparr>as_jwks := snd (refresh (gx_auth gx) now reply (as_jwks st))\<rparr>, w)"
| app_faults: "app_step hx gx (st, w) (st, w\<lparr>faults := fs\<rparr>)"

text \<open>What of the shared state never changes, and what a later state still has.\<close>

definition state_rel :: "'k app_state \<Rightarrow> 'k app_state \<Rightarrow> bool" where
  "state_rel st st' \<longleftrightarrow>
     as_config st' = as_config st \<and> as_snaptrade st' = as_snaptrade st \<and>
     as_encryption st' = as_encryption st \<and> as_billing st' = as_billing st \<and>
     (keys (as_jwks st) \<noteq> [] \<longrightarrow> keys (as_jwks st') \<noteq> []) \<and>
     ((\<forall>uid. length (slots_of (as_limiter st) uid) \<le> MAX_PER_WINDOW) \<longrightarrow>
        (\<forall>uid. length (slots_of (as_limiter st') uid) \<le> MAX_PER_WINDOW))"

lemma state_rel_refl: "state_rel st st"
  by (simp add: state_rel_def)

lemma state_rel_broker: "state_rel st st' \<Longrightarrow> broker_of gx st' = broker_of gx st"
  by (simp add: state_rel_def broker_of_def)

lemma verify_token_warm:
  assumes "keys st \<noteq> []"
  shows "keys (snd (verify_token x c now reply tok st)) \<noteq> []"
  using assms find_key_warm [OF assms, of x now reply]
  by (auto simp: verify_token_def Let_def split: sum.splits option.splits prod.splits) (metis snd_conv)+

lemma authenticate_warm:
  assumes "keys st \<noteq> []"
  shows "keys (snd (authenticate x c now reply row_id header st)) \<noteq> []"
  using assms verify_token_warm [OF assms, of x c now reply]
  by (auto simp: authenticate_def split: option.splits sum.splits prod.splits) (metis snd_conv)+

lemma check_limit_slots:
  assumes "\<forall>uid. length (slots_of m uid) \<le> MAX_PER_WINDOW"
  shows "length (slots_of (snd (check_limit now uid m)) v) \<le> MAX_PER_WINDOW"
proof -
  have "length (retain_after c (slots_of m uid)) \<le> MAX_PER_WINDOW" for c
    using assms by (metis length_filter_le order_trans retain_after_def)
  with assms show ?thesis by (auto simp: check_limit_def slots_of_upd Let_def)
qed

lemma portal_limiter:
  "snd (login_portal x now nonce tn row_id u m w) = snd (check_limit now (u_id u) m)"
  by (simp add: login_portal_def split: prod.splits sum.splits)

lemma request_state_rel: "state_rel st (request_state gx st dr req w)"
proof -
  have jwks: "state_rel st (st\<lparr>as_jwks := jwks\<rparr>)" if "app_auth gx st dr h = (act, jwks)" for act jwks h
    using that authenticate_warm [of "as_jwks st" "gx_auth gx" "as_config st" "dr_now dr" "dr_jwks_reply dr" "dr_account_id dr" h]
    by (auto simp: state_rel_def app_auth_def)
  have limiter: "state_rel st (st\<lparr>as_jwks := jwks, as_limiter := snd (login_portal bx now nonce tn row_id u (as_limiter st) w')\<rparr>)"
    if "state_rel st (st\<lparr>as_jwks := jwks\<rparr>)" for jwks bx now nonce tn row_id u w'
    using that check_limit_slots [of "as_limiter st"] by (simp add: state_rel_def portal_limiter)
  show ?thesis
    unfolding request_state_def Let_def
    by (auto intro: state_rel_refl jwks limiter [OF jwks] split: sum.splits prod.splits)
qed

text \<open>A step of the process refines a run of the service and keeps the shared state.\<close>

lemma app_step_served:
  assumes "layers_law hx" "app_step hx gx s s'"
  shows "served (gx_auth gx) (broker_of gx (fst s)) (snd s) (snd s') \<and> state_rel (fst s) (fst s')"
  using assms(2)
proof cases
  case (app_request st fresh fresh2 dr app st' w task req)
  then show ?thesis
    using application_served [OF assms(1), of gx st fresh fresh2 dr app w task req]
    by (auto intro: request_state_rel state_rel_refl)
next
  case (app_refresh st w now reply)
  moreover have "served (gx_auth gx) (broker_of gx st) w w" unfolding served_def by (metis steps_refl)
  ultimately show ?thesis
    using refresh_nonempty [of "as_jwks st" "gx_auth gx" now reply] by (simp add: state_rel_def)
qed (auto intro: state_rel_refl served_step svc_stream svc_enqueue_job svc_worker_job svc_faults)

lemma writes_migrations: "writes_subscriptions d d' \<Longrightarrow> migrations d' = migrations d"
proof -
  assume "writes_subscriptions d d'"
  then obtain ss where "d' = d\<lparr>subscriptions := ss\<rparr>" by (auto simp: writes_subscriptions_def)
  then show ?thesis by simp
qed

lemma sql_step_migrations: "sql_step d d' \<Longrightarrow> migrations d' = migrations d"
proof (induction rule: sql_step.induct)
  case (sql_stub d row_id uid cid now)
  show ?case by (rule writes_migrations [OF writes_statements(1)])
next
  case (sql_webhook d row_id now p)
  show ?case by (rule writes_migrations [OF writes_statements(2)])
next
  case (sql_connection d d')
  then show ?case
    by (induction rule: connection_step.induct)
       (simp_all add: insert_pending_sql_def mark_completed_sql_def soft_delete_sql_def audit_sql_def Let_def)
qed (simp_all add: upsert_user_sql_def update_display_name_sql_def update_subscriptions_def usage_sql_def
    add_credits_sql_def record_event_sql_def enqueue_sql_def update_report_def insert_invite_sql_def
    upsert_member_sql_def redeem_sql_def Let_def split: option.splits list.splits)

lemma served_keeps:
  assumes "served ax bx w w'" "service_inv (db w)"
  shows "service_inv (db w') \<and> append_only (db w) (db w') \<and> migrations (db w') = migrations (db w)"
proof -
  obtain w2 where w2: "steps (service_step ax bx) w w2" "db w2 = db w'" using assms(1) by (auto simp: served_def)
  have sql: "migrations d' = migrations d" if "steps sql_step d d'" for d d'
    using that by (induction rule: steps.induct) (auto dest: sql_step_migrations)
  from w2(1) have "migrations (db w2) = migrations (db w)"
    by (induction rule: steps.induct) (auto dest!: service_step_runs sql)
  with w2 service.steps_inv [OF w2(1) assms(2)] service.steps_rel [OF w2(1) assms(2)] show ?thesis by simp
qed

text \<open>What the process keeps, from any state on.\<close>

definition process_rel :: "'k app_state \<times> world \<Rightarrow> 'k app_state \<times> world \<Rightarrow> bool" where
  "process_rel s s' \<longleftrightarrow>
     state_rel (fst s) (fst s') \<and> append_only (db (snd s)) (db (snd s')) \<and>
     migrations (db (snd s')) = migrations (db (snd s))"

lemma process_rel_trans: "process_rel s t \<Longrightarrow> process_rel t u \<Longrightarrow> process_rel s u"
  by (auto simp: process_rel_def state_rel_def intro: append_only_trans)

lemma app_progress:
  assumes "layers_law hx"
  shows "progress_system (\<lambda>s. service_inv (db (snd s))) (app_step hx gx) (\<lambda>s. service_inv (db (snd s))) process_rel"
proof
  show "service_inv (db (snd t))" if "service_inv (db (snd s))" "app_step hx gx s t" for s t
    using app_step_served [OF assms that(2)] served_keeps that(1) by blast
  show "process_rel s t" if "service_inv (db (snd s))" "app_step hx gx s t" for s t
    using app_step_served [OF assms that(2)] served_keeps [OF _ that(1)] by (auto simp: process_rel_def)
  show "process_rel s u" if "process_rel s t" "process_rel t u" for s t u
    using that by (rule process_rel_trans)
qed (auto simp: process_rel_def state_rel_refl append_only_refl)

subsection \<open>A sample\<close>

definition sample_boot :: "string boot_env" where
  "sample_boot =
     \<lparr>bo_auth = sample_auth, bo_aead = sample_aead, bo_base64 = sample_base64, bo_connect = \<lambda>_ _. Inr (),
      bo_ping = Inr (), bo_lost = None, bo_jwks_reply = \<lambda>_. Inl ''down'',
      bo_nonces = (replicate 12 1, replicate 12 2), bo_http_client = Inr (),
      bo_stripe = \<lambda>_. b_stripe sample_context, bo_bind = \<lambda>_. Inr ()\<rparr>"

definition refused :: wire_response where
  "refused = \<lparr>rs_status = 422, rs_headers = \<lambda>_. [], rs_body = OtherBody []\<rparr>"

definition sample_gateway :: "string gateway_env" where
  "sample_gateway =
     \<lparr>gx_auth = sample_auth, gx_st = sample_st (\<lambda>_. Reply 200 []) [], gx_aead = sample_aead,
      gx_jwt = sample_jwt sample_state, gx_with_state = \<lambda>u t. Some (u @ ''?state='' @ t),
      gx_parse_date = \<lambda>_. None, gx_uuid_text = \<lambda>_. ''st-1'', gx_uuid_simple = \<lambda>_. replicate 32 CHR ''0'', gx_webhook = sample_env ''invoice.paid'',
      gx_invite = sample_invite_env, gx_upstream = \<lambda>_ _. Inl ''down'', gx_ai = sample_ai,
      gx_format_time = \<lambda>_. None, gx_collate = \<lambda>_. 0, gx_path_uuid = \<lambda>_. Inr 5, gx_path_text = \<lambda>_. Inr ''t'',
      gx_json_patch = \<lambda>_. Inr None, gx_json_invite = \<lambda>_. Inl refused, gx_json_checkout = \<lambda>_. Inl refused,
      gx_json_usage = \<lambda>_. Inl refused, gx_json_chat = \<lambda>_. Inl refused, gx_json_portal = \<lambda>_. Inr (),
      gx_query_limit = \<lambda>_. Inr None, gx_query_callback = \<lambda>_. Inl refused,
      gx_query_activities = \<lambda>_. Inl refused, gx_bytes = \<lambda>r. Inr (rq_body r),
      gx_encode = \<lambda>_. (\<lambda>_. [], ''{}''), gx_version = ''1'', gx_build_time = ''now'', gx_git_commit = ''abc''\<rparr>"

definition sample_draws :: draws where
  "sample_draws =
     \<lparr>dr_now = 0, dr_today = Date 2025 3 1, dr_jwks_reply = Inl ''down'',
      dr_account_id = 1, dr_row_id = 2, dr_token_uuids = (1, 2), dr_nonce = replicate 12 1, dr_token_nonce = 3,
      dr_ping_late = False\<rparr>"

lemma sample_http_layers: "layers_law sample_http"
  using sample_http_laws(1) by (simp add: layers_law_def through_id sample_http_def)

lemma sample_boots:
  "\<exists>st d'. boot sample_http sample_boot 0 (blank_raw\<lparr>raw_app_env := Some ''prod''\<rparr>) (empty_database 0) = (Inr st, d')"
proof -
  let ?raw = "blank_raw\<lparr>raw_app_env := Some ''prod''\<rparr>"
  let ?key = "\<lparr>key_bytes = replicate 32 (7 :: byte)\<rparr>"
  obtain c where c: "load_config sample_base64 ?raw = Inr c" "broker_secret_encryption_key (snaptrade c) = replicate 32 7"
    using sample_config_loads by blast
  have "replicate 12 (1 :: byte) \<noteq> replicate 12 2" by (simp add: eval_nat_numeral)
  then have "self_test sample_aead ?key (replicate 12 1) (replicate 12 2) = Inr ()"
    by (intro self_test_ok [OF sample_aead_laws]) (auto simp: encrypt_Inr sample_aead_def)
  then have "load_key sample_boot c = Inr ?key"
    using c(2) by (simp add: load_key_Inr sample_boot_def)
  moreover have "\<exists>d'. run_migrations 0 (empty_database 0) = (Inr (), d')"
    by (simp add: run_migrations_def apply_migration_def migrate_0005_def backfill_teams_def backfill_members_def
        backfill_subscriptions_def empty_database_def connection_indexes_def unique_on_def List.map_filter_def Let_def)
  ultimately show ?thesis
    using c(1) by (auto simp: boot_def boot_state_def migrate_pool_def connect_def sample_boot_def result_simps)
qed

lemma sample_inner: "rs_status (fst (inner_app sample_http c g svc task req w)) = rs_status (fst (svc task req w))"
  by (cases "svc task req w")
     (simp add: inner_app_def timeout_layer_def security_stack_def sample_http_def Let_def split: option.splits)

lemma sample_layers [simp]:
  "sentry_http_layer sample_http = (\<lambda>svc. svc)" "new_sentry_layer sample_http = (\<lambda>svc. svc)"
  "trace_layer sample_http = (\<lambda>svc. svc)"
  by (simp_all add: sample_http_def)

lemma request_id_status:
  "\<exists>task' h. rs_status (fst (request_id_layer fresh fresh2 svc task req w)) =
     rs_status (fst (svc task' (req\<lparr>wire_request.rq_headers := h\<rparr>) w))"
proof -
  have "rs_status (r\<lparr>rs_headers := h\<rparr>) = rs_status r" for r h by simp
  then show ?thesis unfolding request_id_layer_def Let_def case_prod_beta fst_conv by metis
qed

lemma sample_application:
  "\<exists>app. application sample_http sample_gateway st sample_uuid_text sample_uuid_text sample_draws = Some app \<and>
     rs_status (fst (app None (sample_get ''/health'' (\<lambda>_. [])) w)) = 200"
proof -
  obtain g where g: "build_rate_limiter_config sample_http (as_config st) = Some g"
    using rate_limiter_built [OF sample_http_laws(3)] by blast
  let ?svc = "serve sample_http route_table (\<lambda>h. fst (app_auth sample_gateway st sample_draws h))
      (app_handlers sample_gateway st sample_draws)"
  have "route_request route_table Get ''/health'' = Inr Health" by code_simp
  then have "rs_status (fst (?svc task ((sample_get ''/health'' (\<lambda>_. []))\<lparr>wire_request.rq_headers := h\<rparr>) w)) = 200" for task h
    by (simp add: serve_def sample_get_def app_handlers_def pure_def reply_response_def)
  then have "rs_status (fst (request_id_layer sample_uuid_text sample_uuid_text
      (inner_app sample_http (as_config st) g ?svc) None (sample_get ''/health'' (\<lambda>_. [])) w)) = 200"
    using request_id_status [of sample_uuid_text sample_uuid_text "inner_app sample_http (as_config st) g ?svc" None
        "sample_get ''/health'' (\<lambda>_. [])" w] by (auto simp: sample_inner)
  then show ?thesis using g by (simp add: application_def build_app_def app_routes_table)
qed

end
