(* ===== verification/Isolation.thy ===== *)
theory Isolation
  imports App_Run
begin

text \<open>
  Isolation of the accounts: what an authenticated request can touch.  The rows that belong to an
  account, in every table, and that a request of another account leaves them as they are, whichever
  endpoint it reaches and whatever it carries.
\<close>

subsection \<open>The rows of an account\<close>

text \<open>A subscription counts without the time of its last update: a checkout for which Stripe returns the
  customer of another account touches that.\<close>

record account_rows =
  ar_profile :: "user list"
  ar_subscriptions :: "subscription list"
  ar_usage :: "usage_row list"
  ar_reports :: "monthly_report list"
  ar_memberships :: "team_member list"
  ar_connections :: "connection list"
  ar_audit :: "audit_row list"

definition rows_of :: "uuid \<Rightarrow> database \<Rightarrow> account_rows" where
  "rows_of v d =
     \<lparr>ar_profile = filter (\<lambda>u. u_id u = v) (users d),
      ar_subscriptions = map (\<lambda>s. s\<lparr>s_updated_at := 0\<rparr>) (filter (\<lambda>s. s_user_id s = v) (subscriptions d)),
      ar_usage = filter (\<lambda>l. l_user_id l = v) (usage_ledger d),
      ar_reports = filter (\<lambda>r. r_user_id r = v) (monthly_reports d),
      ar_memberships = filter (\<lambda>m. m_user_id m = v) (team_members d),
      ar_connections = filter (\<lambda>c. c_user_id c = v) (broker_connections d),
      ar_audit = filter (\<lambda>a. a_user_id a = Some v) (audit_log d)\<rparr>"

definition spares :: "uuid \<Rightarrow> ('e, 'a) action \<Rightarrow> bool" where
  "spares v m \<longleftrightarrow> (\<forall>R. keeps (\<lambda>d. rows_of v d = R) m)"

subsection \<open>Statements\<close>

lemma filter_map_other:
  "(\<And>x. x \<in> set xs \<Longrightarrow> P (f x) = P x) \<Longrightarrow> (\<And>x. x \<in> set xs \<Longrightarrow> P x \<Longrightarrow> f x = x) \<Longrightarrow> filter P (map f xs) = filter P xs"
  by (induction xs) auto

lemma user_rows:
  assumes "v \<noteq> uid"
  shows "rows_of v (snd (update_display_name_sql now uid name d)) = rows_of v d"
proof -
  have "filter (\<lambda>u. u_id u = v) (map (\<lambda>u. if u_id u = uid \<and> u_deleted_at u = None then rename now name u else u) (users d))
      = filter (\<lambda>u. u_id u = v) (users d)"
    using assms by (intro filter_map_other) (auto simp: rename_def)
  then show ?thesis by (simp add: rows_of_def update_display_name_sql_def split: option.splits)
qed

lemma touched_subscriptions:
  "map (\<lambda>s. s\<lparr>s_updated_at := 0\<rparr>) (filter (\<lambda>s. s_user_id s = v)
     (map (\<lambda>x. if s_customer_id x = Some cid then x\<lparr>s_updated_at := now\<rparr> else x) ss)) =
   map (\<lambda>s. s\<lparr>s_updated_at := 0\<rparr>) (filter (\<lambda>s. s_user_id s = v) (ss :: subscription list))"
  by (induction ss) auto

lemma stub_rows:
  assumes "v \<noteq> uid"
  shows "rows_of v (snd (customer_stub_sql row_id uid cid now d)) = rows_of v d"
  using assms touched_subscriptions [of v cid now "subscriptions d"]
  by (auto simp: rows_of_def customer_stub_sql_def update_subscriptions_def insert_subscription_def customer_stub_def Let_def
      split: option.splits)

lemma member_rows:
  assumes "v \<noteq> uid"
  shows "rows_of v (snd (upsert_member_sql (tid, uid) a d)) = rows_of v d"
proof -
  have "filter (\<lambda>m. m_user_id m = v) (map (\<lambda>m. if (m_team_id m, m_user_id m) = (tid, uid)
      then merge_member (tid, uid) a (Some m) else m) (team_members d)) = filter (\<lambda>m. m_user_id m = v) (team_members d)"
    using assms by (intro filter_map_other) (auto simp: merge_member_def)
  with assms show ?thesis by (simp add: rows_of_def upsert_member_sql_def merge_member_def)
qed

lemma delete_rows:
  assumes "v \<noteq> uid"
  shows "rows_of v (snd (soft_delete_sql now uid cid d)) = rows_of v d"
proof -
  have "filter (\<lambda>c. c_user_id c = v) (map (\<lambda>c. if c_id c = cid \<and> c_user_id c = uid then deleted_connection now c else c)
      (broker_connections d)) = filter (\<lambda>c. c_user_id c = v) (broker_connections d)"
    using assms by (intro filter_map_other) (auto simp: deleted_connection_def)
  then show ?thesis by (simp add: rows_of_def soft_delete_sql_def)
qed

lemma insert_rows:
  assumes "v \<noteq> uid"
  shows "rows_of v (snd (usage_sql now uid metric units cost model kind d)) = rows_of v d"
    and "rows_of v (snd (enqueue_sql row_id now uid start end_day d)) = rows_of v d"
    and "rows_of v (snd (insert_pending_sql row_id now uid st_uid blob d)) = rows_of v d"
    and "ev_user_id e \<noteq> Some v \<Longrightarrow> rows_of v (snd (audit_sql now e d)) = rows_of v d"
  using assms
  by (simp_all add: rows_of_def usage_sql_def enqueue_sql_def pending_row_def insert_pending_sql_def pending_connection_def
      audit_sql_def audit_row_of_def Let_def split: option.splits)

lemma invite_rows:
  "rows_of v (snd (insert_invite_sql i d)) = rows_of v d" "rows_of v (snd (redeem_sql now uid token d)) = rows_of v d"
  by (simp_all add: rows_of_def insert_invite_sql_def redeem_sql_def)

lemma keeps_rows:
  assumes "v \<noteq> uid"
  shows "keeps (\<lambda>d. rows_of v d = R) (update_display_name now uid name)"
    and "keeps (\<lambda>d. rows_of v d = R) (upsert_customer_stub row_id now uid cid)"
    and "keeps (\<lambda>d. rows_of v d = R) (query (upsert_member_sql (tid, uid) a))"
    and "keeps (\<lambda>d. rows_of v d = R) (soft_delete now uid cid')"
    and "keeps (\<lambda>d. rows_of v d = R) (record_usage now uid metric units cost model kind)"
    and "keeps (\<lambda>d. rows_of v d = R) (enqueue_pending row_id now uid start end_day)"
    and "keeps (\<lambda>d. rows_of v d = R) (insert_pending row_id now uid st_uid blob)"
    and "ev_user_id e = Some uid \<Longrightarrow> keeps (\<lambda>d. rows_of v d = R) (record_event now e)"
    and "keeps (\<lambda>d. rows_of v d = R) (query (insert_invite_sql i))"
    and "keeps (\<lambda>d. rows_of v d = R) (query (redeem_sql now uid token))"
  unfolding update_display_name_def upsert_customer_stub_def soft_delete_def record_usage_def enqueue_pending_def
    insert_pending_def record_event_def
  using assms
  by (intro keeps_map_errM keeps_query; simp add: user_rows stub_rows member_rows delete_rows insert_rows invite_rows)+

subsection \<open>Handlers\<close>

lemma event_owner [simp]:
  "ev_user_id (initiated_event uid s) = Some uid" "ev_user_id (refresh_event uid a) = Some uid"
  "ev_user_id (disconnect_event uid b) = Some uid"
  by (simp_all add: initiated_event_def refresh_event_def disconnect_event_def event_data_def event_user_def)

lemma broker_spares:
  assumes "v \<noteq> u_id u"
  shows "keeps (\<lambda>d. rows_of v d = R) (open_portal x now nonce tn row_id u)"
    and "keeps (\<lambda>d. rows_of v d = R) (list_connections x now u)"
    and "keeps (\<lambda>d. rows_of v d = R) (list_accounts_handler x now u)"
    and "keeps (\<lambda>d. rows_of v d = R) (account_holdings_handler x now u acct)"
    and "keeps (\<lambda>d. rows_of v d = R) (account_activities_handler x now u acct aq)"
    and "keeps (\<lambda>d. rows_of v d = R) (refresh_connection x now u a)"
    and "keeps (\<lambda>d. rows_of v d = R) (delete_connection x now u a)"
  unfolding handler_defs
  by (intro keeps_intros keeps_rows [OF assms] event_owner)+

lemma writes_spare:
  assumes "v \<noteq> u_id u"
  shows "keeps (\<lambda>d. rows_of v d = R) (patch_me fmt now u name)"
    and "keeps (\<lambda>d. rows_of v d = R) (create_invite ix token now u tid req)"
    and "keeps (\<lambda>d. rows_of v d = R) (accept_invite now u token)"
    and "keeps (\<lambda>d. rows_of v d = R) (create_checkout_session_handler billing row_id now u ck)"
    and "keeps (\<lambda>d. rows_of v d = R) (record_usage_handler now u us)"
    and "keeps (\<lambda>d. rows_of v d = R) (request_monthly_report row_id now today u)"
  unfolding patch_me_def fetch_active_def invite_phases Let_def
    create_checkout_session_handler_def ensure_customer_def fetch_customer_id_def
    record_usage_handler_def request_monthly_report_def fetch_one_by_period_def
  by (intro keeps_intros keeps_rows [OF assms])+

lemma keeps_answer: "keeps P m \<Longrightarrow> keeps P (answer f m)"
  by (simp add: keeps_def)

lemma keeps_extracted: "(\<And>a. keeps P (k a)) \<Longrightarrow> keeps P (bindM (extracted r) k)"
  unfolding extracted_def by (intro keeps_intros)

lemma portal_spares: "v \<noteq> u_id u \<Longrightarrow> keeps (\<lambda>d. rows_of v d = R) (portal_handler gx st dr u)"
  using broker_spares(1) [of v u R "broker_of gx st" "dr_now dr" "dr_nonce dr" "dr_token_nonce dr" "dr_row_id dr"]
  by (auto simp: keeps_def portal_handler_def login_portal_def throw_def split: prod.splits sum.splits)

lemma user_handler_spares:
  assumes "v \<noteq> u_id u" "takes_user ep"
  shows "keeps (\<lambda>d. rows_of v d = R) (user_handler gx st dr req u ep)"
  using assms(2)
  by (cases ep)
     (auto intro!: keeps_extracted keeps_answer
        intro: reads_service keeps_chat broker_spares [OF assms(1)] writes_spare [OF assms(1)] portal_spares [OF assms(1)])

subsection \<open>The extractor\<close>

lemma upsert_user_rows:
  assumes "users_inv d" "upsert_user_sql sid a d = (Inr u, d')" "v \<noteq> u_id u"
  shows "rows_of v d' = rows_of v d"
proof (cases "user_by_supabase d sid")
  case None
  with assms(2,3) show ?thesis
    by (auto simp: upsert_user_sql_def rows_of_def split: if_splits)
next
  case (Some x)
  let ?f = "\<lambda>y. if u_supabase_user_id y = sid then merge_user sid a (Some y) else y"
  from Some have x: "x \<in> set (users d)" "u_supabase_user_id x = sid"
    by (auto simp: user_by_supabase_def dest: find_Some_iff_set)
  from Some assms(2,3) have "v \<noteq> u_id x" "d' = d\<lparr>users := map ?f (users d)\<rparr>"
    by (auto simp: upsert_user_sql_def merge_user_keys)
  moreover have "y = x" if "y \<in> set (users d)" "u_supabase_user_id y = sid" for y
    using assms(1) x that unfolding users_inv_def unique_on_Some by (metis distinct_map inj_onD)
  ultimately have "filter (\<lambda>y. u_id y = v) (map ?f (users d)) = filter (\<lambda>y. u_id y = v) (users d)"
    by (intro filter_map_other) (auto simp: merge_user_keys)
  with \<open>d' = _\<close> show ?thesis by (simp add: rows_of_def)
qed

lemma upsert_from_claims_rows:
  assumes "users_inv (db w)" "upsert_user_from_claims x row_id now c w = (Inr u, w')" "v \<noteq> u_id u"
  shows "rows_of v (db w') = rows_of v (db w)"
proof -
  from assms(2) obtain sid a where q: "query (upsert_user_sql sid a) w = (Inr u, w')"
    by (auto simp: upsert_user_from_claims_def bindM_Inr_iff map_errM_Inr of_result_def)
  from upsert_user_rows [OF assms(1) query_Inr [OF q] assms(3)] show ?thesis .
qed

lemma authenticate_rows:
  assumes "users_inv (db w)" "fst (authenticate x c now reply row_id header st) w = (Inr u, w')" "v \<noteq> u_id u"
  shows "rows_of v (db w') = rows_of v (db w)"
  using assms(2) upsert_from_claims_rows [OF assms(1) _ assms(3)]
  by (auto simp: authenticate_def throw_def split: option.splits sum.splits prod.splits)

lemma credits_rows:
  assumes "v \<noteq> uid"
  shows "rows_of v (snd (add_credits_sql now uid credits d)) = rows_of v d"
proof -
  have "filter (\<lambda>s. s_user_id s = v) (map (\<lambda>x. if billable_for uid x
      then x\<lparr>s_credits_used := s_credits_used x + credits, s_updated_at := now\<rparr> else x) (subscriptions d)) =
      filter (\<lambda>s. s_user_id s = v) (subscriptions d)"
    using assms by (intro filter_map_other) (auto simp: billable_for_def)
  then show ?thesis by (simp add: rows_of_def add_credits_sql_def split: list.splits)
qed

lemma stream_spares:
  assumes "v \<noteq> uid"
  shows "keeps (\<lambda>d. rows_of v d = R) (run_stream x now chunks client uid model kind)"
proof -
  have credits: "keeps (\<lambda>d. rows_of v d = R) (add_ai_credits_used now uid credits)" for credits
    unfolding add_ai_credits_used_def by (rule keeps_query) (simp add: credits_rows [OF assms])
  show ?thesis
    unfolding run_stream_spec charge_reply_def Let_def
    by (intro keeps_intros credits keeps_rows(5) [OF assms])
qed

lemma open_upstream_user: "open_upstream upstream key u model kind p = Inr t \<Longrightarrow> st_user t = u_id u"
  by (auto simp: open_upstream_def split: sum.splits prod.splits if_splits)

lemma chat_task_user:
  assumes "chat upstream billing u cr w = (Inr task, w')"
  shows "st_user task = u_id u"
  using assms
  by (auto simp: chat_def throw_def bindM_Inr_iff of_result_def Let_def
      split: option.splits dest: open_upstream_user)

subsection \<open>Property\<close>

text \<open>C7: isolation of the accounts.  A request that is authenticated as one user leaves the rows of
  every other account - profile, subscriptions up to their time stamp, usage, reports, team
  memberships, brokerage connections and audit trail - exactly as they were, on every route that
  takes a user, whatever it carries and whichever calls fail; and so does the task that streams
  the reply of a chat it opened.\<close>

theorem tenant_isolation:
  assumes "users_inv (db w)"
    and "fst (app_auth gx st dr (map_option header_to_str (header_get (wire_request.rq_headers req) ''authorization''))) w
      = (Inr u, w1)"
    and "v \<noteq> u_id u" "route_request route_table (rq_verb req) (rq_path req) = Inr ep" "takes_user ep"
  shows "rows_of v (db (snd (serve hx route_table (\<lambda>h. fst (app_auth gx st dr h)) (app_handlers gx st dr) task req w))) =
       rows_of v (db w) \<and>
     (\<forall>w2 cr t w3 ax now client.
        chat (gx_upstream gx) (as_billing st) u cr w2 = (Inr t, w3) \<longrightarrow>
        rows_of v (db (snd (run_stream ax now (st_chunks t) client (st_user t) (st_model t) (st_kind t) w3))) =
          rows_of v (db w3))"
proof (intro conjI allI impI)
  let ?svc = "serve hx route_table (\<lambda>h. fst (app_auth gx st dr h)) (app_handlers gx st dr) task req w"
  have "db (snd ?svc) = db (snd (user_handler gx st dr req u ep w1))"
    using assms(2,4,5) by (simp add: serve_def app_handlers_def split: prod.splits sum.splits handler_error.splits)
  moreover have "rows_of v (db w1) = rows_of v (db w)"
    using authenticate_rows [OF assms(1) _ assms(3)] assms(2) unfolding app_auth_def by blast
  ultimately show "rows_of v (db (snd ?svc)) = rows_of v (db w)"
    using keeps_run [OF user_handler_spares [OF assms(3,5), of "rows_of v (db w)"], of w1] by simp
next
  fix w2 cr t w3 ax now client
  assume "chat (gx_upstream gx) (as_billing st) u cr w2 = (Inr t, w3)"
  then have "v \<noteq> st_user t" using assms(3) by (simp add: chat_task_user)
  from keeps_run [OF stream_spares [OF this], of w3]
  show "rows_of v (db (snd (run_stream ax now (st_chunks t) client (st_user t) (st_model t) (st_kind t) w3))) =
      rows_of v (db w3)" by simp
qed

definition two_accounts :: world where
  "two_accounts = \<lparr>db = (empty_database 6)\<lparr>users := [sample_user, sample_user\<lparr>u_id := 2, u_supabase_user_id := 102\<rparr>]\<rparr>,
     faults = []\<rparr>"

definition warm_state :: "string app_state" where
  "warm_state =
     \<lparr>as_config = sample_config,
      as_jwks = \<lparr>keys = [\<lparr>kid = Some ''k1'', entry_algorithm = RS256, decoding_key = ''k''\<rparr>], fetched_at = Some 0, last_error = None\<rparr>,
      as_snaptrade = new_client ''https://h/'' ''cid'' ''key'', as_encryption = \<lparr>key_bytes = replicate 32 7\<rparr>,
      as_limiter = \<lambda>_. None, as_billing = None\<rparr>"

definition report_request :: wire_request where
  "report_request =
     \<lparr>rq_verb = Post, rq_path = ''/v1/reports/monthly'', rq_query = [],
      rq_headers = (\<lambda>_. [])(''authorization'' := [''Bearer tok'']), rq_body = []\<rparr>"

theorem tenant_isolation_witness:
  "\<exists>u w1. fst (app_auth sample_gateway warm_state sample_draws (Some (Some ''Bearer tok''))) two_accounts = (Inr u, w1) \<and>
     u_id u = 1 \<and>
     rows_of 2 (db (snd (serve sample_http route_table (\<lambda>h. fst (app_auth sample_gateway warm_state sample_draws h))
        (app_handlers sample_gateway warm_state sample_draws) None report_request two_accounts))) = rows_of 2 (db two_accounts)"
proof -
  have h: "map_option header_to_str (header_get (wire_request.rq_headers report_request) ''authorization'') =
      Some (Some ''Bearer tok'')"
    by code_simp
  have bearer: "parse_bearer ''Bearer tok'' = Inr ''tok''" by code_simp
  have "trim ''tok'' = ''tok''" by code_simp
  then obtain u w1 where a: "fst (app_auth sample_gateway warm_state sample_draws (Some (Some ''Bearer tok''))) two_accounts = (Inr u, w1)"
    "u_id u = 1"
    by (simp add: app_auth_def authenticate_def bearer verify_token_def find_key_def find_entry_def build_validation_def
        sample_gateway_def warm_state_def sample_auth_def sample_config_def sample_draws_def is_production_def
        upsert_user_from_claims_def email_required_def upsert_user_sql_def user_by_supabase_def merge_user_def
        two_accounts_def sample_user_def empty_database_def act_simps result_simps str_simps)
  have r: "route_request route_table (rq_verb report_request) (rq_path report_request) = Inr RequestMonthlyReport"
    by code_simp
  have inv: "users_inv (db two_accounts)"
    by (simp add: users_inv_def two_accounts_def sample_user_def empty_database_def unique_on_Some)
  have v: "2 \<noteq> u_id u" using a(2) by simp
  show ?thesis
    using tenant_isolation [OF inv _ v r, of sample_gateway warm_state sample_draws w1 sample_http None] a
    unfolding h by auto
qed

end
