(* ===== verification/Confidentiality.thy ===== *)
theory Confidentiality
  imports Isolation
begin

text \<open>
  What an authenticated read can reveal.  The part of the database that an account may see, and
  that the answers of the reading endpoints are computed from that part alone: two databases that
  look the same to an account give it the same responses.
\<close>

subsection \<open>What an account may see\<close>

definition in_team :: "database \<Rightarrow> uuid \<Rightarrow> uuid \<Rightarrow> bool" where
  "in_team d t v \<longleftrightarrow> (\<exists>m\<in>set (team_members d). m_team_id m = t \<and> m_user_id m = v)"

text \<open>Its own rows, the teams it is in with their members, and the profiles of those.\<close>

definition visible_to :: "uuid \<Rightarrow> database \<Rightarrow> database" where
  "visible_to v d =
     d\<lparr>users := filter (\<lambda>u. u_id u = v \<or> (\<exists>t. in_team d t v \<and> in_team d t (u_id u))) (users d),
       subscriptions := filter (\<lambda>s. s_user_id s = v) (subscriptions d),
       usage_ledger := filter (\<lambda>l. l_user_id l = v) (usage_ledger d),
       stripe_events := [],
       monthly_reports := filter (\<lambda>r. r_user_id r = v) (monthly_reports d),
       teams := filter (\<lambda>t. in_team d (t_id t) v) (teams d),
       team_members := filter (\<lambda>m. in_team d (m_team_id m) v) (team_members d),
       team_invites := [],
       broker_connections := filter (\<lambda>c. c_user_id c = v) (broker_connections d),
       audit_log := filter (\<lambda>a. a_user_id a = Some v) (audit_log d)\<rparr>"

text \<open>The endpoints that only read.\<close>

fun reads_own :: "endpoint \<Rightarrow> bool" where
  "reads_own GetMe = True"
| "reads_own ListForMe = True"
| "reads_own ListMembers = True"
| "reads_own CreatePortalSession = True"
| "reads_own Chat = True"
| "reads_own ListMonthlyReports = True"
| "reads_own ListConnections = True"
| "reads_own ListAccounts = True"
| "reads_own AccountHoldings = True"
| "reads_own AccountActivities = True"
| "reads_own _ = False"

subsection \<open>Reading through a view\<close>

text \<open>On the databases of \<open>P\<close>, the action writes nothing and does on the view what it does on the
  whole.\<close>

definition reads_through ::
  "(database \<Rightarrow> bool) \<Rightarrow> (database \<Rightarrow> database) \<Rightarrow> ('e, 'a) action \<Rightarrow> bool" where
  "reads_through P V m \<longleftrightarrow>
     (\<forall>d fs. P d \<longrightarrow>
        (\<exists>r gs. m \<lparr>db = d, faults = fs\<rparr> = (r, \<lparr>db = d, faults = gs\<rparr>) \<and>
           m \<lparr>db = V d, faults = fs\<rparr> = (r, \<lparr>db = V d, faults = gs\<rparr>)))"

named_theorems through_intros \<open>actions that read through a view\<close>

lemma reads_throughE:
  assumes "reads_through P V m" "P d"
  obtains r gs where "m \<lparr>db = d, faults = fs\<rparr> = (r, \<lparr>db = d, faults = gs\<rparr>)"
    "m \<lparr>db = V d, faults = fs\<rparr> = (r, \<lparr>db = V d, faults = gs\<rparr>)"
  using assms unfolding reads_through_def by blast

lemma through_weaken: "reads_through P V m \<Longrightarrow> (\<And>d. Q d \<Longrightarrow> P d) \<Longrightarrow> reads_through Q V m"
  unfolding reads_through_def by blast

lemma through_of_result [through_intros]: "reads_through P V (of_result r)"
  by (simp add: reads_through_def of_result_def)

lemma through_pure [through_intros]: "reads_through P V (pure a)"
  by (simp add: reads_through_def pure_def)

lemma through_throw [through_intros]: "reads_through P V (throw e)"
  by (simp add: reads_through_def throw_def)

lemma through_map_errM [through_intros]:
  assumes "reads_through P V m"
  shows "reads_through P V (map_errM f m)"
  unfolding reads_through_def
proof (intro allI impI)
  fix d and fs :: "bool list"
  assume "P d"
  with assms show "\<exists>r gs. map_errM f m \<lparr>db = d, faults = fs\<rparr> = (r, \<lparr>db = d, faults = gs\<rparr>) \<and>
      map_errM f m \<lparr>db = V d, faults = fs\<rparr> = (r, \<lparr>db = V d, faults = gs\<rparr>)"
    by (rule reads_throughE [of P V m d fs]) (simp add: map_errM_def)
qed

lemma through_select:
  assumes "\<And>d. P d \<Longrightarrow> f (V d) = f d"
  shows "reads_through P V (select f)"
  using assms by (auto simp: reads_through_def select_def query_def split: list.splits bool.splits)

lemma through_bindM [through_intros]:
  assumes "reads_through P V m" "\<And>a. reads_through P V (k a)"
  shows "reads_through P V (bindM m k)"
  unfolding reads_through_def
proof (intro allI impI)
  fix d and fs :: "bool list"
  assume P: "P d"
  obtain r gs where m: "m \<lparr>db = d, faults = fs\<rparr> = (r, \<lparr>db = d, faults = gs\<rparr>)"
    "m \<lparr>db = V d, faults = fs\<rparr> = (r, \<lparr>db = V d, faults = gs\<rparr>)"
    using reads_throughE [OF assms(1) P] .
  show "\<exists>r gs. bindM m k \<lparr>db = d, faults = fs\<rparr> = (r, \<lparr>db = d, faults = gs\<rparr>) \<and>
      bindM m k \<lparr>db = V d, faults = fs\<rparr> = (r, \<lparr>db = V d, faults = gs\<rparr>)"
  proof (cases r)
    case (Inr a)
    obtain r2 hs where "k a \<lparr>db = d, faults = gs\<rparr> = (r2, \<lparr>db = d, faults = hs\<rparr>)"
      "k a \<lparr>db = V d, faults = gs\<rparr> = (r2, \<lparr>db = V d, faults = hs\<rparr>)"
      using reads_throughE [OF assms(2) P] .
    with m Inr show ?thesis by (simp add: bindM_def)
  qed (use m in \<open>simp add: bindM_def\<close>)
qed

text \<open>What was read is known to the rest.\<close>

lemma through_read:
  assumes "\<And>d. P d \<Longrightarrow> f (V d) = f d" "\<And>a. reads_through (\<lambda>d. P d \<and> f d = a) V (k a)"
  shows "reads_through P V (bindM (map_errM g (select f)) k)"
  unfolding reads_through_def
proof (intro allI impI)
  fix d and fs :: "bool list"
  assume P: "P d"
  show "\<exists>r gs. bindM (map_errM g (select f)) k \<lparr>db = d, faults = fs\<rparr> = (r, \<lparr>db = d, faults = gs\<rparr>) \<and>
      bindM (map_errM g (select f)) k \<lparr>db = V d, faults = fs\<rparr> = (r, \<lparr>db = V d, faults = gs\<rparr>)"
  proof (cases "\<exists>gs. fs = True # gs")
    case True
    then show ?thesis by (auto simp: bindM_def map_errM_def select_def query_def map_err_def)
  next
    case False
    obtain r hs where "k (f d) \<lparr>db = d, faults = tl fs\<rparr> = (r, \<lparr>db = d, faults = hs\<rparr>)"
      "k (f d) \<lparr>db = V d, faults = tl fs\<rparr> = (r, \<lparr>db = V d, faults = hs\<rparr>)"
      using reads_throughE [OF assms(2), of d] P by blast
    moreover have "select f \<lparr>db = e, faults = fs\<rparr> = (Inr (f e), \<lparr>db = e, faults = tl fs\<rparr>)" for e
      using False by (auto simp: select_def query_def split: list.splits bool.splits)
    ultimately show ?thesis using assms(1) [OF P] by (simp add: bindM_def map_errM_def map_err_def)
  qed
qed

lemma through_match:
  assumes "\<And>d. P d \<Longrightarrow> f (V d) = f d" "\<And>r. reads_through P V (k r)"
  shows "reads_through P V (matchM (select f) k)"
  unfolding reads_through_def
proof (intro allI impI)
  fix d and fs :: "bool list"
  assume P: "P d"
  have "reads_through P V (select f)" by (rule through_select) (rule assms(1))
  then obtain r gs where m: "select f \<lparr>db = d, faults = fs\<rparr> = (r, \<lparr>db = d, faults = gs\<rparr>)"
    "select f \<lparr>db = V d, faults = fs\<rparr> = (r, \<lparr>db = V d, faults = gs\<rparr>)"
    using P by (rule reads_throughE)
  obtain r2 hs where "k r \<lparr>db = d, faults = gs\<rparr> = (r2, \<lparr>db = d, faults = hs\<rparr>)"
    "k r \<lparr>db = V d, faults = gs\<rparr> = (r2, \<lparr>db = V d, faults = hs\<rparr>)"
    using reads_throughE [OF assms(2) P] .
  with m show "\<exists>r gs. matchM (select f) k \<lparr>db = d, faults = fs\<rparr> = (r, \<lparr>db = d, faults = gs\<rparr>) \<and>
      matchM (select f) k \<lparr>db = V d, faults = fs\<rparr> = (r, \<lparr>db = V d, faults = gs\<rparr>)"
    by (simp add: matchM_def)
qed

lemma through_mapM:
  "(\<And>x. x \<in> set xs \<Longrightarrow> reads_through P V (f x)) \<Longrightarrow> reads_through P V (mapM f xs)"
  by (induction xs) (auto intro!: through_intros)

lemma through_option [through_intros]:
  "reads_through P V m \<Longrightarrow> (\<And>a. reads_through P V (k a)) \<Longrightarrow> reads_through P V (case x of None \<Rightarrow> m | Some a \<Rightarrow> k a)"
  by (cases x) simp_all

subsection \<open>The queries\<close>

lemma find_filter: "(\<And>x. x \<in> set xs \<Longrightarrow> P x \<Longrightarrow> Q x) \<Longrightarrow> find P (filter Q xs) = find P xs"
  by (induction xs) auto

lemma filter_sub: "(\<And>x. x \<in> set xs \<Longrightarrow> P x \<Longrightarrow> Q x) \<Longrightarrow> filter P (filter Q xs) = filter P xs"
  by (induction xs) auto

lemma view_billing:
  "active_subscription (visible_to v d) v = active_subscription d v"
  "customer_id_of (visible_to v d) v = customer_id_of d v"
  "newest_reports v limit (visible_to v d) = newest_reports v limit d"
  "active_connection (visible_to v d) v = active_connection d v"
proof -
  have "find (\<lambda>c. c_user_id c = v \<and> c_is_active c) (filter (\<lambda>c. c_user_id c = v) cs) =
      find (\<lambda>c. c_user_id c = v \<and> c_is_active c) cs" for cs
    by (rule find_filter) simp
  then show "active_connection (visible_to v d) v = active_connection d v"
    by (simp add: active_connection_def visible_to_def)
qed (simp_all add: active_subscription_def customer_id_of_def newest_reports_def visible_to_def conj_commute conj_left_commute)

lemma view_role: "role_of (visible_to v d) t v = role_of d t v"
proof -
  have "membership (visible_to v d) (t, v) = membership d (t, v)"
    unfolding membership_def visible_to_def by (simp, intro find_filter) (auto simp: in_team_def)
  then show ?thesis by (simp add: role_of_def)
qed

lemma role_in_team: "role_of d t v \<noteq> None \<Longrightarrow> in_team d t v"
  by (auto simp: role_of_def membership_def in_team_def dest: find_Some_iff_set)

lemma view_members: "in_team d t v \<Longrightarrow> members_of (visible_to v d) t = members_of d t"
  by (simp del: filter_filter add: members_of_def visible_to_def filter_sub [where P = "\<lambda>m. m_team_id m = t"])

lemma view_person: "in_team d t v \<Longrightarrow> in_team d t i \<Longrightarrow> user_by_id (visible_to v d) i = user_by_id d i"
  unfolding user_by_id_def visible_to_def by (simp, intro find_filter) auto

lemma view_teams: "teams_of collate (visible_to v d) v = teams_of collate d v"
proof -
  have "concat (map (\<lambda>t. map (\<lambda>_. t) (filter (\<lambda>m. m_team_id m = t_id t \<and> m_user_id m = v)
        (filter (\<lambda>m. in_team d (m_team_id m) v) (team_members d))))
      (filter (\<lambda>t. t_deleted_at t = None) (filter (\<lambda>t. in_team d (t_id t) v) ts))) =
    concat (map (\<lambda>t. map (\<lambda>_. t) (filter (\<lambda>m. m_team_id m = t_id t \<and> m_user_id m = v) (team_members d)))
      (filter (\<lambda>t. t_deleted_at t = None) ts))" for ts :: "team list"
  proof (induction ts)
    case (Cons t ts)
    have own: "filter (\<lambda>m. m_team_id m = t_id t \<and> m_user_id m = v) (filter (\<lambda>m. in_team d (m_team_id m) v) (team_members d)) =
        filter (\<lambda>m. m_team_id m = t_id t \<and> m_user_id m = v) (team_members d)"
      by (intro filter_sub) (auto simp: in_team_def)
    have "filter (\<lambda>m. m_team_id m = t_id t \<and> m_user_id m = v) (team_members d) = []" if "\<not> in_team d (t_id t) v"
      using that by (auto simp: in_team_def filter_empty_conv)
    with Cons.IH own show ?case by auto
  qed simp
  then show ?thesis by (simp del: filter_filter add: teams_of_def visible_to_def)
qed

subsection \<open>The endpoints\<close>

lemma own_queries [through_intros]:
  "reads_through P (visible_to v) (fetch_active v)" "reads_through P (visible_to v) (fetch_customer_id v)"
  "reads_through P (visible_to v) (list_for_user v limit)" "reads_through P (visible_to v) (fetch_active_for_user v)"
  "reads_through P (visible_to v) (role_for t v)" "reads_through P (visible_to v) (list_teams_for_user collate v)"
  unfolding fetch_active_def fetch_customer_id_def list_for_user_def fetch_active_for_user_def role_for_def
    list_teams_for_user_def
  by (intro through_map_errM through_select view_billing view_role view_teams)+

lemma own_reads:
  "reads_through P (visible_to (u_id u)) (get_me fmt u)"
  "reads_through P (visible_to (u_id u)) (list_for_me collate fmt u)"
  "reads_through P (visible_to (u_id u)) (create_portal_session billing u)"
  "reads_through P (visible_to (u_id u)) (chat upstream billing u cr)"
  "reads_through P (visible_to (u_id u)) (list_monthly_reports u limit)"
  unfolding get_me_def list_for_me_def create_portal_session_def chat_def list_monthly_reports_def Let_def
  by (intro through_intros through_mapM)+

lemma broker_reads:
  "reads_through P (visible_to (u_id u)) (list_connections x now u)"
  "reads_through P (visible_to (u_id u)) (list_accounts_handler x now u)"
  "reads_through P (visible_to (u_id u)) (account_holdings_handler x now u acct)"
  "reads_through P (visible_to (u_id u)) (account_activities_handler x now u acct aq)"
  unfolding list_connections_def list_accounts_handler_def account_holdings_handler_def account_activities_handler_def
  by (intro through_intros)+

lemma member_reads: "reads_through P (visible_to (u_id u)) (list_members fmt u tid)"
  unfolding list_members_def role_for_def
proof (rule through_read)
  show "role_of (visible_to (u_id u) d) tid (u_id u) = role_of d tid (u_id u)" for d by (rule view_role)
  fix role
  let ?P = "\<lambda>d. P d \<and> role_of d tid (u_id u) = role"
  have "reads_through ?P (visible_to (u_id u)) (bindM (list_team_members tid)
      (\<lambda>ms. bindM (mapM (member_dto fmt) ms) (\<lambda>out. pure (tid, out))))" if "role \<noteq> None"
    unfolding list_team_members_def
  proof (rule through_read)
    have in_team: "in_team d tid (u_id u)" if "?P d" for d using that \<open>role \<noteq> None\<close> role_in_team by metis
    then show "members_of (visible_to (u_id u) d) tid = members_of d tid" if "?P d" for d
      using that by (simp add: view_members)
    fix ms
    have "reads_through (\<lambda>d. ?P d \<and> members_of d tid = ms) (visible_to (u_id u)) (member_dto fmt m)" if "m \<in> set ms" for m
      unfolding member_dto_def fetch_user_by_id_def
    proof (intro through_match through_pure)
      fix d assume d: "?P d \<and> members_of d tid = ms"
      then have "in_team d tid (m_user_id m)" using that by (auto simp: members_of_def in_team_def)
      then show "user_by_id (visible_to (u_id u) d) (m_user_id m) = user_by_id d (m_user_id m)"
        using in_team d by (blast intro: view_person)
    qed
    then show "reads_through (\<lambda>d. ?P d \<and> members_of d tid = ms) (visible_to (u_id u))
        (bindM (mapM (member_dto fmt) ms) (\<lambda>out. pure (tid, out)))"
      by (intro through_intros through_mapM)
  qed
  then show "reads_through ?P (visible_to (u_id u)) (if role = None then throw (forbidden ''You are not a member of this team.'')
      else bindM (list_team_members tid) (\<lambda>ms. bindM (mapM (member_dto fmt) ms) (\<lambda>out. pure (tid, out))))"
    by (simp add: through_throw)
qed

lemma through_answer: "reads_through P V m \<Longrightarrow> reads_through P V (answer f m)"
  unfolding answer_def by (intro through_intros)

lemma through_extracted: "(\<And>a. reads_through P V (k a)) \<Longrightarrow> reads_through P V (bindM (extracted r) k)"
  unfolding extracted_def by (intro through_intros)

lemma user_handler_reads:
  assumes "reads_own ep"
  shows "reads_through (\<lambda>_. True) (visible_to (u_id u)) (user_handler gx st dr req u ep)"
  using assms
  by (cases ep) (auto intro!: through_answer through_extracted own_reads broker_reads member_reads)

subsection \<open>Property\<close>

text \<open>C8: confidentiality of the reads.  The response of every endpoint that reads - profile, teams,
  members, reports, brokerage data, the billing portal, the gate of a chat - depends only on the
  request, on the calls that fail, and on what the user may see: the own rows, the teams the user
  is in, their members and the profiles of those.  Two databases that agree on that part give the
  same response, status, headers and body, whatever else is in them; and the read changes
  neither.\<close>

theorem read_confidential:
  assumes "reads_own ep" "visible_to (u_id u) (db w1) = visible_to (u_id u) (db w2)" "faults w1 = faults w2"
  shows "fst (app_handlers gx st dr ep (Some u) task req w1) = fst (app_handlers gx st dr ep (Some u) task req w2) \<and>
     db (snd (app_handlers gx st dr ep (Some u) task req w1)) = db w1"
proof -
  let ?h = "user_handler gx st dr req u ep"
  have view: "\<exists>r fs gs. ?h w = (r, \<lparr>db = db w, faults = fs\<rparr>) \<and>
      ?h \<lparr>db = visible_to (u_id u) (db w), faults = faults w\<rparr> = (r, \<lparr>db = visible_to (u_id u) (db w), faults = gs\<rparr>)" for w
    using reads_throughE [OF user_handler_reads [OF assms(1)], where d = "db w" and fs = "faults w"]
    by (metis world.surjective old.unit.exhaust)
  obtain r1 fs1 where 1: "?h w1 = (r1, \<lparr>db = db w1, faults = fs1\<rparr>)"
    "fst (?h \<lparr>db = visible_to (u_id u) (db w1), faults = faults w1\<rparr>) = r1" using view [of w1] by auto
  obtain r2 fs2 where 2: "?h w2 = (r2, \<lparr>db = db w2, faults = fs2\<rparr>)"
    "fst (?h \<lparr>db = visible_to (u_id u) (db w2), faults = faults w2\<rparr>) = r2" using view [of w2] by auto
  have "r1 = r2" using 1(2) 2(2) assms(2,3) by simp
  with 1(1) 2(1) show ?thesis by (simp add: app_handlers_def split: sum.splits handler_error.splits)
qed

text \<open>The member list of a team, in two databases that differ in the reports, the subscriptions and
  the connection of somebody else.\<close>

definition other_rows :: "database \<Rightarrow> database" where
  "other_rows d = d\<lparr>subscriptions := subscriptions d @ [sample_subscription\<lparr>s_id := 9, s_user_id := 7, s_customer_id := Some ''cus_7''\<rparr>],
     broker_connections := broker_connections d @ [sample_connection\<lparr>c_user_id := 7\<rparr>]\<rparr>"

theorem read_confidential_witness:
  "fst (app_handlers sample_gateway warm_state sample_draws ListMembers (Some sample_user) None report_request team_world) =
   fst (app_handlers sample_gateway warm_state sample_draws ListMembers (Some sample_user) None report_request
     (team_world\<lparr>db := other_rows (db team_world)\<rparr>)) \<and>
   other_rows (db team_world) \<noteq> db team_world"
proof
  have "visible_to (u_id sample_user) (db team_world) =
      visible_to (u_id sample_user) (db (team_world\<lparr>db := other_rows (db team_world)\<rparr>))"
    by (simp add: visible_to_def other_rows_def sample_user_def sample_subscription_def sample_connection_def
        pending_connection_def in_team_def)
  then show "fst (app_handlers sample_gateway warm_state sample_draws ListMembers (Some sample_user) None report_request team_world) =
      fst (app_handlers sample_gateway warm_state sample_draws ListMembers (Some sample_user) None report_request
        (team_world\<lparr>db := other_rows (db team_world)\<rparr>))"
    by (intro conjunct1 [OF read_confidential]) simp_all
  have "length (subscriptions (other_rows d)) \<noteq> length (subscriptions d)" for d by (simp add: other_rows_def)
  then show "other_rows (db team_world) \<noteq> db team_world" by metis
qed

end
