(* ===== verification/Readiness.thy ===== *)
theory Readiness
  imports Http_Layers
begin

text \<open>
  The background refresher of the key cache (\<^verbatim>\<open>src/auth/jwks.rs\<close>, \<open>spawn_refresher\<close>) and what the
  readiness probe (\<^verbatim>\<open>src/health.rs\<close>) says while it runs.
\<close>

subsection \<open>The refresher\<close>

definition REFRESH_INTERVAL :: int where
  "REFRESH_INTERVAL = 60 * 60 * 1000000000"

text \<open>A tick: its time and what the key endpoint answers.  An error is logged, and the loop goes on.\<close>

type_synonym tick = "instant \<times> (string + raw_jwk list)"

fun refresher :: "'k auth_env \<Rightarrow> tick list \<Rightarrow> 'k cache_state \<Rightarrow> 'k cache_state" where
  "refresher x [] st = st"
| "refresher x ((now, reply) # ticks) st = refresher x ticks (snd (refresh x now reply st))"

text \<open>When the tick with this index is due: the first tick of the interval, at once, is skipped.\<close>

definition tick_due :: "instant \<Rightarrow> nat \<Rightarrow> instant" where
  "tick_due started n = started + (int n + 1) * REFRESH_INTERVAL"

subsection \<open>Lemmas\<close>

text \<open>A reply that the cache takes over.\<close>

definition usable :: "'k auth_env \<Rightarrow> string + raw_jwk list \<Rightarrow> bool" where
  "usable x reply \<longleftrightarrow> (\<exists>js. reply = Inr js \<and> (\<exists>j\<in>set js. result_ok (jwk_to_entry x j) \<noteq> None))"

lemma map_filter_Nil_iff: "List.map_filter f xs = [] \<longleftrightarrow> (\<forall>x\<in>set xs. f x = None)"
  by (induction xs) (auto simp: List.map_filter_def)

lemma refresh_usable:
  "usable x reply \<Longrightarrow> keys (snd (refresh x now reply st)) \<noteq> [] \<and> fetched_at (snd (refresh x now reply st)) = Some now"
  "\<not> usable x reply \<Longrightarrow> keys (snd (refresh x now reply st)) = keys st \<and> fetched_at (snd (refresh x now reply st)) = fetched_at st"
  by (auto simp: usable_def refresh_def Let_def map_filter_Nil_iff split: sum.splits)

text \<open>The last usable tick decides.\<close>

fun last_fetch :: "'k auth_env \<Rightarrow> tick list \<Rightarrow> instant option \<Rightarrow> instant option" where
  "last_fetch x [] t = t"
| "last_fetch x ((now, reply) # ticks) t = last_fetch x ticks (if usable x reply then Some now else t)"

lemma refresher_fetched:
  assumes "keys st \<noteq> [] \<longleftrightarrow> fetched_at st \<noteq> None"
  shows "fetched_at (refresher x ticks st) = last_fetch x ticks (fetched_at st) \<and>
     (keys (refresher x ticks st) \<noteq> [] \<longleftrightarrow> fetched_at (refresher x ticks st) \<noteq> None)"
  using assms
proof (induction ticks arbitrary: st)
  case (Cons a ticks)
  obtain now reply where a: "a = (now, reply)" by fastforce
  let ?st = "snd (refresh x now reply st)"
  have "keys ?st \<noteq> [] \<longleftrightarrow> fetched_at ?st \<noteq> None"
    "fetched_at ?st = (if usable x reply then Some now else fetched_at st)"
    using refresh_usable [where x = x and reply = reply and now = now and st = st] Cons.prems by (cases "usable x reply"; simp)+
  with Cons.IH [of ?st] show ?case by (simp add: a)
qed simp

lemma last_fetch_recent:
  assumes "sorted (map fst ticks)" "\<forall>s. t = Some s \<longrightarrow> (\<forall>(now, r)\<in>set ticks. s \<le> now)"
  shows "(\<exists>s. last_fetch x ticks t = Some s \<and> c \<le> s) \<longleftrightarrow>
     (\<exists>(s, r)\<in>set ticks. usable x r \<and> c \<le> s) \<or> (\<exists>s. t = Some s \<and> c \<le> s)"
  using assms
proof (induction ticks arbitrary: t)
  case (Cons a ticks)
  obtain now reply where a: "a = (now, reply)" by fastforce
  have "(\<exists>s. last_fetch x ticks (if usable x reply then Some now else t) = Some s \<and> c \<le> s) \<longleftrightarrow>
      (\<exists>(s, r)\<in>set ticks. usable x r \<and> c \<le> s) \<or> (\<exists>s. (if usable x reply then Some now else t) = Some s \<and> c \<le> s)"
    using Cons.prems by (intro Cons.IH) (auto simp: a)
  moreover have "c \<le> now" if "t = Some s" "c \<le> s" for s
    using Cons.prems(2) that by (force simp: a)
  ultimately show ?case by (auto simp: a)
qed simp

lemma refresher_ready:
  assumes "sorted (map fst ticks)" "\<forall>(t, r)\<in>set ticks. t \<le> now"
  shows "fst (ready now p (refresher x ticks empty_cache)) =
     (if p = Pong \<and> (\<exists>(t, r)\<in>set ticks. usable x r \<and> now - t \<le> STALE_AFTER) then 200 else 503)"
proof -
  let ?st = "refresher x ticks empty_cache"
  have f: "fetched_at ?st = last_fetch x ticks None" "keys ?st \<noteq> [] \<longleftrightarrow> fetched_at ?st \<noteq> None"
    using refresher_fetched [of empty_cache x ticks] by (simp_all add: empty_cache_def)
  have "0 < key_count (snapshot now ?st) \<and> \<not> stale (snapshot now ?st) \<longleftrightarrow>
      (\<exists>t. last_fetch x ticks None = Some t \<and> now - STALE_AFTER \<le> t)"
    using f by (auto simp: snapshot_def split: option.splits)
  also have "\<dots> \<longleftrightarrow> (\<exists>(t, r)\<in>set ticks. usable x r \<and> now - t \<le> STALE_AFTER)"
    using last_fetch_recent [OF assms(1), of None x "now - STALE_AFTER"] by (auto simp: algebra_simps)
  finally show ?thesis
    by (auto simp: ready_def Let_def db_status_def jwks_status_def split: ping.splits)
qed

lemma recent_tick:
  assumes "map fst ticks = map (tick_due started) [0..<length ticks]" "now < tick_due started (length ticks)"
    and "(t, r) \<in> set (drop (length ticks - 24) ticks)"
  shows "(t, r) \<in> set ticks" "now - t \<le> STALE_AFTER"
proof -
  show "(t, r) \<in> set ticks" using assms(3) by (rule in_set_dropD)
  from assms(3) obtain j where "j < length (drop (length ticks - 24) ticks)" "drop (length ticks - 24) ticks ! j = (t, r)"
    unfolding in_set_conv_nth by blast
  then obtain i where i: "i < length ticks" "length ticks \<le> i + 24" "ticks ! i = (t, r)"
    by (intro that [of "length ticks - 24 + j"]) auto
  then have "map fst ticks ! i = t" by simp
  then have "t = tick_due started i" using i(1) unfolding assms(1) by simp
  with assms(2) i(2) show "now - t \<le> STALE_AFTER"
    by (simp add: tick_due_def STALE_AFTER_def REFRESH_INTERVAL_def)
qed

subsection \<open>Property\<close>

text \<open>C13: readiness is exact.  While the refresher runs, the probe answers 200 if the database
  answers and the key endpoint gave a usable key set within the last 24 hours, and 503 otherwise.
  With the hourly schedule on time, one usable answer among the last 24 keeps the service
  ready.\<close>

theorem readiness_exact:
  assumes "sorted (map fst ticks)" "\<forall>(t, r)\<in>set ticks. t \<le> now"
  shows "fst (ready now p (refresher x ticks empty_cache)) =
       (if p = Pong \<and> (\<exists>(t, r)\<in>set ticks. usable x r \<and> now - t \<le> 24 * 60 * 60 * 1000000000) then 200 else 503) \<and>
     (\<forall>started. map fst ticks = map (tick_due started) [0..<length ticks] \<longrightarrow> now < tick_due started (length ticks) \<longrightarrow>
        (\<exists>(t, r)\<in>set (drop (length ticks - 24) ticks). usable x r) \<longrightarrow>
        fst (ready now Pong (refresher x ticks empty_cache)) = 200)"
  using refresher_ready [OF assms, of _ x] recent_tick [of ticks _ now]
  by (fastforce simp: STALE_AFTER_def)

definition sample_jwk :: raw_jwk where
  "sample_jwk = \<lparr>jwk_kty = ''RSA'', jwk_alg = None, jwk_kid = Some ''k1'', jwk_n = Some ''n'', jwk_e = Some ''e'',
     jwk_crv = None, jwk_x = None, jwk_y = None, jwk_k = None\<rparr>"

theorem readiness_exact_witness:
  "fst (ready 8000000000000 Pong (refresher sample_auth
     [(3600000000000, Inr [sample_jwk]), (7200000000000, Inl ''down'')] empty_cache)) = 200"
proof -
  let ?ticks = "[(3600000000000, Inr [sample_jwk]), (7200000000000, Inl ''down'')] :: tick list"
  have "sorted (map fst ?ticks)" "\<forall>(t, r)\<in>set ?ticks. t \<le> 8000000000000" by simp_all
  moreover have "usable sample_auth (Inr [sample_jwk])"
    by (simp add: usable_def sample_jwk_def jwk_to_entry_def jwk_key_def default_alg_for_kty_def parse_algorithm_def
        unwrap_or_def sample_auth_def result_simps str_simps)
  ultimately show ?thesis
    using readiness_exact [of ?ticks 8000000000000 Pong sample_auth] by simp
qed

end
