(* ===== verification/Report_Cycle.thy ===== *)
theory Report_Cycle
  imports Monthly_Reports
begin

text \<open>
  The monthly cycle of the scheduler (\<^verbatim>\<open>src/billing/reports_cron.rs\<close>, \<open>start\<close>): the job of the first of the
  month enqueues a report for every active subscriber, and the worker, once a minute, generates
  what is pending.  The theory follows a report from the enqueue job to the finished row.
\<close>

subsection \<open>The schedule\<close>

definition WORKER_TICK_SECS :: int where
  "WORKER_TICK_SECS = 60"

text \<open>\<open>ENQUEUE_CRON\<close>, \<open>0 0 3 1 * *\<close>: second, minute, hour and day of the month.\<close>

definition enqueue_due :: "calendar_date \<Rightarrow> nat \<Rightarrow> nat \<Rightarrow> nat \<Rightarrow> bool" where
  "enqueue_due day hour minute second \<longleftrightarrow> d_day day = 1 \<and> hour = 3 \<and> minute = 0 \<and> second = 0"

text \<open>One month: the enqueue job, then \<open>n\<close> ticks of the worker.\<close>

definition monthly_cycle ::
  "(uuid \<Rightarrow> uuid) \<Rightarrow> (uuid \<Rightarrow> string) \<Rightarrow> instant \<Rightarrow> calendar_date \<Rightarrow> nat \<Rightarrow> world \<Rightarrow> world" where
  "monthly_cycle row_ids show_uuid now today n w =
     worker_ticks n show_uuid (now + WORKER_TICK_SECS * 1000000000) (snd (run_enqueue row_ids now today w))"

subsection \<open>What the worker does to a row\<close>

definition row_progress :: "monthly_report \<Rightarrow> monthly_report \<Rightarrow> bool" where
  "row_progress r r' \<longleftrightarrow>
     r' = r \<or>
     r_id r' = r_id r \<and> r_user_id r' = r_user_id r \<and> r_period_start r' = r_period_start r \<and>
     r_status r' = Succeeded \<and> r_summary_md r' \<noteq> None"

definition rows_progress :: "database \<Rightarrow> database \<Rightarrow> bool" where
  "rows_progress d d' \<longleftrightarrow> list_all2 row_progress (monthly_reports d) (monthly_reports d')"

lemma row_progress_trans: "row_progress a b \<Longrightarrow> row_progress b c \<Longrightarrow> row_progress a c"
  by (auto simp: row_progress_def)

lemma rows_progress_refl: "rows_progress d d"
  by (auto simp: rows_progress_def row_progress_def intro: list_all2_refl)

lemma rows_progress_trans: "rows_progress a b \<Longrightarrow> rows_progress b c \<Longrightarrow> rows_progress a c"
  unfolding rows_progress_def by (rule list_all2_trans [OF row_progress_trans])

lemma update_report_progress: "rows_progress d (snd (update_report rid (succeeded_row now md model c) d))"
  by (auto simp: rows_progress_def update_report_def row_progress_def succeeded_row_def list_all2_conv_all_nth)

lemma fst_update_report [simp]: "fst (update_report rid upd d) = Inr ()"
  by (simp add: update_report_def)

lemma generate_one_progress:
  assumes "faults w = []"
  shows "faults (snd (generate_one show_uuid now r w)) = []"
    and "rows_progress (db w) (db (snd (generate_one show_uuid now r w)))"
  using assms by (simp_all add: generate_one_def matchM_def mark_succeeded_def pure_def update_report_progress)

lemma each_generate_progress:
  "faults w = [] \<Longrightarrow>
     rows_progress (db w) (db (snd (each (generate_one show_uuid now) rs w)))"
proof (induction rs arbitrary: w)
  case Nil
  then show ?case by (simp add: pure_def rows_progress_refl)
next
  case (Cons r rs)
  let ?w1 = "snd (generate_one show_uuid now r w)"
  have "each (generate_one show_uuid now) (r # rs) w = each (generate_one show_uuid now) rs ?w1"
    by (simp add: matchM_def case_prod_beta)
  with generate_one_progress [OF Cons.prems, of show_uuid now r] Cons.IH [of ?w1] show ?case
    by (auto intro: rows_progress_trans)
qed

lemma tick_progress:
  assumes "faults w = []"
  shows "rows_progress (db w) (db (snd (run_worker_tick show_uuid now w)))"
  using assms each_generate_progress [OF assms]
  by (simp add: run_worker_tick_def fetch_pending_def bindM_def pure_def rows_progress_refl split: prod.splits sum.splits)

lemma worker_ticks_progress:
  "faults w = [] \<Longrightarrow> reports_inv (db w) \<Longrightarrow> rows_progress (db w) (db (worker_ticks n show_uuid now w))"
proof (induction n arbitrary: now w)
  case 0
  show ?case by (simp add: rows_progress_refl)
next
  case (Suc n)
  let ?w1 = "snd (run_worker_tick show_uuid now w)"
  have "faults ?w1 = []" "reports_inv (db ?w1)"
    using tick_drains [OF Suc.prems] keeps_run [OF keeps_run_worker_tick Suc.prems(2)] by auto
  with Suc.IH have "rows_progress (db ?w1) (db (worker_ticks n show_uuid (now + 60000000000) ?w1))"
    by blast
  with tick_progress [OF Suc.prems(1)] show ?case by (auto intro: rows_progress_trans)
qed

lemma rows_progress_row:
  assumes "rows_progress d d'" "r \<in> set (monthly_reports d)"
  shows "\<exists>r'\<in>set (monthly_reports d'). row_progress r r'"
  using assms unfolding rows_progress_def list_all2_conv_all_nth in_set_conv_nth by (metis nth_mem)

subsection \<open>What the enqueue job adds\<close>

text \<open>The generated ids are new, or belong to the very row they are for.\<close>

definition ids_fresh :: "(uuid \<Rightarrow> uuid) \<Rightarrow> calendar_date \<Rightarrow> uuid list \<Rightarrow> database \<Rightarrow> bool" where
  "ids_fresh row_ids start uids d \<longleftrightarrow>
     inj_on row_ids (set uids) \<and>
     (\<forall>uid\<in>set uids. \<forall>r\<in>set (monthly_reports d). r_id r = row_ids uid \<longrightarrow>
        r_user_id r = uid \<and> r_period_start r = start)"

text \<open>The effect of the job on the rows: pending rows for the period are appended, none is missing.\<close>

definition enqueued :: "calendar_date \<Rightarrow> uuid list \<Rightarrow> database \<Rightarrow> database \<Rightarrow> bool" where
  "enqueued start uids d d' \<longleftrightarrow>
     (\<exists>rs. monthly_reports d' = monthly_reports d @ rs \<and> length rs \<le> length uids \<and>
        (\<forall>r\<in>set rs. is_pending r \<and> r_period_start r = start)) \<and>
     (\<forall>uid\<in>set uids. report_at d' uid start \<noteq> None)"

lemma enqueue_one:
  assumes "faults w = []" "user_exists (db w) uid" "ids_fresh row_ids start [uid] (db w)"
  obtains d where "snd (enqueue_pending (row_ids uid) now uid start end_day w) = w\<lparr>db := d\<rparr>"
    "users d = users (db w)" "enqueued start [uid] (db w) d"
    "\<And>r. r \<in> set (monthly_reports d) \<Longrightarrow>
       r \<in> set (monthly_reports (db w)) \<or> r_id r = row_ids uid \<and> r_user_id r = uid \<and> r_period_start r = start"
proof (cases "report_at (db w) uid start")
  case None
  let ?d = "(db w)\<lparr>monthly_reports := monthly_reports (db w) @ [pending_row (row_ids uid) now uid start end_day]\<rparr>"
  from None assms(3) have "\<not> (\<exists>r\<in>set (monthly_reports (db w)). r_id r = row_ids uid)"
    by (fastforce simp: ids_fresh_def report_at_None)
  then have "snd (enqueue_pending (row_ids uid) now uid start end_day w) = w\<lparr>db := ?d\<rparr>"
    using assms(1,2) None by (simp add: enqueue_pending_def enqueue_sql_def)
  moreover have "enqueued start [uid] (db w) ?d"
    using None by (simp add: enqueued_def report_at_None pending_row_def is_pending_def)
  ultimately show thesis by (intro that [of ?d]) (auto simp: pending_row_def)
next
  case (Some r)
  then have "snd (enqueue_pending (row_ids uid) now uid start end_day w) = w\<lparr>db := db w\<rparr>"
    using assms(1) by (simp add: enqueue_pending_def enqueue_sql_def)
  moreover have "enqueued start [uid] (db w) (db w)" using Some by (simp add: enqueued_def)
  ultimately show thesis by (intro that [of "db w"]) auto
qed

lemma enqueued_Cons:
  assumes "enqueued start [uid] d d1" "enqueued start uids d1 d2"
  shows "enqueued start (uid # uids) d d2"
proof -
  from assms obtain rs1 rs2 where rs: "monthly_reports d1 = monthly_reports d @ rs1" "length rs1 \<le> 1"
    "\<forall>r\<in>set rs1. is_pending r \<and> r_period_start r = start"
    "monthly_reports d2 = monthly_reports d1 @ rs2" "length rs2 \<le> length uids"
    "\<forall>r\<in>set rs2. is_pending r \<and> r_period_start r = start"
    by (auto simp: enqueued_def)
  have "report_at d2 uid start \<noteq> None"
    using assms(1) rs(4) by (auto simp: enqueued_def report_at_None)
  with assms(2) rs show ?thesis
    by (auto simp: enqueued_def intro!: exI [of _ "rs1 @ rs2"])
qed

lemma each_enqueue:
  assumes "faults w = []" "\<forall>uid\<in>set uids. user_exists (db w) uid" "ids_fresh row_ids start uids (db w)"
  shows "faults (snd (each (\<lambda>uid. enqueue_pending (row_ids uid) now uid start end_day) uids w)) = [] \<and>
     enqueued start uids (db w) (db (snd (each (\<lambda>uid. enqueue_pending (row_ids uid) now uid start end_day) uids w)))"
  using assms
proof (induction uids arbitrary: w)
  case Nil
  then show ?case by (simp add: pure_def enqueued_def)
next
  case (Cons uid uids)
  have one: "user_exists (db w) uid" "ids_fresh row_ids start [uid] (db w)"
    using Cons.prems(2,3) by (auto simp: ids_fresh_def)
  obtain d where d: "snd (enqueue_pending (row_ids uid) now uid start end_day w) = w\<lparr>db := d\<rparr>"
    "users d = users (db w)" "enqueued start [uid] (db w) d"
    "\<And>r. r \<in> set (monthly_reports d) \<Longrightarrow>
       r \<in> set (monthly_reports (db w)) \<or> r_id r = row_ids uid \<and> r_user_id r = uid \<and> r_period_start r = start"
    using enqueue_one [OF Cons.prems(1) one, of now end_day] by blast
  have "ids_fresh row_ids start uids d"
    unfolding ids_fresh_def
  proof (intro conjI ballI impI)
    show "inj_on row_ids (set uids)" using Cons.prems(3) by (auto simp: ids_fresh_def)
    fix v r assume "v \<in> set uids" "r \<in> set (monthly_reports d)" "r_id r = row_ids v"
    then show "r_user_id r = v" "r_period_start r = start"
      using d(4) Cons.prems(3) unfolding ids_fresh_def inj_on_def
      by (metis list.set_intros)+
  qed
  moreover have "\<forall>v\<in>set uids. user_exists d v" using Cons.prems(2) d(2) by (simp add: user_exists_def)
  ultimately have "faults (snd (each (\<lambda>uid. enqueue_pending (row_ids uid) now uid start end_day) uids (w\<lparr>db := d\<rparr>))) = [] \<and>
      enqueued start uids d (db (snd (each (\<lambda>uid. enqueue_pending (row_ids uid) now uid start end_day) uids (w\<lparr>db := d\<rparr>))))"
    using Cons.IH [of "w\<lparr>db := d\<rparr>"] Cons.prems(1) by simp
  with d(1,3) show ?case by (auto simp: matchM_def case_prod_beta intro: enqueued_Cons)
qed

subsection \<open>The cycle\<close>

lemma run_enqueue_effect:
  assumes "faults w = []" "previous_month_window today = Some (start, end_day)"
    and "\<forall>uid\<in>set (enqueue_candidates (db w)). user_exists (db w) uid"
    and "ids_fresh row_ids start (enqueue_candidates (db w)) (db w)"
  shows "faults (snd (run_enqueue row_ids now today w)) = []"
    and "enqueued start (enqueue_candidates (db w)) (db w) (db (snd (run_enqueue row_ids now today w)))"
  using each_enqueue [OF assms(1,3,4), of now end_day] assms(1,2)
  by (simp_all add: run_enqueue_def bindM_def)

lemma enqueued_pending_count:
  "enqueued start uids d d' \<Longrightarrow> pending_count d' \<le> pending_count d + length uids"
  by (auto simp: enqueued_def pending_count_def intro: le_trans [OF length_filter_le])

text \<open>C11: every subscriber gets the report.  Without database faults, after the job of the first of
  the month and as many ticks of the worker as five reports each need for the backlog, every
  active or trialing subscriber has a finished report for the month that is over.  It has
  succeeded, with a summary, unless one for that month had been finished before.\<close>

theorem monthly_cycle_delivers:
  assumes "faults w = []" "reports_inv (db w)" "previous_month_window today = Some (start, end_day)"
    and "\<forall>uid\<in>set (enqueue_candidates (db w)). user_exists (db w) uid"
    and "ids_fresh row_ids start (enqueue_candidates (db w)) (db w)"
    and "pending_count (db w) + length (enqueue_candidates (db w)) \<le> 5 * n"
    and "uid \<in> set (enqueue_candidates (db w))"
  shows "\<exists>r\<in>set (monthly_reports (db (monthly_cycle row_ids show_uuid now today n w))).
     r_user_id r = uid \<and> r_period_start r = start \<and>
     (r_status r = Succeeded \<and> r_summary_md r \<noteq> None \<or>
      r_status r \<noteq> Pending \<and> r \<in> set (monthly_reports (db w)))"
proof -
  let ?w1 = "snd (run_enqueue row_ids now today w)"
  let ?w2 = "monthly_cycle row_ids show_uuid now today n w"
  note enq = run_enqueue_effect [OF assms(1,3,4,5), of now]
  have inv: "reports_inv (db ?w1)" by (rule keeps_run [OF keeps_run_enqueue assms(2)])
  have idle: "pending_count (db ?w2) = 0"
    using worker_ticks_drain [OF enq(1) inv, of n show_uuid "now + WORKER_TICK_SECS * 1000000000"]
      enqueued_pending_count [OF enq(2)] assms(6)
    by (simp add: monthly_cycle_def WORKER_PARALLELISM_def)
  from enq(2) assms(7) obtain r where "report_at (db ?w1) uid start = Some r"
    by (auto simp: enqueued_def)
  then have r: "r \<in> set (monthly_reports (db ?w1))" "r_user_id r = uid" "r_period_start r = start"
    by (auto dest: report_at_Some)
  have "rows_progress (db ?w1) (db ?w2)"
    unfolding monthly_cycle_def by (rule worker_ticks_progress [OF enq(1) inv])
  from rows_progress_row [OF this r(1)] obtain r' where
    r': "r' \<in> set (monthly_reports (db ?w2))" "row_progress r r'" by blast
  from idle r'(1) have fin: "\<not> is_pending r'" by (auto simp: pending_count_def filter_empty_conv)
  from enq(2) r(1) have old: "is_pending r \<or> r \<in> set (monthly_reports (db w))" by (auto simp: enqueued_def)
  show ?thesis
    using r r' fin old by (intro bexI [of _ r']) (auto simp: row_progress_def is_pending_def)
qed

text \<open>One subscriber in trial, on the first of June.\<close>

definition cycle_world :: world where
  "cycle_world = \<lparr>db = (empty_database 6)\<lparr>
     users := [\<lparr>u_id = 1, u_supabase_user_id = 101, u_email = ''a@b.c'', u_display_name = None,
       u_avatar_url = None, u_created_at = 0, u_updated_at = 0, u_deleted_at = None\<rparr>],
     subscriptions := [\<lparr>s_id = 10, s_user_id = 1, s_customer_id = None, s_subscription_id = None,
       s_tier = ''basic'', s_status = Trialing, s_period_start = None, s_period_end = None,
       s_cancel_at_period_end = False, s_credits_used = 0, s_credits_period_start = None,
       s_updated_at = 0, s_team_id = Some 1\<rparr>]\<rparr>, faults = []\<rparr>"

theorem monthly_cycle_delivers_witness:
  "\<exists>r\<in>set (monthly_reports (db (monthly_cycle (\<lambda>u. u + 50) (\<lambda>_. ''u'') 0 (Date 2026 6 1) 1 cycle_world))).
     r_user_id r = 1 \<and> r_period_start r = Date 2026 5 1 \<and> r_status r = Succeeded"
proof -
  have c: "enqueue_candidates (db cycle_world) = [1]"
    by (simp add: cycle_world_def enqueue_candidates_def)
  have u: "user_exists (db cycle_world) 1"
    by (simp add: cycle_world_def user_exists_def)
  have m: "monthly_reports (db cycle_world) = []"
    by (simp add: cycle_world_def empty_database_def)
  have "\<exists>r\<in>set (monthly_reports (db (monthly_cycle (\<lambda>u. u + 50) (\<lambda>_. ''u'') 0 (Date 2026 6 1) 1 cycle_world))).
     r_user_id r = 1 \<and> r_period_start r = Date 2026 5 1 \<and>
     (r_status r = Succeeded \<and> r_summary_md r \<noteq> None \<or>
      r_status r \<noteq> Pending \<and> r \<in> set (monthly_reports (db cycle_world)))"
  proof (rule monthly_cycle_delivers)
    show "faults cycle_world = []" by (simp add: cycle_world_def)
    show "reports_inv (db cycle_world)" by (simp add: reports_inv_def m)
    show "previous_month_window (Date 2026 6 1) = Some (Date 2026 5 1, Date 2026 5 31)"
      by (simp add: previous_month_window_def from_calendar_date_def valid_date_def previous_day_def
          month_previous_def days_in_month_def is_leap_year_def)
    show "ids_fresh (\<lambda>u. u + 50) (Date 2026 5 1) (enqueue_candidates (db cycle_world)) (db cycle_world)"
      by (simp add: ids_fresh_def m)
  qed (simp_all add: c m u pending_count_def)
  then show ?thesis by (auto simp: m)
qed

end
