(* ===== verification/Chat_Load.thy ===== *)
theory Chat_Load
  imports Ai_Proxy Machines
begin

text \<open>
  Several AI replies at the same time (\<^verbatim>\<open>src/billing/ai_proxy.rs\<close>): the credit gate reads the counter when
  a request is admitted, and the spawned task charges it when the reply is complete.  Between
  the two other requests are admitted and other replies finish.  The theory interleaves the two
  operations of the proxy over a list of running tasks, beside steps of the rest of the service.
\<close>

subsection \<open>Interleaving\<close>

text \<open>The largest charge of one reply, two times \<open>u32::MAX\<close> tokens.\<close>

definition max_charge :: int where
  "max_charge = 17179870"

type_synonym load = "world \<times> stream_task list"

definition running :: "uuid \<Rightarrow> stream_task list \<Rightarrow> nat" where
  "running uid jobs = length (filter (\<lambda>t. st_user t = uid) jobs)"

text \<open>
  At most \<open>n\<close> replies of one user are in flight.  A task may finish at any position of the list, at
  any time and with any client; the rest of the service may do anything that leaves the
  subscriptions alone.
\<close>

inductive chat_step :: "nat \<Rightarrow> load \<Rightarrow> load \<Rightarrow> bool" for n where
  chat_admit:
    "chat upstream (Some b) u req w = (Inr task, w') \<Longrightarrow> running (st_user task) (task # jobs) \<le> n \<Longrightarrow>
     chat_step n (w, jobs) (w', task # jobs)"
| chat_refuse:
    "chat upstream billing u req w = (Inl e, w') \<Longrightarrow> chat_step n (w, jobs) (w', jobs)"
| chat_finish:
    "run_stream x now (st_chunks task) client (st_user task) (st_model task) (st_kind task) w = (r, w') \<Longrightarrow>
     chat_step n (w, jobs @ task # rest) (w', jobs @ rest)"
| chat_other:
    "subscriptions (db w') = subscriptions (db w) \<Longrightarrow> billing_inv (db w') \<Longrightarrow> chat_step n (w, jobs) (w', jobs)"

text \<open>
  The invariant for one user: the subscription grants a fixed allowance, and the counter plus
  what the running replies may still charge stays within the allowance and \<open>n\<close> charges, far
  from where the 32-bit sum of the gate would wrap around.
\<close>

definition load_inv :: "nat \<Rightarrow> uuid \<Rightarrow> int \<Rightarrow> load \<Rightarrow> bool" where
  "load_inv n uid cap l \<longleftrightarrow>
     cap \<noteq> UNLIMITED \<and> cap + max_charge * int n \<le> 2147483597 \<and>
     billing_inv (db (fst l)) \<and> running uid (snd l) \<le> n \<and>
     (\<forall>t\<in>set (subscriptions (db (fst l))). billable_for uid t \<longrightarrow>
        ai_credits_monthly (subscription_entitlements (Some t)) = cap \<and>
        s_credits_used t + max_charge * int (running uid (snd l)) \<le> cap + max_charge * int n)"

subsection \<open>Lemmas\<close>

lemma running_simps [simp]:
  "running uid [] = 0"
  "running uid (t # jobs) = (if st_user t = uid then Suc (running uid jobs) else running uid jobs)"
  "running uid (jobs @ rest) = running uid jobs + running uid rest"
  by (simp_all add: running_def)

lemma chat_keeps_db: "chat upstream billing u req w = (r, w') \<Longrightarrow> db w' = db w"
  using keeps_run [OF keeps_chat [of "\<lambda>d. d = db w" upstream billing u req], of w] by simp

lemma bump_fields [simp]:
  "billable_for v (bump now uid c s) = billable_for v s"
  "subscription_entitlements (Some (bump now uid c s)) = subscription_entitlements (Some s)"
  by (simp_all add: bump_def billable_for_def subscription_entitlements_def tier_status_def)

lemma bump_other: "billable_for uid s \<Longrightarrow> uid \<noteq> v \<Longrightarrow> bump now v c s = s"
  by (simp add: bump_def billable_for_def)

lemma bump_used: "billable_for uid s \<Longrightarrow> s_credits_used (bump now uid c s) = s_credits_used s + c"
  by (simp add: bump_def)

lemma admit_keeps:
  assumes "load_inv n uid cap (w, jobs)"
    and "chat upstream (Some b) u req w = (Inr task, w')" "running (st_user task) (task # jobs) \<le> n"
  shows "load_inv n uid cap (w', task # jobs)"
proof (cases "st_user task = uid")
  case False
  with assms chat_keeps_db [OF assms(2)] show ?thesis by (simp add: load_inv_def)
next
  case True
  let ?kind = "case rq_kind req of None \<Rightarrow> Simple | Some k \<Rightarrow> k"
  from chat_Inr [OF assms(2)] True have d: "db w' = db w" "u_id u = uid"
    "credit_gate (active_subscription (db w) uid) ?kind = Inr ()"
    by auto
  have inv: "billing_inv (db w)" and cap: "cap \<noteq> UNLIMITED" "cap + max_charge * int n \<le> 2147483597"
    using assms(1) by (simp_all add: load_inv_def)
  have room: "max_charge * int (Suc (running uid jobs)) \<le> max_charge * int n"
    using assms(3) True by (simp add: max_charge_def)
  have est: "0 \<le> estimated_cost ?kind" by (cases ?kind) simp_all
  have "s_credits_used t + max_charge * int (Suc (running uid jobs)) \<le> cap + max_charge * int n"
    if t: "t \<in> set (subscriptions (db w))" "billable_for uid t" for t
  proof -
    from assms(1) t have u: "ai_credits_monthly (subscription_entitlements (Some t)) = cap"
      "s_credits_used t \<le> cap + max_charge * int n"
      by (auto simp: load_inv_def max_charge_def)
    have "active_subscription (db w) uid = Some t" using active_subscription_iff [OF inv] t by simp
    moreover have "i32_range (s_credits_used t)" using inv t(1) by (simp add: billing_inv_def)
    ultimately have "s_credits_used t + estimated_cost ?kind \<le> cap"
      using credit_gate_Inr [OF d(3)] u cap by auto
    with est room show ?thesis by linarith
  qed
  with assms(1,3) d(1) True show ?thesis by (simp add: load_inv_def)
qed

lemma finish_keeps:
  assumes "load_inv n uid cap (w, jobs @ task # rest)"
    and "run_stream x now (st_chunks task) client (st_user task) (st_model task) (st_kind task) w = (r, w')"
  shows "load_inv n uid cap (w', jobs @ rest)"
proof -
  from charge_only_completed_aux [OF assms(2)] obtain c where c: "0 \<le> c" "c \<le> max_charge"
    "subscriptions (db w') = map (bump now (st_user task) c) (subscriptions (db w)) \<or>
     subscriptions (db w') = subscriptions (db w)"
    by (auto simp: max_charge_def)
  have "billing_inv (db w')"
    using keeps_run [OF keeps_run_stream, of w x now "st_chunks task" client "st_user task" "st_model task"
        "st_kind task"] assms
    by (simp add: load_inv_def)
  moreover have "ai_credits_monthly (subscription_entitlements (Some t)) = cap \<and>
      s_credits_used t + max_charge * int (running uid (jobs @ rest)) \<le> cap + max_charge * int n"
    if t: "t \<in> set (subscriptions (db w'))" "billable_for uid t" for t
  proof -
    from c(3) t obtain s where s: "s \<in> set (subscriptions (db w))" "billable_for uid s"
      "t = bump now (st_user task) c s \<or> t = s" by auto
    have sub: "ai_credits_monthly (subscription_entitlements (Some s)) = cap"
      "s_credits_used s + max_charge * int (running uid (jobs @ task # rest)) \<le> cap + max_charge * int n"
      using assms(1) s(1,2) by (simp_all add: load_inv_def)
    have "s_credits_used t + max_charge * int (running uid (jobs @ rest)) \<le>
        s_credits_used s + max_charge * int (running uid (jobs @ task # rest))"
    proof (cases "st_user task = uid")
      case True
      with c(1,2) s(2,3) show ?thesis by (auto simp: bump_used max_charge_def)
    next
      case False
      with s(2,3) have "t = s" by (auto simp: bump_other)
      with False show ?thesis by simp
    qed
    with sub s(3) show ?thesis by auto
  qed
  ultimately show ?thesis using assms(1) by (auto simp: load_inv_def split: if_splits)
qed

interpretation chat_load: invariant_system "load_inv n uid cap" "chat_step n" "load_inv n uid cap" for n uid cap
proof
  show "load_inv n uid cap l'" if "load_inv n uid cap l" "chat_step n l l'" for l l'
    using that(2,1)
  proof (induction rule: chat_step.induct)
    case (chat_refuse upstream billing u req w e w' jobs)
    with chat_keeps_db [OF chat_refuse.hyps] show ?case by (simp add: load_inv_def)
  next
    case (chat_other w' w jobs)
    then show ?case by (simp add: load_inv_def)
  qed (auto intro: admit_keeps finish_keeps)
qed

subsection \<open>Properties\<close>

text \<open>C9: the credit cap under load.  However requests and finished replies interleave, if a user
  never has more than \<open>n\<close> replies in flight, the counter exceeds the monthly allowance by at most
  the charges of \<open>n\<close> replies; with no reply in flight at a time but one, by one charge.  The
  hypothesis on \<open>n\<close> keeps the 32-bit sum of the gate from wrapping around.\<close>

theorem credit_cap_under_load:
  assumes "billing_inv (db w)" "s \<in> set (subscriptions (db w))" "billable_for uid s"
    and "ai_credits_monthly (subscription_entitlements (Some s)) = cap" "cap \<noteq> UNLIMITED"
    and "s_credits_used s \<le> cap" "cap + 17179870 * int n \<le> 2147483597"
    and "steps (chat_step n) (w, []) (w', jobs)"
  shows "\<forall>t\<in>set (subscriptions (db w')). billable_for uid t \<longrightarrow>
     s_credits_used t + 17179870 * int (running uid jobs) \<le> cap + 17179870 * int n"
proof -
  have "load_inv n uid cap (w, [])"
    unfolding load_inv_def
  proof (intro conjI ballI impI)
    fix t assume "t \<in> set (subscriptions (db (fst (w, []))))" "billable_for uid t"
    then have "t = s" using billable_unique [OF assms(1) _ assms(2) _ assms(3), of t] by simp
    with assms show "ai_credits_monthly (subscription_entitlements (Some t)) = cap"
      "s_credits_used t + max_charge * int (running uid (snd (w, []))) \<le> cap + max_charge * int n"
      by (simp_all add: max_charge_def)
  qed (use assms in \<open>simp_all add: max_charge_def\<close>)
  from chat_load.steps_inv [OF assms(8) this] show ?thesis by (simp add: load_inv_def max_charge_def)
qed

text \<open>Two requests of the sample subscriber are admitted before the first reply is charged.\<close>

theorem credit_cap_under_load_witness:
  "\<exists>task. steps (chat_step 2) (\<lparr>db = sample_database, faults = []\<rparr>, []) (\<lparr>db = sample_database, faults = []\<rparr>, [task, task]) \<and>
     (\<forall>t\<in>set (subscriptions sample_database). s_credits_used t + 17179870 * int (running 1 [task, task]) \<le> 300 + 34359740)"
proof -
  let ?w = "\<lparr>db = sample_database, faults = []\<rparr> :: world"
  let ?task = "\<lparr>st_user = 1, st_model = DEFAULT_MODEL, st_kind = ''analysis'', st_chunks = [Some done_chunk]\<rparr>"
  have c: "chat (\<lambda>_ _. Inr (200, [Some done_chunk])) (Some ai_context) sample_user
      \<lparr>rq_model = None, rq_kind = Some Analysis, rq_passthrough = JObj []\<rparr> ?w = (Inr ?task, ?w)"
    by (simp add: chat_def ai_context_def act_simps fetch_active_def active_subscription_def billable_def
        credit_gate_def subscription_entitlements_def tier_status_def entitlements_for_def ent_defs
        i32_add_def wrap_signed_def open_upstream_def is_success_def result_simps str_simps sample_defs)
  have "chat_step 2 (?w, []) (?w, [?task])" "chat_step 2 (?w, [?task]) (?w, [?task, ?task])"
    by (rule chat_admit [OF c], simp)+
  then have run: "steps (chat_step 2) (?w, []) (?w, [?task, ?task])"
    by (blast intro: steps.intros)
  have s: "billable_for 1 sample_subscription" "subscriptions sample_database = [sample_subscription]"
    "s_credits_used sample_subscription = 42"
    "ai_credits_monthly (subscription_entitlements (Some sample_subscription)) = 300"
    by (simp_all add: billable_for_def billable_def subscription_entitlements_def tier_status_def
        entitlements_for_def ent_defs str_simps sample_defs)
  have "\<forall>t\<in>set (subscriptions (db ?w)). billable_for 1 t \<longrightarrow>
      s_credits_used t + 17179870 * int (running 1 [?task, ?task]) \<le> 300 + 17179870 * int 2"
    using credit_cap_under_load [OF _ _ _ s(4) _ _ _ run] s sample_inv by (simp add: UNLIMITED_def)
  with run s show ?thesis by (intro exI [of _ ?task]) simp
qed

end
