(* ===== verification/Team_Races.thy ===== *)
theory Team_Races
  imports Teams
begin

text \<open>
  Team requests that overlap (\<^verbatim>\<open>src/teams/invites.rs\<close>).  Both handlers first read and check and then
  write: \<open>accept_invite\<close> looks the invitation up on the pool and redeems it in a transaction of its
  own, by an update that does not test \<open>redeemed_at\<close>; \<open>create_invite\<close> checks the role of its caller
  and inserts later.  The theory interleaves the phases of any number of requests.
\<close>

subsection \<open>Phases\<close>

text \<open>A request between its two phases: what it has read.\<close>

datatype team_job =
    Redeeming user string uuid string
  | Issuing user uuid create_invite_request

type_synonym team_race = "world \<times> team_job list"

text \<open>
  A request begins and is refused or goes on, a request that has begun writes or is dropped, and
  everything else the service does leaves teams, members and invitations as they are.
\<close>

inductive race_step :: "team_race \<Rightarrow> team_race \<Rightarrow> bool" where
  race_read:
    "read_invite now u token w = (Inr (tid, name, role), w') \<Longrightarrow>
     race_step (w, jobs) (w', Redeeming u token tid role # jobs)"
| race_unread: "read_invite now u token w = (Inl e, w') \<Longrightarrow> race_step (w, jobs) (w', jobs)"
| race_redeem:
    "race_step (w, jobs @ Redeeming u token tid role # rest) (snd (join_and_redeem now u token tid role w), jobs @ rest)"
| race_check:
    "check_inviter x u tid req w = (Inr (), w') \<Longrightarrow> race_step (w, jobs) (w', Issuing u tid req # jobs)"
| race_uncheck: "check_inviter x u tid req w = (Inl e, w') \<Longrightarrow> race_step (w, jobs) (w', jobs)"
| race_issue:
    "race_step (w, jobs @ Issuing u tid req # rest) (snd (store_invite x token now u tid req w), jobs @ rest)"
| race_drop: "race_step (w, jobs @ job # rest) (w, jobs @ rest)"
| race_other:
    "teams (db w') = teams (db w) \<Longrightarrow> team_members (db w') = team_members (db w) \<Longrightarrow>
     team_invites (db w') = team_invites (db w) \<Longrightarrow> race_step (w, jobs) (w', jobs)"

text \<open>The columns of an invitation that no statement writes.\<close>

definition same_invite :: "team_invite \<Rightarrow> team_invite \<Rightarrow> bool" where
  "same_invite i j \<longleftrightarrow>
     j = i\<lparr>i_redeemed_at := i_redeemed_at j, i_redeemed_by := i_redeemed_by j\<rparr>"

definition redeemed :: "team_invite \<Rightarrow> bool" where
  "redeemed i \<longleftrightarrow> i_redeemed_at i \<noteq> None"

text \<open>What a request has read of an invitation stays true of it, whoever redeems it meanwhile.\<close>

fun job_ok :: "database \<Rightarrow> team_job \<Rightarrow> bool" where
  "job_ok d (Redeeming u token tid role) \<longleftrightarrow>
     (\<exists>i\<in>set (team_invites d). i_token i = token \<and> i_team_id i = tid \<and> i_role i = role \<and>
        i_email i = to_lowercase (u_email u))"
| "job_ok d (Issuing u tid req) \<longleftrightarrow> True"

definition race_inv :: "team_race \<Rightarrow> bool" where
  "race_inv s \<longleftrightarrow> teams_inv (db (fst s)) \<and> (\<forall>job\<in>set (snd s). job_ok (db (fst s)) job)"

definition redeemers :: "string \<Rightarrow> team_job list \<Rightarrow> user set" where
  "redeemers token jobs = {u. \<exists>tid role. Redeeming u token tid role \<in> set jobs}"

text \<open>A redeemed invitation keeps its row and stays redeemed; only a request that had read it before
  can still write the redeemer, and no further request joins those.\<close>

definition late_only :: "team_race \<Rightarrow> team_race \<Rightarrow> bool" where
  "late_only s t \<longleftrightarrow>
     (\<forall>i\<in>set (team_invites (db (fst s))). redeemed i \<longrightarrow>
        redeemers (i_token i) (snd t) \<subseteq> redeemers (i_token i) (snd s) \<and>
        (\<exists>j\<in>set (team_invites (db (fst t))). same_invite i j \<and> redeemed j \<and>
           (j = i \<or> i_redeemed_by j \<in> Some ` u_id ` redeemers (i_token i) (snd s))))"

text \<open>Nobody holds the owner role in the team.\<close>

definition ownerless :: "uuid \<Rightarrow> database \<Rightarrow> bool" where
  "ownerless tid d \<longleftrightarrow> (\<forall>uid. role_of d tid uid \<noteq> Some Owner)"

subsection \<open>Lemmas\<close>

lemma same_invite_iff:
  "same_invite i j \<longleftrightarrow>
     i_token j = i_token i \<and> i_team_id j = i_team_id i \<and> i_invited_by j = i_invited_by i \<and>
     i_email j = i_email i \<and> i_role j = i_role i \<and> i_created_at j = i_created_at i \<and>
     i_expires_at j = i_expires_at i"
  by (cases i; cases j) (auto simp: same_invite_def)

lemma same_invite_refl [simp]: "same_invite i i"
  by (simp add: same_invite_iff)

lemma same_invite_trans: "same_invite i j \<Longrightarrow> same_invite j k \<Longrightarrow> same_invite i k"
  by (simp add: same_invite_iff)

text \<open>The effect of the writing phases.\<close>

lemma redeem_effect:
  obtains (failed) "db (snd (join_and_redeem now u token tid role w)) = db w"
  | (joined) d1 where
      "upsert_member_sql (tid, u_id u) \<lparr>mw_role = role, mw_now = now\<rparr> (db w) = (Inr (), d1)"
      "db (snd (join_and_redeem now u token tid role w)) =
         d1\<lparr>team_invites := map (\<lambda>i. if i_token i = token
            then i\<lparr>i_redeemed_at := Some now, i_redeemed_by := Some (u_id u)\<rparr> else i) (team_invites (db w))\<rparr>"
proof (cases "join_and_redeem now u token tid role w")
  case (Pair r w')
  show thesis
  proof (cases r)
    case (Inl e)
    with Pair failed join_and_redeem_Inl show thesis by simp
  next
    case (Inr v)
    with Pair have "join_and_redeem now u token tid role w = (Inr (), w')" by simp
    from join_and_redeem_Inr [OF this] obtain d1 where d1:
      "upsert_member_sql (tid, u_id u) \<lparr>mw_role = role, mw_now = now\<rparr> (db w) = (Inr (), d1)"
      "redeem_sql now (u_id u) token d1 = (Inr (), db w')" by blast
    have "team_invites d1 = team_invites (db w)"
      using d1(1) upsert_member_invites(1) [of "(tid, u_id u)" "\<lparr>mw_role = role, mw_now = now\<rparr>" "db w"] by simp
    with Pair d1 joined [OF d1(1)] redeem_sql_Inr [OF d1(2)] show thesis by simp
  qed
qed

lemma issue_effect:
  obtains (failed) "db (snd (store_invite x token now u tid req w)) = db w"
  | (stored) i where "i_redeemed_at i = None"
      "db (snd (store_invite x token now u tid req w)) = (db w)\<lparr>team_invites := team_invites (db w) @ [i]\<rparr>"
proof (cases "store_invite x token now u tid req w")
  case (Pair r w')
  show thesis
  proof (cases r)
    case (Inl e)
    with Pair failed store_invite_Inl show thesis by simp
  next
    case (Inr v)
    with Pair have "store_invite x token now u tid req w = (Inr v, w')" by simp
    from insert_invite_Inr [OF store_invite_Inr [OF this]] Pair show thesis
      by (intro stored) (simp_all add: invite_row_def)
  qed
qed

lemma keeps_writing_phases:
  "keeps teams_inv (join_and_redeem now u token tid role)" "keeps teams_inv (store_invite x token now u tid req)"
proof -
  show "keeps teams_inv (join_and_redeem now u token tid role)"
    unfolding join_and_redeem_def by (intro keeps_intros upsert_member_keeps redeem_keeps)
  show "keeps teams_inv (store_invite x token now u tid req)"
    unfolding store_invite_def Let_def by (intro keeps_intros insert_invite_keeps)
qed

text \<open>No write removes an invitation or changes more of it than its redemption.\<close>

definition invites_kept :: "database \<Rightarrow> database \<Rightarrow> bool" where
  "invites_kept d d' \<longleftrightarrow> (\<forall>i\<in>set (team_invites d). \<exists>j\<in>set (team_invites d'). same_invite i j)"

lemma invites_kept_refl: "team_invites d' = team_invites d \<Longrightarrow> invites_kept d d'"
  by (auto simp: invites_kept_def intro: same_invite_refl)

lemma invites_kept_map:
  "team_invites d' = map f (team_invites d) \<Longrightarrow> (\<And>i. same_invite i (f i)) \<Longrightarrow> invites_kept d d'"
  by (auto simp: invites_kept_def)

lemma job_ok_kept: "invites_kept d d' \<Longrightarrow> job_ok d job \<Longrightarrow> job_ok d' job"
  by (cases job) (fastforce simp: invites_kept_def same_invite_iff)+

lemma writing_phases_keep:
  "invites_kept (db w) (db (snd (join_and_redeem now u token tid role w)))"
  "invites_kept (db w) (db (snd (store_invite x tok later v t req w)))"
proof -
  show "invites_kept (db w) (db (snd (join_and_redeem now u token tid role w)))"
  proof (cases rule: redeem_effect [of now u token tid role w])
    case failed
    then show ?thesis by (simp add: invites_kept_refl)
  next
    case (joined d1)
    then have "team_invites (db (snd (join_and_redeem now u token tid role w))) = map (\<lambda>i. if i_token i = token
        then i\<lparr>i_redeemed_at := Some now, i_redeemed_by := Some (u_id u)\<rparr> else i) (team_invites (db w))" by simp
    then show ?thesis by (rule invites_kept_map) (simp add: same_invite_iff)
  qed
  show "invites_kept (db w) (db (snd (store_invite x tok later v t req w)))"
    by (cases rule: issue_effect [of x tok later v t req w])
       (auto simp: invites_kept_def intro: same_invite_refl)
qed

lemma read_job_ok:
  assumes "read_invite now u token w = (Inr (tid, name, role), w')"
  shows "job_ok (db w) (Redeeming u token tid role)"
    and "\<exists>i\<in>set (team_invites (db w)). i_token i = token \<and> \<not> redeemed i"
proof -
  from read_invite_Inr [OF assms] obtain expires where
    "open_invite (db w) token = Some (tid, name, role, to_lowercase (u_email u), expires)" by blast
  from open_invite_Some [OF this] show "job_ok (db w) (Redeeming u token tid role)"
    "\<exists>i\<in>set (team_invites (db w)). i_token i = token \<and> \<not> redeemed i"
    by (auto simp: redeemed_def)
qed

lemma race_step_inv: "race_step s t \<Longrightarrow> race_inv s \<Longrightarrow> race_inv t"
proof (induction rule: race_step.induct)
  case (race_read now u token w tid name role w' jobs)
  then show ?case using phases_read_only(1) read_job_ok(1) by (fastforce simp: race_inv_def)
next
  case (race_redeem w jobs u token tid role rest now)
  then show ?case
    using keeps_run [OF keeps_writing_phases(1), of w now u token tid role] writing_phases_keep(1)
    by (fastforce simp: race_inv_def intro: job_ok_kept)
next
  case (race_issue w jobs u tid req rest x token now)
  then show ?case
    using keeps_run [OF keeps_writing_phases(2), of w x token now u tid req] writing_phases_keep(2)
    by (fastforce simp: race_inv_def intro: job_ok_kept)
next
  case (race_other w' w jobs)
  then show ?case
    using job_ok_kept [OF invites_kept_refl, of "db w'" "db w"] by (auto simp: race_inv_def teams_inv_def)
qed (auto simp: race_inv_def dest!: phases_read_only)

lemma redeemers_simps [simp]:
  "redeemers token [] = {}"
  "redeemers token (Redeeming u tok tid role # jobs) =
     (if tok = token then insert u (redeemers token jobs) else redeemers token jobs)"
  "redeemers token (Issuing u t req # jobs) = redeemers token jobs"
  "redeemers token (jobs @ rest) = redeemers token jobs \<union> redeemers token rest"
  by (auto simp: redeemers_def)


lemma late_only_same:
  "team_invites (db (fst t)) = team_invites (db (fst s)) \<Longrightarrow>
   (\<And>i. i \<in> set (team_invites (db (fst s))) \<Longrightarrow> redeemed i \<Longrightarrow>
      redeemers (i_token i) (snd t) \<subseteq> redeemers (i_token i) (snd s)) \<Longrightarrow> late_only s t"
  unfolding late_only_def using same_invite_refl by fastforce

lemma late_only_refl: "late_only s s"
  by (rule late_only_same) simp_all

lemma late_only_trans:
  assumes "late_only s t" "late_only t u"
  shows "late_only s u"
  unfolding late_only_def
proof (intro ballI impI)
  fix i assume "i \<in> set (team_invites (db (fst s)))" "redeemed i"
  with assms(1) obtain j where j: "j \<in> set (team_invites (db (fst t)))" "same_invite i j" "redeemed j"
    "j = i \<or> i_redeemed_by j \<in> Some ` u_id ` redeemers (i_token i) (snd s)"
    "redeemers (i_token i) (snd t) \<subseteq> redeemers (i_token i) (snd s)"
    unfolding late_only_def by blast
  have tok: "i_token j = i_token i" using j(2) by (simp add: same_invite_iff)
  from assms(2) j(1,3) obtain k where k: "k \<in> set (team_invites (db (fst u)))" "same_invite j k" "redeemed k"
    "k = j \<or> i_redeemed_by k \<in> Some ` u_id ` redeemers (i_token i) (snd t)"
    "redeemers (i_token i) (snd u) \<subseteq> redeemers (i_token i) (snd t)"
    unfolding late_only_def tok [symmetric] by blast
  show "redeemers (i_token i) (snd u) \<subseteq> redeemers (i_token i) (snd s) \<and>
      (\<exists>j\<in>set (team_invites (db (fst u))). same_invite i j \<and> redeemed j \<and>
         (j = i \<or> i_redeemed_by j \<in> Some ` u_id ` redeemers (i_token i) (snd s)))"
    using j k same_invite_trans [OF j(2) k(2)] by blast
qed

lemma invite_by_token:
  "teams_inv d \<Longrightarrow> i \<in> set (team_invites d) \<Longrightarrow> j \<in> set (team_invites d) \<Longrightarrow> i_token i = i_token j \<Longrightarrow> i = j"
  by (auto simp: teams_inv_def dest: unique_onD [where k = "i_token j"])

lemma redeem_late: "late_only (w, jobs @ Redeeming u token tid role # rest)
    (snd (join_and_redeem now u token tid role w), jobs @ rest)"
proof (cases rule: redeem_effect [of now u token tid role w])
  case failed
  then show ?thesis by (intro late_only_same) auto
next
  case (joined d1)
  let ?f = "\<lambda>i. if i_token i = token then i\<lparr>i_redeemed_at := Some now, i_redeemed_by := Some (u_id u)\<rparr> else i"
  show ?thesis
    unfolding late_only_def
  proof (intro ballI impI conjI)
    fix i assume i: "i \<in> set (team_invites (db (fst (w, jobs @ Redeeming u token tid role # rest))))" "redeemed i"
    show "redeemers (i_token i) (snd (snd (join_and_redeem now u token tid role w), jobs @ rest)) \<subseteq>
        redeemers (i_token i) (snd (w, jobs @ Redeeming u token tid role # rest))" by auto
    show "\<exists>j\<in>set (team_invites (db (fst (snd (join_and_redeem now u token tid role w), jobs @ rest)))).
        same_invite i j \<and> redeemed j \<and> (j = i \<or> i_redeemed_by j \<in>
          Some ` u_id ` redeemers (i_token i) (snd (w, jobs @ Redeeming u token tid role # rest)))"
      using i joined by (intro bexI [of _ "?f i"]) (auto simp: same_invite_iff redeemed_def)
  qed
qed

lemma race_step_late: "race_inv s \<Longrightarrow> race_step s t \<Longrightarrow> late_only s t"
proof (rotate_tac, induction rule: race_step.induct)
  case (race_read now u token w tid name role w' jobs)
  from read_job_ok(2) [OF race_read.hyps] obtain i where
    i: "i \<in> set (team_invites (db w))" "i_token i = token" "\<not> redeemed i" by blast
  have "teams_inv (db w)" using race_read.prems by (simp add: race_inv_def)
  from invite_by_token [OF this i(1)] i(2,3) phases_read_only(1) [OF race_read.hyps]
  show ?case by (intro late_only_same) auto
next
  case (race_redeem w jobs u token tid role rest now)
  show ?case by (rule redeem_late)
next
  case (race_issue w jobs u tid req rest x token now)
  show ?case
    by (cases rule: issue_effect [of x token now u tid req w])
       (auto simp: late_only_def intro: late_only_same same_invite_refl)
next
  case (race_drop w jobs job rest)
  show ?case by (rule late_only_same) (cases job; auto)+
qed (auto intro!: late_only_same dest!: phases_read_only)

interpretation races: progress_system race_inv race_step race_inv late_only
  by unfold_locales (auto intro: late_only_refl late_only_trans race_step_inv race_step_late)

text \<open>A request that runs undisturbed is two steps.\<close>

lemma accept_is_race: "steps race_step (w, jobs) (snd (accept_invite now u token w), jobs)"
proof (cases "read_invite now u token w")
  case (Pair r w1)
  show ?thesis
  proof (cases r)
    case (Inl e)
    with Pair show ?thesis
      by (auto simp: accept_invite_def bindM_def intro: steps.intros race_unread)
  next
    case (Inr res)
    obtain tid name role where res: "res = (tid, name, role)" by (cases res)
    with Pair Inr have "read_invite now u token w = (Inr (tid, name, role), w1)" by simp
    from race_read [OF this, of jobs] have "steps race_step (w, jobs) (w1, Redeeming u token tid role # jobs)"
      by (rule steps_step [OF steps_refl])
    then have "steps race_step (w, jobs) (snd (join_and_redeem now u token tid role w1), [] @ jobs)"
      using race_redeem [of w1 "[]" u token tid role jobs now] by (auto intro: steps_step)
    moreover have "snd (accept_invite now u token w) = snd (join_and_redeem now u token tid role w1)"
      using Pair Inr res by (simp add: accept_invite_def bindM_def pure_def split: sum.splits prod.splits)
    ultimately show ?thesis by simp
  qed
qed

subsection \<open>Owners\<close>

lemma redeem_roles:
  assumes "teams_inv (db w)" "job_ok (db w) (Redeeming u token tid role)"
  shows "role_of (db (snd (join_and_redeem now u token tid role w))) t v = role_of (db w) t v \<or>
     (t, v) = (tid, u_id u) \<and>
     role_of (db (snd (join_and_redeem now u token tid role w))) t v \<in> {Some Advisor, Some Viewer}"
proof (cases rule: redeem_effect [of now u token tid role w])
  case failed
  then show ?thesis by simp
next
  case (joined d1)
  let ?d = "db (snd (join_and_redeem now u token tid role w))"
  have role: "role_from_str role \<in> {Some Advisor, Some Viewer}"
    using assms by (auto simp: teams_inv_def role_from_str_def)
  have m: "membership ?d k = (if k = (tid, u_id u)
      then Some (merge_member (tid, u_id u) \<lparr>mw_role = role, mw_now = now\<rparr> (membership (db w) (tid, u_id u)))
      else membership (db w) k)" for k
    using upsert_member_lookup [OF upsert_member_ok [OF joined(1)], of k] joined
    by (simp add: membership_def)
  have "m_role (merge_member (tid, u_id u) \<lparr>mw_role = role, mw_now = now\<rparr> old) = role" for old
    by (simp add: merge_member_def split: option.splits)
  with role m [of "(t, v)"] show ?thesis by (auto simp: role_of_def unwrap_or_def)
qed

lemma issue_roles: "role_of (db (snd (store_invite x token now u tid req w))) t v = role_of (db w) t v"
  by (cases rule: issue_effect [of x token now u tid req w]) (simp_all add: role_of_def membership_def)

lemma race_step_ownerless: "race_step s s' \<Longrightarrow> race_inv s \<Longrightarrow> ownerless t (db (fst s)) \<Longrightarrow> ownerless t (db (fst s'))"
proof (induction rule: race_step.induct)
  case (race_redeem w jobs u token tid role rest now)
  then have "teams_inv (db w)" "job_ok (db w) (Redeeming u token tid role)"
    by (simp_all add: race_inv_def del: job_ok.simps)
  note new = redeem_roles [OF this, of now t]
  show ?case
    unfolding ownerless_def
  proof
    fix v
    show "role_of (db (fst (snd (join_and_redeem now u token tid role w), jobs @ rest))) t v \<noteq> Some Owner"
      using new [of v] race_redeem.prems(2) by (auto simp: ownerless_def)
  qed
next
  case (race_issue w jobs u tid req rest x token now)
  then show ?case by (simp add: ownerless_def issue_roles)
next
  case (race_other w' w jobs)
  then show ?case by (simp add: ownerless_def role_of_def membership_def)
qed (auto dest!: phases_read_only)

interpretation orphans: invariant_system "\<lambda>s. race_inv s \<and> ownerless tid (db (fst s))" race_step
  "\<lambda>s. race_inv s \<and> ownerless tid (db (fst s))" for tid
  by unfold_locales (blast intro: race_step_inv race_step_ownerless)+

text \<open>Who is not an owner cannot invite.\<close>

lemma create_not_owner:
  assumes "role_of (db w) tid (u_id u) \<noteq> Some Owner"
  shows "\<exists>e. fst (create_invite x token now u tid req w) = Inl e \<and>
     (faults w = [] \<and> ie_valid_email x (ci_email req) \<longrightarrow> err_code e = Forbidden)"
proof -
  have "fst (create_invite x token now u tid req w) \<noteq> Inr resp" for resp
    using assms create_invite_Inr [of x token now u tid req w resp "snd (create_invite x token now u tid req w)"]
    by (metis prod.collapse)
  then obtain e where e: "fst (create_invite x token now u tid req w) = Inl e" by (metis obj_sumE)
  moreover have "err_code e = Forbidden" if "faults w = [] \<and> ie_valid_email x (ci_email req)"
    using e that assms
    by (auto simp: create_invite_def check_inviter_def role_for_def invite_guard_def is_owner_def act_simps
        result_simps err_defs split: option.splits)
  ultimately show ?thesis by blast
qed


subsection \<open>Properties\<close>

text \<open>C28: what a redeemed invitation still admits.  Over any interleaving of the phases of team
  requests, and whatever else runs and fails meanwhile, the row of a redeemed invitation is never
  removed or reopened and keeps its token, team, role, address and dates.  Its redeemer can still
  be overwritten, but only by a request that had read the invitation before it was redeemed and
  whose user has the invited address; without such a request in flight the row never changes
  again.\<close>

theorem redeemed_invite_late_only:
  assumes "race_inv (w, jobs)" "steps race_step (w, jobs) (w', jobs')"
    and "i \<in> set (team_invites (db w))" "redeemed i"
  shows "open_invite (db w') (i_token i) = None \<and>
     (\<exists>j\<in>set (team_invites (db w')). same_invite i j \<and> redeemed j \<and>
        (j = i \<or> (\<exists>u\<in>redeemers (i_token i) jobs.
           i_redeemed_by j = Some (u_id u) \<and> to_lowercase (u_email u) = i_email i)))"
proof -
  have inv: "teams_inv (db w)" "teams_inv (db w')"
    using assms(1) races.steps_inv [OF assms(2,1)] by (simp_all add: race_inv_def)
  from races.steps_rel [OF assms(2,1)] assms(3,4) obtain j where
    j: "j \<in> set (team_invites (db w'))" "same_invite i j" "redeemed j"
      "j = i \<or> i_redeemed_by j \<in> Some ` u_id ` redeemers (i_token i) jobs"
    unfolding late_only_def by fastforce
  have "to_lowercase (u_email u) = i_email i" if "u \<in> redeemers (i_token i) jobs" for u
    using that assms(1,3) invite_by_token [OF inv(1) assms(3)] by (force simp: redeemers_def race_inv_def)
  with j(4) have "j = i \<or> (\<exists>u\<in>redeemers (i_token i) jobs.
      i_redeemed_by j = Some (u_id u) \<and> to_lowercase (u_email u) = i_email i)" by auto
  moreover have "open_invite (db w') (i_token i) = None"
  proof (cases "open_invite (db w') (i_token i)")
    case (Some r)
    obtain a b c d e where "r = (a, b, c, d, e)" by (cases r)
    from open_invite_Some [OF Some [unfolded this]] obtain k where
      "k \<in> set (team_invites (db w'))" "i_token k = i_token i" "i_redeemed_at k = None" by blast
    with j(1-3) invite_by_token [OF inv(2) j(1), of k] show ?thesis
      by (simp add: same_invite_iff redeemed_def)
  qed
  ultimately show ?thesis using j(1-3) by blast
qed

text \<open>One invitation, two accounts with its address: both have read it, and both join.\<close>

definition second_user :: user where
  "second_user = sample_user\<lparr>u_id := 2, u_supabase_user_id := 102\<rparr>"

definition race_world :: "team_member list \<Rightarrow> (instant \<times> uuid) option \<Rightarrow> world" where
  "race_world ms r = team_world\<lparr>db := (db team_world)\<lparr>users := [sample_user, second_user], team_members := ms,
     team_invites := [(invite_row ''tok'' 5 1 ''a@b.c'' ''viewer'' 0 100)
       \<lparr>i_redeemed_at := map_option fst r, i_redeemed_by := map_option snd r\<rparr>]\<rparr>\<rparr>"

lemma race_world_read: "u \<in> {sample_user, second_user} \<Longrightarrow>
    read_invite 50 u ''tok'' (race_world ms None) = (Inr (5, ''T'', ''viewer''), race_world ms None)"
  using lower_email
  by (auto simp: read_invite_def check_invite_def open_invite_def act_simps result_simps race_world_def team_world_def
      invite_row_def sample_team_def second_user_def sample_user_def)

lemma race_world_redeem:
  "snd (join_and_redeem 50 sample_user ''tok'' 5 ''viewer'' (race_world [] None)) =
     race_world [\<lparr>m_team_id = 5, m_user_id = 1, m_role = ''viewer'', m_joined_at = 50\<rparr>] (Some (50, 1))"
  "snd (join_and_redeem 60 second_user ''tok'' 5 ''viewer''
       (race_world [\<lparr>m_team_id = 5, m_user_id = 1, m_role = ''viewer'', m_joined_at = 50\<rparr>] (Some (50, 1)))) =
     race_world [\<lparr>m_team_id = 5, m_user_id = 1, m_role = ''viewer'', m_joined_at = 50\<rparr>,
       \<lparr>m_team_id = 5, m_user_id = 2, m_role = ''viewer'', m_joined_at = 60\<rparr>] (Some (60, 2))"
  by (simp_all add: join_and_redeem_def act_simps transaction_no_faults upsert_member_sql_def redeem_sql_def
      membership_def merge_member_def user_exists_def team_exists_def result_simps race_world_def team_world_def
      invite_row_def sample_team_def second_user_def sample_user_def)

theorem redeemed_invite_late_only_witness:
  "\<exists>w1 w2. steps race_step (race_world [] None, []) (w1, [Redeeming second_user ''tok'' 5 ''viewer'']) \<and>
     steps race_step (w1, [Redeeming second_user ''tok'' 5 ''viewer'']) (w2, []) \<and>
     map i_redeemed_by (team_invites (db w1)) = [Some 1] \<and> map i_redeemed_by (team_invites (db w2)) = [Some 2] \<and>
     role_of (db w2) 5 1 = Some Viewer \<and> role_of (db w2) 5 2 = Some Viewer \<and>
     open_invite (db w2) ''tok'' = None"
proof -
  let ?R = "\<lambda>u. Redeeming u ''tok'' 5 ''viewer''"
  let ?m1 = "\<lparr>m_team_id = 5, m_user_id = 1, m_role = ''viewer'', m_joined_at = 50\<rparr>"
  let ?m2 = "\<lparr>m_team_id = 5, m_user_id = 2, m_role = ''viewer'', m_joined_at = 60\<rparr>"
  let ?w0 = "race_world [] None" let ?w1 = "race_world [?m1] (Some (50, 1))"
  let ?w2 = "race_world [?m1, ?m2] (Some (60, 2))"
  have "race_step (?w0, []) (?w0, [?R second_user])" "race_step (?w0, [?R second_user]) (?w0, [?R sample_user, ?R second_user])"
    by (rule race_read [OF race_world_read], simp)+
  moreover have "race_step (?w0, [?R sample_user, ?R second_user]) (?w1, [?R second_user])"
    using race_redeem [of ?w0 "[]" sample_user "''tok''" 5 "''viewer''" "[?R second_user]" 50]
    by (simp add: race_world_redeem)
  ultimately have run1: "steps race_step (?w0, []) (?w1, [?R second_user])" by (blast intro: steps.intros)
  have "race_step (?w1, [?R second_user]) (?w2, [])"
    using race_redeem [of ?w1 "[]" second_user "''tok''" 5 "''viewer''" "[]" 60] by (simp add: race_world_redeem)
  then have run2: "steps race_step (?w1, [?R second_user]) (?w2, [])" by (blast intro: steps.intros)
  have "race_inv (?w0, [])"
    by (simp add: race_inv_def teams_inv_def race_world_def team_world_def unique_on_def map_filter_Cons invite_row_def)
  from races.steps_inv [OF run1 this] have inv: "race_inv (?w1, [?R second_user])" .
  have "hd (team_invites (db ?w1)) \<in> set (team_invites (db ?w1))" "redeemed (hd (team_invites (db ?w1)))"
    "i_token (hd (team_invites (db ?w1))) = ''tok''"
    by (simp_all add: race_world_def redeemed_def invite_row_def)
  with redeemed_invite_late_only [OF inv run2] have "open_invite (db ?w2) ''tok'' = None" by metis
  moreover have "map i_redeemed_by (team_invites (db ?w1)) = [Some 1]" "map i_redeemed_by (team_invites (db ?w2)) = [Some 2]"
    "role_of (db ?w2) 5 1 = Some Viewer" "role_of (db ?w2) 5 2 = Some Viewer"
    by (simp_all add: race_world_def role_of_def membership_def role_from_str_def unwrap_or_def)
  ultimately show ?thesis using run1 run2 by (intro exI [of _ ?w1] exI [of _ ?w2] conjI)
qed

text \<open>C29: an owner can lock a team for good.  When the only owner of a team accepts an invitation to
  it, the role of the invitation replaces the owner's; from then on nobody owns the team, over any
  interleaving of team requests with whatever else runs and fails, those already begun included,
  and every request to invite somebody that begins later fails, as forbidden unless the database
  fails or the address is malformed.\<close>

theorem demoted_owner_locks_team:
  assumes "race_inv (w, jobs)" "\<forall>v. role_of (db w) tid v = Some Owner \<longrightarrow> v = u_id u"
    and "accept_invite now u token w = (Inr (tid, name, role), w1)"
    and "steps race_step (w1, jobs) (w2, jobs')"
  shows "role_of (db w1) tid (u_id u) = role_from_str role \<and> role_from_str role \<in> {Some Advisor, Some Viewer} \<and>
     (\<forall>v. role_of (db w2) tid v \<noteq> Some Owner) \<and>
     (\<exists>e. fst (create_invite x token' later v tid req w2) = Inl e \<and>
        (faults w2 = [] \<and> ie_valid_email x (ci_email req) \<longrightarrow> err_code e = Forbidden))"
proof -
  have inv1: "race_inv (w1, jobs)"
    using races.steps_inv [OF accept_is_race assms(1), of now u token] assms(3) by simp
  from accept_invite_Inr [OF assms(3)] obtain expires where
    "open_invite (db w) token = Some (tid, name, role, to_lowercase (u_email u), expires)" by blast
  from open_invite_Some [OF this] assms(1) have role: "role_from_str role \<in> {Some Advisor, Some Viewer}"
    by (auto simp: race_inv_def teams_inv_def role_from_str_def)
  from accept_invite_exact [OF assms(3)] obtain m where
    "membership (db w1) (tid, u_id u) = Some m" "m_role m = role"
    and other: "\<forall>k. k \<noteq> (tid, u_id u) \<longrightarrow> membership (db w1) k = membership (db w) k" by auto
  with role have r1: "role_of (db w1) tid (u_id u) = role_from_str role"
    by (auto simp: role_of_def unwrap_or_def)
  have "ownerless tid (db w1)"
    unfolding ownerless_def
  proof
    fix v
    have "role_of (db w1) tid v = role_of (db w) tid v" if "v \<noteq> u_id u"
      using other that by (simp add: role_of_def)
    then show "role_of (db w1) tid v \<noteq> Some Owner"
      using r1 role assms(2) by (cases "v = u_id u") auto
  qed
  with inv1 orphans.steps_inv [OF assms(4), of tid] have "ownerless tid (db w2)" by simp
  with r1 role create_not_owner [of w2 tid v x token' later req] show ?thesis by (simp add: ownerless_def)
qed

theorem demoted_owner_locks_team_witness:
  "role_of (db team_world) 5 1 = Some Owner \<and>
   role_of (db (snd (accept_invite 50 sample_user ''tok'' team_world))) 5 1 = Some Advisor \<and>
   (\<exists>e. fst (create_invite sample_invite_env ''t2'' 60 sample_user 5
      \<lparr>ci_email = ''x@y.z'', ci_role = ''viewer''\<rparr>
      (snd (accept_invite 50 sample_user ''tok'' team_world))) = Inl e \<and> err_code e = Forbidden)"
proof -
  let ?w = "snd (accept_invite 50 sample_user ''tok'' team_world)"
  have "race_inv (team_world, [])" using team_world_inv by (simp add: race_inv_def)
  moreover have id: "u_id sample_user = 1" by (simp add: sample_user_def)
  moreover have own: "role_of (db team_world) 5 v = (if v = 1 then Some Owner else None)" for v
    by (simp add: team_world_def role_of_def membership_def role_from_str_def unwrap_or_def)
  moreover have "accept_invite 50 sample_user ''tok'' team_world = (Inr (5, ''T'', ''advisor''), ?w)"
    by (simp add: team_world_accept)
  ultimately have "role_of (db ?w) 5 1 = role_from_str ''advisor''"
    "\<exists>e. fst (create_invite sample_invite_env ''t2'' 60 sample_user 5 \<lparr>ci_email = ''x@y.z'', ci_role = ''viewer''\<rparr> ?w) = Inl e \<and>
       (faults ?w = [] \<and> ie_valid_email sample_invite_env ''x@y.z'' \<longrightarrow> err_code e = Forbidden)"
    using demoted_owner_locks_team [of team_world "[]" 5 sample_user 50 "''tok''" "''T''" "''advisor''" ?w ?w "[]"
        sample_invite_env "''t2''" 60 sample_user "\<lparr>ci_email = ''x@y.z'', ci_role = ''viewer''\<rparr>"]
    by (simp_all add: steps_refl)
  moreover have "faults ?w = []" by (simp add: team_world_accept) (simp add: team_world_def)
  moreover have "ie_valid_email sample_invite_env ''x@y.z''" by (simp add: sample_invite_env_def)
  ultimately show ?thesis using own [of 1] by (auto simp: role_from_str_def)
qed

end
