(* ===== verification/New_Account.thy ===== *)
theory New_Account
  imports Migrations Team_Races
begin

text \<open>
  Accounts and teams.  Teams come into being only by the backfill of migration 0005: no statement
  of the service writes the table \<open>teams\<close>.  An account that signs up later therefore has none,
  whatever its profile (\<^verbatim>\<open>src/users/handlers.rs\<close>) says.
\<close>

subsection \<open>Lemmas\<close>

lemma sql_step_teams: "sql_step d d' \<Longrightarrow> teams d' = teams d"
proof (induction rule: sql_step.induct)
  case (sql_connection d d')
  then show ?case
    by (induction rule: connection_step.induct)
       (auto simp: insert_pending_sql_def mark_completed_sql_def soft_delete_sql_def audit_sql_def Let_def split: if_splits)
qed (auto simp: upsert_user_sql_def update_display_name_sql_def customer_stub_sql_def webhook_sql_def
      insert_subscription_def update_subscriptions_def usage_sql_def add_credits_sql_def record_event_sql_def
      enqueue_sql_def update_report_def insert_invite_sql_def redeem_sql_def Let_def
      split: option.splits list.splits)

lemma sql_steps_teams: "steps sql_step d d' \<Longrightarrow> teams d' = teams d"
  by (induction rule: steps.induct) (auto dest: sql_step_teams)

lemma service_step_teams: "service_step ax bx w w' \<Longrightarrow> teams (db w') = teams (db w)"
  by (rule sql_steps_teams) (rule service_step_runs)

lemma service_steps_teams: "steps (service_step ax bx) w w' \<Longrightarrow> teams (db w') = teams (db w)"
  by (induction rule: steps.induct) (auto dest: service_step_teams)

text \<open>After the backfill every team has the id of its owner.\<close>

lemma run_migrations_solo:
  assumes "service_inv d" "migrations d < 5" "no_teams_yet d" "run_migrations now d = (Inr (), d')"
  shows "\<forall>t\<in>set (teams d'). t_id t = t_owner_user_id t"
proof -
  have "d' = (teams_backfilled now (d\<lparr>migrations := 4\<rparr>))\<lparr>migrations := 6\<rparr>"
    using assms by (auto simp: run_migrations_eq split: if_splits)
  then show ?thesis by (auto simp: teams_backfilled_def solo_team_def Let_def)
qed

lemma sign_up_row:
  assumes "upsert_user_from_claims ax row_id now cl w = (Inr u, w')"
    and "\<And>sid. parse_uuid ax (cl_sub cl) = Some sid \<Longrightarrow> user_by_supabase (db w) sid = None"
  shows "u_id u = row_id" "\<not> user_exists (db w) row_id" "teams (db w') = teams (db w)"
proof -
  show "u_id u = row_id" "\<not> user_exists (db w) row_id"
    using assms unfolding upsert_user_from_claims_def
    by (auto simp: bindM_Inr_iff of_result_def ok_or_def map_errM_Inr upsert_user_sql_def merge_user_def
        dest!: query_Inr split: option.splits if_splits)
  show "teams (db w') = teams (db w)"
    using sql_steps_teams [OF keeps_run [OF runs_service(1) steps_refl, of w ax row_id now cl]] assms(1) by simp
qed

lemma not_a_member:
  assumes "service_inv d" "\<not> team_exists d tid"
  shows "role_of d tid v = None"
proof -
  have "membership d (tid, v) = None"
    using assms by (auto simp: membership_None service_inv_def references_ok_def)
  then show ?thesis by (simp add: role_of_def)
qed

lemma list_members_refused:
  assumes "role_of (db w) tid (u_id u) = None" "faults w = []"
  shows "\<exists>e. fst (list_members fmt u tid w) = Inl e \<and> err_code e = Forbidden"
  using assms by (simp add: list_members_def role_for_def act_simps result_simps err_defs)

subsection \<open>Properties\<close>

text \<open>C30: the team that the profile names need not exist.  After the teams migration has run on a
  consistent database, and any requests, jobs and faults since, a user signs up whose subject has
  no account yet.  From then on, over any requests, jobs and faults of the service, the profile
  gives the user's own id as team id and the role owner, but there is no such team: as long as the
  database answers, listing its members is forbidden, and so is inviting to it with a well-formed
  address.\<close>

theorem profile_team_of_new_user:
  assumes "service_inv d0" "migrations d0 < 5" "no_teams_yet d0"
    and "run_migrations t0 d0 = (Inr (), d1)" "steps (service_step ax bx) \<lparr>db = d1, faults = fs\<rparr> w"
    and "upsert_user_from_claims ax row_id now cl w = (Inr u, w1)"
    and "\<forall>sid. parse_uuid ax (cl_sub cl) = Some sid \<longrightarrow> user_by_supabase (db w) sid = None"
    and "steps (service_step ax bx) w1 w2" "u_id v = u_id u"
  shows "(\<forall>resp w3. get_me fmt v w2 = (Inr resp, w3) \<longrightarrow>
        me_team_id resp = Some (u_id v) \<and> me_team_role resp = Some ''owner'') \<and>
     \<not> team_exists (db w2) (u_id v) \<and>
     (faults w2 = [] \<longrightarrow>
        (\<exists>e. fst (list_members fmt v (u_id v) w2) = Inl e \<and> err_code e = Forbidden) \<and>
        (ie_valid_email x (ci_email req) \<longrightarrow>
           (\<exists>e. fst (create_invite x token later v (u_id v) req w2) = Inl e \<and> err_code e = Forbidden)))"
proof -
  have "service_inv d1" using run_migrations_ok [OF assms(1) assms(3) _ assms(4)] assms(2) by simp
  then have inv: "service_inv (db w)" using service.steps_inv [OF assms(5)] by simp
  have row: "u_id u = row_id" "\<not> user_exists (db w) row_id" "teams (db w1) = teams (db w)"
    using sign_up_row [OF assms(6)] assms(7) by blast+
  have "\<forall>t\<in>set (teams (db w)). t_id t = t_owner_user_id t"
    using run_migrations_solo [OF assms(1-4)] service_steps_teams [OF assms(5)] by simp
  moreover have "\<forall>t\<in>set (teams (db w)). user_exists (db w) (t_owner_user_id t)"
    using inv by (simp add: service_inv_def references_ok_def)
  ultimately have "\<not> team_exists (db w) row_id" using row(2) by (auto simp: team_exists_def)
  then have none: "\<not> team_exists (db w2) (u_id v)"
    using service_steps_teams [OF assms(8)] row(1,3) assms(9) by (simp add: team_exists_def)
  have "service_inv (db w1)"
    using statements.steps_inv [OF keeps_run [OF runs_service(1) steps_refl, of w ax row_id now cl] inv] assms(6) by simp
  then have "service_inv (db w2)" by (rule service.steps_inv [OF assms(8)])
  then have role: "role_of (db w2) (u_id v) (u_id v) = None" using none by (rule not_a_member)
  have "\<exists>e. fst (create_invite x token later v (u_id v) req w2) = Inl e \<and>
      (faults w2 = [] \<and> ie_valid_email x (ci_email req) \<longrightarrow> err_code e = Forbidden)"
    by (rule create_not_owner) (simp add: role)
  moreover have "me_team_id resp = Some (u_id v) \<and> me_team_role resp = Some ''owner''"
    if "get_me fmt v w2 = (Inr resp, w3)" for resp w3
    using that by (auto simp: get_me_def bindM_Inr_iff map_errM_Inr pure_def build_me_def Let_def)
  ultimately show ?thesis using none list_members_refused [OF role] by blast
qed

definition newcomer :: claims where
  "newcomer = \<lparr>cl_sub = ''new'', cl_email = Some ''n@b.c'', cl_iss = [], cl_aud = [], cl_exp = 0,
     cl_user_metadata = JNull, cl_app_metadata = JNull, cl_role = None\<rparr>"

theorem profile_team_of_new_user_witness:
  "\<exists>d1 u w1 resp. run_migrations 7 before_teams = (Inr (), d1) \<and>
     upsert_user_from_claims (sample_auth\<lparr>parse_uuid := \<lambda>_. Some 202\<rparr>) 9 50 newcomer \<lparr>db = d1, faults = []\<rparr> = (Inr u, w1) \<and>
     fst (get_me (\<lambda>_. None) u w1) = Inr resp \<and> me_team_id resp = Some 9 \<and> me_team_role resp = Some ''owner'' \<and>
     (\<exists>e. fst (list_members (\<lambda>_. None) u 9 w1) = Inl e \<and> err_code e = Forbidden) \<and>
     (\<exists>e. fst (create_invite sample_invite_env ''t'' 60 u 9 \<lparr>ci_email = ''x@y.z'', ci_role = ''viewer''\<rparr> w1) = Inl e \<and>
        err_code e = Forbidden)"
proof -
  let ?ax = "sample_auth\<lparr>parse_uuid := \<lambda>_. Some 202\<rparr>"
  obtain d1 where d1: "run_migrations 7 before_teams = (Inr (), d1)" "users d1 = users before_teams"
    using migrations_before_teams by blast
  let ?w = "\<lparr>db = d1, faults = []\<rparr> :: world"
  have new: "\<forall>sid. parse_uuid ?ax (cl_sub newcomer) = Some sid \<longrightarrow> user_by_supabase (db ?w) sid = None"
    using d1(2) by (simp add: user_by_supabase_def before_teams_def sample_user_def)
  obtain u w1 where up: "upsert_user_from_claims ?ax 9 50 newcomer ?w = (Inr u, w1)" "faults w1 = []" "u_id u = 9"
    using d1(2)
    by (simp add: upsert_user_from_claims_def email_required_def newcomer_def user_by_supabase_def upsert_user_sql_def
        user_exists_def merge_user_def before_teams_def sample_user_def act_simps result_simps)
  obtain resp w3 where me: "get_me (\<lambda>_. None) u w1 = (Inr resp, w3)"
    using up(2) by (simp add: get_me_def act_simps fetch_active_def result_simps)
  have em: "ie_valid_email sample_invite_env ''x@y.z''" by (simp add: sample_invite_env_def)
  note old = before_teams_facts
  from profile_team_of_new_user [OF old(1-3) d1(1) steps_refl up(1) new steps_refl refl, of "\<lambda>_. None"
      sample_invite_env "\<lparr>ci_email = ''x@y.z'', ci_role = ''viewer''\<rparr>" "''t''" 60] me up em
  show ?thesis using d1(1) by (intro exI [of _ d1] exI [of _ u] exI [of _ w1] exI [of _ resp]) simp
qed

end
