(* ===== verification/Spec2Isabelle.thy ===== *)
theory Spec2Isabelle
  imports Confidentiality Readiness Report_Cycle Chat_Load New_Account
begin

text \<open>
  Verification of Mizan Connect, the cloud service behind the Mizan desktop client: accounts on
  top of Supabase tokens, Stripe billing with a metered AI proxy, monthly reports, teams with
  invitations, and brokerage connections through SnapTrade, on Axum and Postgres.

  \<^bold>\<open>How the program is put together.\<close>  \<^verbatim>\<open>main\<close> loads the configuration, connects and migrates the database,
  warms the key cache, tests the encryption key and builds the shared state; \<^verbatim>\<open>server::build_app\<close> puts
  the routers of the modules into a stack of layers.  A request gets an id, is rate limited,
  routed, and, on all but eight routes, authenticated: the extractor verifies the bearer token
  against the cached keys and upserts the account.  Handlers talk to Postgres, Stripe, SnapTrade
  and the AI upstream; Stripe calls back through the webhook, SnapTrade through the browser; two
  jobs enqueue and generate the monthly reports.

  \<^bold>\<open>Theories and sources\<close> (paths under \<^verbatim>\<open>src/src\<close>):

  \<^item> \<open>Rust_Prelude\<close>: results, strings, numbers and JSON as the code uses them; \<open>Utf8\<close>: code points, the
    strict and the lossy decoder; \<open>Machines\<close>: reachability, invariants and progress relations, the
    locales the components interpret.
  \<^item> \<open>App_Error\<close> (\<^verbatim>\<open>error.rs\<close>); \<open>Database\<close> (\<^verbatim>\<open>migrations/\<close>): the tables, the actions on them with a schedule of
    faults, transactions, and the locales of a once-only gate and of a keyed table; \<open>Config\<close>
    (\<^verbatim>\<open>config.rs\<close>); \<open>Auth\<close> (\<^verbatim>\<open>auth/\<close>).
  \<^item> \<open>Billing_Catalog\<close> (\<^verbatim>\<open>billing/prices.rs\<close>, \<^verbatim>\<open>entitlements.rs\<close>, \<^verbatim>\<open>credits.rs\<close>), \<open>Billing_Repository\<close>,
    \<open>Stripe_Client\<close>, \<open>Stripe_Webhook\<close>, \<open>Billing_Handlers\<close>, \<open>Ai_Proxy\<close>, \<open>Monthly_Reports\<close> (\<^verbatim>\<open>reports.rs\<close>,
    \<^verbatim>\<open>reports_cron.rs\<close>), each the file of its name under \<^verbatim>\<open>billing/\<close>.
  \<^item> \<open>Users_Me\<close> (\<^verbatim>\<open>users/\<close>), \<open>Teams\<close> (\<^verbatim>\<open>teams/\<close>); \<open>Team_Races\<close>: requests of \<^verbatim>\<open>teams/invites.rs\<close> that
    overlap; \<open>New_Account\<close>: the team of an account that signs up after the teams migration.
  \<^item> \<open>Login_Limiter\<close> (\<^verbatim>\<open>snaptrade/rate_limit.rs\<close>), \<open>Snaptrade_Crypto\<close> (\<^verbatim>\<open>encryption.rs\<close>, \<^verbatim>\<open>state_token.rs\<close>,
    \<^verbatim>\<open>signing.rs\<close>), \<open>Snaptrade_Client\<close> (\<^verbatim>\<open>client.rs\<close>, \<^verbatim>\<open>errors.rs\<close>, \<^verbatim>\<open>types.rs\<close>), \<open>Snaptrade_Connections\<close>
    (\<^verbatim>\<open>audit/repository.rs\<close>, \<^verbatim>\<open>snaptrade/repository.rs\<close>), \<open>Snaptrade_Handlers\<close> (\<^verbatim>\<open>handlers.rs\<close>) and
    \<open>Snaptrade_Flows\<close>, the properties of flows over several requests.
  \<^item> \<open>Http_Layers\<close> (\<^verbatim>\<open>middleware/\<close>, \<^verbatim>\<open>health.rs\<close>, the configuration part of \<^verbatim>\<open>server.rs\<close>), \<open>Server\<close>
    (\<^verbatim>\<open>server.rs\<close> and the \<^verbatim>\<open>router\<close> functions), \<open>Service\<close> (all handlers and jobs as one step relation).
  \<^item> \<open>Migrations\<close> (\<^verbatim>\<open>migrations/\<close> as they run), \<open>Shutdown\<close> (\<^verbatim>\<open>shutdown.rs\<close>, \<open>serve_with_deadline\<close>) and \<open>Boot\<close>
    (\<^verbatim>\<open>main.rs\<close>, \<^verbatim>\<open>state.rs\<close>, \<^verbatim>\<open>db/pool.rs\<close>, \<^verbatim>\<open>telemetry.rs\<close>): from the environment to the end of the process.
  \<^item> \<open>Gateway\<close>: the handler behind each endpoint, from its extractors to its reply; \<open>App_Run\<close>: the process
    as a transition system over the shared state and the database, which refines \<open>Service\<close> through
    all layers; \<open>Isolation\<close>: what a request cannot touch; \<open>Confidentiality\<close>: what a read cannot
    reveal; \<open>Callback_Pages\<close>: the pages of the broker callback.
  \<^item> \<open>Chat_Load\<close>: chats that run at the same time; \<open>Report_Cycle\<close>: the schedule of the reports;
    \<open>Readiness\<close>: the refresher of the key cache and the readiness probe.

  \<^bold>\<open>State and operations.\<close>  A table is a list of row records, a statement a function from the database to
  a result and the next database that checks the constraints in the order Postgres does.  A
  handler is an action on the world: the database and a list of faults, one per round trip.  A
  round trip that is marked as faulty fails with an I/O error and has not been executed.  A
  transaction that does not commit leaves the database as it was.  Errors are values of
  \<^typ>\<open>app_error\<close>, \<^typ>\<open>sqlx_error\<close> and the error types of the clients.  Time is an argument in nanoseconds;
  fresh row ids, tokens and nonces are arguments too.

  \<^bold>\<open>Code outside of the repository\<close> (JWT, HMAC, AES-GCM, base64, JSON decoders, HTTP transports, the
  tower layers, the parsers of dates and addresses) are fields of environment records.  What a
  theorem needs of them is a named predicate over the environment (\<^const>\<open>decoder_checks\<close>,
  \<^const>\<open>aead_laws\<close>, \<^const>\<open>governor_law\<close> and others) that states documented behaviour, and each theorem
  with such a hypothesis is applied to a concrete environment that satisfies it.

  \<^bold>\<open>What the lemmas show.\<close>  Billing: a Stripe event takes effect exactly once and atomically, and only
  with a genuine signature of a timestamp in the window; the bought plan is the granted one; an AI
  reply is charged if and only if it was completed, by the exact price, and the gate bounds what
  a subscription can use, with chats in parallel by one charge more for each of them; the byte-wise streaming loop refines splitting the text into lines.
  Accounts: only keys of the project count in production, the cache stays warm, an account keeps
  its identity.  Reports: the window is exactly the previous month, the queue drains, finished
  reports stay.  Teams: only owners invite, acceptance is exact, and a redeemed invitation can
  be written only by requests that had read it before.
  Brokerage: the callback binds the user who started the flow, at most one connection is active,
  the secret can be read back, the signature covers the request, the limiter refines a sliding
  window.  Server: no route but the public ones is served without a token, every response is
  identified, readiness follows the key endpoint and the database, a signal ends the process in
  25 seconds.  Whole service: a process that starts on a consistent database keeps all table
  constraints and references through any sequence of requests, jobs and faults, the logs only
  grow, no request touches the rows of another account, and no read depends on what its user may
  not see.  Several theorems state behaviour that is
  not what the code means to do: with all migrations applied no subscription event and no first
  checkout succeeds, the owner of a team can be lost, one invitation can admit two accounts, a new
  account has no team, a carriage return in the upstream text kills the stream, a patched name
  reverts, only the last CORS origin counts, the request limit falls as its setting grows.

  \<^bold>\<open>Bounds and termination.\<close>  Every definition is a total function by structural recursion or a
  measure; no fuel is used.  Integers that can overflow are words or carry their wrap-around
  (32-bit token counts and credits, the 64-bit tolerance check); row counts and lengths are
  natural numbers.

  \<^bold>\<open>Simplifications.\<close>  Strings are lists of characters U+0000 to U+00FF; where the full range matters
  (streams, secrets, signed requests) they are lists of code points.  A dash outside of that
  range in a fixed text is written as two hyphens.  An audit event that a handler spawns is recorded
  at once.  The clock of the limiter does not run backwards.  Requests and ticks of the jobs are
  steps, one after the other: interleavings of the statements of two of them are not modelled,
  except for the chats of one user, for the phases of team requests and for the pool that a webhook
  reads beside its transaction; in particular two ticks of the report worker do not overlap.  A
  panic of the streaming task ends the process in a release build; the step relation lets the
  others go on, which only adds runs.  A migration and the row that records it are written
  together.  A request that the timeout cuts off leaves the
  tables as if the rest of its round trips had failed.

  \<^bold>\<open>Not modelled.\<close>  The table \<open>sync_jobs\<close>, which no code uses, and the serial numbers of log rows; the
  writing of logs and their spans, the installation of the telemetry and the
  constants of the build (\<^verbatim>\<open>lib.rs\<close>); the library that calls the two jobs at their times; the
  serialisation of replies and the parsing of bodies, which are arguments; the tests.
\<close>

subsection \<open>The whole service\<close>

text \<open>C6: from start-up on.  A process that starts on a consistent database, old or current, and then
  serves whatever requests come through its layers, streams, runs its jobs and refreshes its keys
  while database calls fail, keeps every primary key, unique index, check, reference and the
  required team of the migrated tables it uses and only appends to the logs; its configuration is
  the validated one, the broker secrets are encrypted with the 32-byte key that passed the self
  test, a warm key cache is never emptied, and the limiter holds at most ten admitted calls of any
  user.\<close>

theorem process_from_start:
  assumes "layers_law hx" "boot hx x now raw d = (Inr st, d')"
    and "service_inv d" "migrations d < 5 \<longrightarrow> no_teams_yet d" "migrations d \<le> 6"
    and "steps (app_step hx gx) (st, \<lparr>db = d', faults = fs\<rparr>) (st', w)"
  shows "service_inv (db w) \<and> deployed (db w) \<and> append_only d' (db w) \<and>
     load_config (bo_base64 x) raw = Inr (as_config st') \<and>
     length (key_bytes (as_encryption st')) = 32 \<and>
     self_test (bo_aead x) (as_encryption st') (fst (bo_nonces x)) (snd (bo_nonces x)) = Inr () \<and>
     (keys (as_jwks st) \<noteq> [] \<longrightarrow> keys (as_jwks st') \<noteq> []) \<and>
     (\<forall>uid. length (slots_of (as_limiter st') uid) \<le> 10)"
proof -
  have start: "service_inv d' \<and> deployed d'"
    using run_migrations_ok [OF assms(3) _ assms(5) boot_Inr(3) [OF assms(2)]] assms(4) by blast
  note run = progress_system.axioms(1) [OF app_progress [OF assms(1)]] app_progress [OF assms(1), where gx = gx]
  have inv: "service_inv (db (snd (st', w)))"
    by (rule invariant_system.steps_inv [OF run(1) assms(6)]) (simp add: start)
  have rel: "process_rel (st, \<lparr>db = d', faults = fs\<rparr>) (st', w)"
    by (rule progress_system.steps_rel [OF run(2) assms(6)]) (simp add: start)
  have "as_limiter st = (\<lambda>_. None)" by (rule boot_state_fields(5) [OF boot_Inr(4) [OF assms(2)]])
  then have "\<forall>uid. length (slots_of (as_limiter st) uid) \<le> MAX_PER_WINDOW" by (simp add: slots_of_def)
  with rel have "\<forall>uid. length (slots_of (as_limiter st') uid) \<le> 10"
    by (simp add: process_rel_def state_rel_def MAX_PER_WINDOW_def)
  moreover have "length (key_bytes (as_encryption st)) = 32"
    "self_test (bo_aead x) (as_encryption st) (fst (bo_nonces x)) (snd (bo_nonces x)) = Inr ()"
    using boot_state_fields(2) [OF boot_Inr(4) [OF assms(2)]] by (auto simp: load_key_Inr)
  ultimately show ?thesis
    using inv rel start boot_Inr(1) [OF assms(2)] by (simp add: process_rel_def state_rel_def deployed_def)
qed

theorem process_from_start_witness:
  "\<exists>st d' app. boot sample_http sample_boot 0 (blank_raw\<lparr>raw_app_env := Some ''prod''\<rparr>) (empty_database 0) = (Inr st, d') \<and>
     application sample_http sample_gateway st sample_uuid_text sample_uuid_text sample_draws = Some app \<and>
     rs_status (fst (app None (sample_get ''/health'' (\<lambda>_. [])) \<lparr>db = d', faults = []\<rparr>)) = 200 \<and>
     service_inv (db (snd (app None (sample_get ''/health'' (\<lambda>_. [])) \<lparr>db = d', faults = []\<rparr>)))"
proof -
  obtain st d' where b: "boot sample_http sample_boot 0 (blank_raw\<lparr>raw_app_env := Some ''prod''\<rparr>) (empty_database 0) = (Inr st, d')"
    using sample_boots by blast
  let ?w = "\<lparr>db = d', faults = []\<rparr> :: world"
  obtain app where app: "application sample_http sample_gateway st sample_uuid_text sample_uuid_text sample_draws = Some app"
    "rs_status (fst (app None (sample_get ''/health'' (\<lambda>_. [])) ?w)) = 200"
    using sample_application by blast
  have run: "steps (app_step sample_http sample_gateway) (st, ?w)
      (st, snd (app None (sample_get ''/health'' (\<lambda>_. [])) ?w))"
    by (intro steps_step [OF steps_refl] app_request [OF app(1)]) simp
  have "service_inv (empty_database 0)" "no_teams_yet (empty_database 0)" "migrations (empty_database 0) \<le> 6"
    by (simp_all add: service_inv_defs no_teams_yet_def empty_database_def subscription_indexes_def
        connection_indexes_def unique_on_def List.map_filter_def)
  then show ?thesis
    using process_from_start [OF sample_http_layers b _ _ _ run] b app by blast
qed

end
